(* ===== verification/Prelude.thy ===== *)
theory Prelude
  imports Main "HOL-Library.AList" "HOL-Library.Sublist"
begin

text \<open>
  What every theory of the development shares: the named collections that carry the component
  proofs, machine types of Go as they are used by the bridge (durations, instants, 64-bit
  wrap-around), Go's \<open>defer\<close> as a combinator on event traces, and a few generic facts on
  lists and maps.
\<close>

section \<open>Collections\<close>

text \<open>
  \<open>config_defs\<close> collects the definitions of configuration validators and resolvers,
  \<open>guard_defs\<close> those of the abuse guards, \<open>handler_defs\<close> those of the upgrade handlers,
  \<open>go_lib\<close> the characteristic facts of the modelled standard library.
\<close>

named_theorems config_defs
named_theorems guard_defs
named_theorems handler_defs
named_theorems go_lib

section \<open>Time\<close>

text \<open>
  A \<open>time.Duration\<close> is a signed 64-bit count of nanoseconds; it is an \<open>int\<close> here, with the
  saturation of \<open>Time.Sub\<close> and the wrap-around of plain \<open>-\<close> written out below.
  A \<open>time.Time\<close> is the number of nanoseconds since Go's zero instant (1 January of year 1),
  so that the zero value of the type is 0 and \<open>IsZero\<close> is a comparison with 0.
\<close>

type_synonym duration = int
type_synonym instant = int

definition nanosecond :: duration where "nanosecond = 1"
definition millisecond :: duration where "millisecond = 1000000"
definition second :: duration where "second = 1000000000"
definition minute :: duration where "minute = 60 * second"

definition max_duration :: duration where "max_duration = 9223372036854775807"
definition min_duration :: duration where "min_duration = - 9223372036854775808"

definition time_IsZero :: "instant \<Rightarrow> bool" where
  "time_IsZero t \<longleftrightarrow> t = 0"

text \<open>\<open>Time.Sub\<close> saturates at the ends of the 64-bit range instead of wrapping.\<close>

definition time_Sub :: "instant \<Rightarrow> instant \<Rightarrow> duration" where
  "time_Sub t u = max min_duration (min max_duration (t - u))"

definition time_Add :: "instant \<Rightarrow> duration \<Rightarrow> instant" where
  "time_Add t d = t + d"

text \<open>The two's complement value of an \<open>int64\<close> result.\<close>

definition wrap64 :: "int \<Rightarrow> int" where
  "wrap64 x = (x + 2 ^ 63) mod 2 ^ 64 - 2 ^ 63"

lemma wrap64_id: "- (2 ^ 63) \<le> x \<Longrightarrow> x < 2 ^ 63 \<Longrightarrow> wrap64 x = x"
  by (simp add: wrap64_def)

lemma second_pos [simp]: "0 < second" and minute_pos [simp]: "0 < minute"
    and minute_not_le_zero [simp]: "\<not> minute \<le> 0"
  by (simp_all add: second_def minute_def)

lemma minute_le_max_duration: "minute \<le> max_duration"
  by (simp add: minute_def second_def max_duration_def)

text \<open>
  Comparisons against a bound inside the range see through the saturation, and so does the
  difference itself where it is in range.
\<close>

lemma time_Sub_ge_iff:
  "min_duration < d \<Longrightarrow> d \<le> max_duration \<Longrightarrow> d \<le> time_Sub t u \<longleftrightarrow> d \<le> t - u"
  by (auto simp: time_Sub_def)

lemma time_Sub_minute [simp]: "minute \<le> time_Sub t u \<longleftrightarrow> minute \<le> t - u"
  by (rule time_Sub_ge_iff) (simp_all add: minute_def second_def max_duration_def min_duration_def)

lemma time_Sub_exact:
  "min_duration \<le> t - u \<Longrightarrow> t - u \<le> max_duration \<Longrightarrow> time_Sub t u = t - u"
  by (simp add: time_Sub_def)

section \<open>Deferred effects\<close>

text \<open>
  The handlers of the bridge are modelled as functions from the outcomes of their environment to
  the list of effects they perform, in order. Go's \<open>defer f()\<close> runs \<open>f\<close> when the function
  returns, on every path and in reverse order of registration: \<open>defer\<close> puts the deferred effects
  behind everything the rest of the function does.
\<close>

definition deferring :: "'e list \<Rightarrow> 'e list \<Rightarrow> 'e list" where
  "deferring d rest = rest @ d"

lemma set_deferring [simp]: "set (deferring d rest) = set d \<union> set rest"
  by (auto simp: deferring_def)

lemma filter_deferring [simp]:
  "filter P (deferring d rest) = filter P rest @ filter P d"
  by (simp add: deferring_def)

lemma count_list_deferring [simp]:
  "count_list (deferring d rest) e = count_list rest e + count_list d e"
  by (induction rest) (simp_all add: deferring_def)

section \<open>Lists and maps\<close>

definition default_to :: "'a \<Rightarrow> 'a option \<Rightarrow> 'a" where
  "default_to d v = (case v of None \<Rightarrow> d | Some x \<Rightarrow> x)"

lemma default_to_simps [simp]: "default_to d None = d" "default_to d (Some x) = x"
  by (simp_all add: default_to_def)

lemma suffix_imp_drop: "suffix xs ys \<Longrightarrow> drop (length ys - length xs) ys = xs"
  by (auto simp: suffix_def)

lemma take_prefix_eq: "prefix xs ys \<Longrightarrow> take (length xs) ys = xs"
  by (auto simp: prefix_def)

lemma prefix_ConsD: "prefix (x # xs) ys \<Longrightarrow> \<exists>zs. ys = x # zs \<and> prefix xs zs"
  by (auto simp: prefix_def)

end
