(* ===== verification/Go_Strings.thy ===== *)
theory Go_Strings
  imports Prelude
begin

text \<open>
  The part of Go's \<open>strings\<close> package the bridge uses. A Go string is a sequence of bytes, and so
  is an Isabelle \<open>string\<close> (a list of 8-bit \<open>char\<close>s): \<open>length\<close> counts bytes, as \<open>len\<close> does.
  Where the library decodes UTF-8 (\<open>TrimSpace\<close>, \<open>EqualFold\<close>) the model matches the encodings of
  the runes concerned. The case table of Unicode is not modelled: \<open>strings_ToLower\<close> takes the
  mapping of strings that hold a non-ASCII byte as a parameter.
\<close>

section \<open>Prefixes, suffixes, cuts\<close>

definition strings_HasPrefix :: "string \<Rightarrow> string \<Rightarrow> bool" where
  [go_lib]: "strings_HasPrefix s p = prefix p s"

definition strings_HasSuffix :: "string \<Rightarrow> string \<Rightarrow> bool" where
  [go_lib]: "strings_HasSuffix s p = suffix p s"

definition strings_TrimPrefix :: "string \<Rightarrow> string \<Rightarrow> string" where
  [go_lib]: "strings_TrimPrefix s p = (if prefix p s then drop (length p) s else s)"

definition strings_TrimSuffix :: "string \<Rightarrow> string \<Rightarrow> string" where
  [go_lib]: "strings_TrimSuffix s p = (if suffix p s then take (length s - length p) s else s)"

definition strings_CutPrefix :: "string \<Rightarrow> string \<Rightarrow> string option" where
  [go_lib]: "strings_CutPrefix s p = (if prefix p s then Some (drop (length p) s) else None)"

fun strings_Index :: "string \<Rightarrow> string \<Rightarrow> nat option" where
  "strings_Index [] sub = (if sub = [] then Some 0 else None)"
| "strings_Index (c # s) sub =
     (if prefix sub (c # s) then Some 0 else map_option Suc (strings_Index s sub))"

definition strings_Contains :: "string \<Rightarrow> string \<Rightarrow> bool" where
  "strings_Contains s sub = (strings_Index s sub \<noteq> None)"

definition strings_Cut :: "string \<Rightarrow> string \<Rightarrow> string \<times> string \<times> bool" where
  "strings_Cut s sep =
     (case strings_Index s sep of
        Some i \<Rightarrow> (take i s, drop (i + length sep) s, True)
      | None \<Rightarrow> (s, [], False))"

text \<open>\<open>IndexByte\<close> and \<open>LastIndexByte\<close>.\<close>

fun index_byte :: "string \<Rightarrow> char \<Rightarrow> nat option" where
  "index_byte [] b = None"
| "index_byte (c # s) b = (if c = b then Some 0 else map_option Suc (index_byte s b))"

fun last_index_byte :: "string \<Rightarrow> char \<Rightarrow> nat option" where
  "last_index_byte [] b = None"
| "last_index_byte (c # s) b =
     (case last_index_byte s b of
        Some i \<Rightarrow> Some (Suc i)
      | None \<Rightarrow> if c = b then Some 0 else None)"

section \<open>White space\<close>

text \<open>
  The encodings of the runes \<open>unicode.IsSpace\<close> accepts: tab, newline, vertical tab, form feed,
  carriage return, space, U+0085, U+00A0, U+1680, U+2000 to U+200A, U+2028, U+2029, U+202F,
  U+205F, U+3000. The first argument of \<open>strip_space\<close> is a string; it returns the string behind
  one leading space rune, if there is one.
\<close>

definition ascii_space :: "char \<Rightarrow> bool" where
  "ascii_space c \<longleftrightarrow>
     c = CHR 0x09 \<or> c = CHR 0x0A \<or> c = CHR 0x0B \<or> c = CHR 0x0C \<or> c = CHR 0x0D \<or> c = CHR 0x20"

definition space2 :: "char \<Rightarrow> char \<Rightarrow> bool" where
  "space2 a b \<longleftrightarrow> a = CHR 0xC2 \<and> (b = CHR 0x85 \<or> b = CHR 0xA0)"

definition space3 :: "char \<Rightarrow> char \<Rightarrow> char \<Rightarrow> bool" where
  "space3 a b c \<longleftrightarrow>
     (a = CHR 0xE1 \<and> b = CHR 0x9A \<and> c = CHR 0x80) \<or>
     (a = CHR 0xE2 \<and> b = CHR 0x80 \<and>
       (c \<in> {CHR 0x80, CHR 0x81, CHR 0x82, CHR 0x83, CHR 0x84, CHR 0x85, CHR 0x86, CHR 0x87,
              CHR 0x88, CHR 0x89, CHR 0x8A, CHR 0xA8, CHR 0xA9, CHR 0xAF})) \<or>
     (a = CHR 0xE2 \<and> b = CHR 0x81 \<and> c = CHR 0x9F) \<or>
     (a = CHR 0xE3 \<and> b = CHR 0x80 \<and> c = CHR 0x80)"

fun trim_left :: "string \<Rightarrow> string" where
  "trim_left [] = []"
| "trim_left (a # s) =
     (if ascii_space a then trim_left s
      else case s of
        [] \<Rightarrow> [a]
      | b # s' \<Rightarrow>
          if space2 a b then trim_left s'
          else case s' of
            [] \<Rightarrow> [a, b]
          | c # s'' \<Rightarrow> if space3 a b c then trim_left s'' else a # s)"

text \<open>The same from the end of the string, which is the front of the reversed one.\<close>

fun trim_left_rev :: "string \<Rightarrow> string" where
  "trim_left_rev [] = []"
| "trim_left_rev (a # s) =
     (if ascii_space a then trim_left_rev s
      else case s of
        [] \<Rightarrow> [a]
      | b # s' \<Rightarrow>
          if space2 b a then trim_left_rev s'
          else case s' of
            [] \<Rightarrow> [a, b]
          | c # s'' \<Rightarrow> if space3 c b a then trim_left_rev s'' else a # s)"

definition trim_right :: "string \<Rightarrow> string" where
  "trim_right s = rev (trim_left_rev (rev s))"

definition strings_TrimSpace :: "string \<Rightarrow> string" where
  "strings_TrimSpace s = trim_right (trim_left s)"

section \<open>Case\<close>

definition is_ascii :: "char \<Rightarrow> bool" where
  "is_ascii c \<longleftrightarrow> of_char c < (128 :: nat)"

text \<open>Bit 5 of a byte is what tells the cases of an ASCII letter apart.\<close>

fun lower_byte :: "char \<Rightarrow> char" where
  "lower_byte (Char b0 b1 b2 b3 b4 b5 b6 b7) =
     (let c = Char b0 b1 b2 b3 b4 b5 b6 b7 in
      if 65 \<le> (of_char c :: nat) \<and> of_char c \<le> (90 :: nat)
      then Char b0 b1 b2 b3 b4 True b6 b7 else c)"

fun upper_byte :: "char \<Rightarrow> char" where
  "upper_byte (Char b0 b1 b2 b3 b4 b5 b6 b7) =
     (let c = Char b0 b1 b2 b3 b4 b5 b6 b7 in
      if 97 \<le> (of_char c :: nat) \<and> of_char c \<le> (122 :: nat)
      then Char b0 b1 b2 b3 b4 False b6 b7 else c)"

definition strings_ToLower :: "(string \<Rightarrow> string) \<Rightarrow> string \<Rightarrow> string" where
  "strings_ToLower uni s = (if list_all is_ascii s then map lower_byte s else uni s)"

text \<open>
  \<open>strings.EqualFold\<close> against an ASCII word: simple folding identifies the cases of ASCII
  letters, the long s U+017F with s and the Kelvin sign U+212A with k, and nothing else with an
  ASCII letter.
\<close>

fun fold_bytes :: "string \<Rightarrow> string" where
  "fold_bytes [] = []"
| "fold_bytes (a # s) =
     (case s of
        [] \<Rightarrow> [lower_byte a]
      | b # s' \<Rightarrow>
          if a = CHR 0xC5 \<and> b = CHR 0xBF then CHR ''s'' # fold_bytes s'
          else case s' of
            [] \<Rightarrow> lower_byte a # fold_bytes s
          | c # s'' \<Rightarrow>
              if a = CHR 0xE2 \<and> b = CHR 0x84 \<and> c = CHR 0xAA then CHR ''k'' # fold_bytes s''
              else lower_byte a # fold_bytes s)"

definition strings_EqualFold_ascii :: "string \<Rightarrow> string \<Rightarrow> bool" where
  "strings_EqualFold_ascii s word = (fold_bytes s = map lower_byte word)"

section \<open>Facts\<close>

lemma strings_Index_Some:
  "strings_Index s sub = Some i \<Longrightarrow> s = take i s @ sub @ drop (i + length sub) s"
proof (induction s arbitrary: i)
  case Nil
  then show ?case by (simp split: if_splits)
next
  case (Cons c s)
  show ?case
  proof (cases "prefix sub (c # s)")
    case True
    with Cons.prems have "i = 0" by simp
    with True show ?thesis by (auto simp: prefix_def)
  next
    case False
    with Cons.prems obtain j where "strings_Index s sub = Some j" "i = Suc j" by auto
    with Cons.IH show ?thesis by simp
  qed
qed

lemma strings_Index_append:
  "prefix sub t \<Longrightarrow> \<exists>i. strings_Index (s @ t) sub = Some i \<and> i \<le> length s"
proof (induction s)
  case Nil
  then show ?case by (cases t) auto
next
  case (Cons c s)
  then show ?case by fastforce
qed

lemma strings_Contains_iff: "strings_Contains s sub \<longleftrightarrow> (\<exists>p q. s = p @ sub @ q)"
proof
  assume "strings_Contains s sub"
  then show "\<exists>p q. s = p @ sub @ q"
    by (auto simp: strings_Contains_def dest: strings_Index_Some)
next
  assume "\<exists>p q. s = p @ sub @ q"
  then obtain p q where s: "s = p @ (sub @ q)" by blast
  have "prefix sub (sub @ q)" by simp
  from strings_Index_append [OF this] s show "strings_Contains s sub"
    by (auto simp: strings_Contains_def)
qed

lemma strings_Cut_found:
  "strings_Cut s sep = (a, b, True) \<Longrightarrow> s = a @ sep @ b"
  by (auto simp: strings_Cut_def dest: strings_Index_Some split: option.splits)

lemma index_byte_None: "index_byte s b = None \<longleftrightarrow> b \<notin> set s"
  by (induction s) auto

lemma last_index_byte_None: "last_index_byte s b = None \<longleftrightarrow> b \<notin> set s"
  by (induction s) (auto split: option.splits)

lemma last_index_byte_append_notin:
  "b \<notin> set t \<Longrightarrow> last_index_byte (s @ b # t) b = Some (length s)"
proof (induction s)
  case Nil
  then show ?case by (simp add: last_index_byte_None [THEN iffD2])
next
  case (Cons c s)
  then show ?case by simp
qed

text \<open>A string without white space at its ends is its own trim.\<close>

definition plain_end :: "char \<Rightarrow> bool" where
  "plain_end c \<longleftrightarrow> \<not> ascii_space c \<and> is_ascii c"

lemma not_ascii_lead: "is_ascii a \<Longrightarrow> \<not> space2 a b" "is_ascii a \<Longrightarrow> \<not> space3 a b c"
  by (auto simp: is_ascii_def space2_def space3_def)

lemma not_ascii_last: "is_ascii b \<Longrightarrow> \<not> space2 a b" "is_ascii c \<Longrightarrow> \<not> space3 a b c"
  by (auto simp: is_ascii_def space2_def space3_def)

lemma trim_left_plain: "s = [] \<or> plain_end (hd s) \<Longrightarrow> trim_left s = s"
  by (cases s) (auto simp: plain_end_def not_ascii_lead split: list.splits)

lemma trim_left_rev_plain: "s = [] \<or> plain_end (hd s) \<Longrightarrow> trim_left_rev s = s"
  by (cases s) (auto simp: plain_end_def not_ascii_last split: list.splits)

lemma trim_right_plain: "s = [] \<or> plain_end (last s) \<Longrightarrow> trim_right s = s"
  by (simp add: trim_right_def trim_left_rev_plain hd_rev)

lemma TrimSpace_plain:
  "s = [] \<or> plain_end (hd s) \<and> plain_end (last s) \<Longrightarrow> strings_TrimSpace s = s"
  by (auto simp: strings_TrimSpace_def trim_left_plain trim_right_plain)

lemma TrimSpace_Nil [simp]: "strings_TrimSpace [] = []"
  by (simp add: TrimSpace_plain)

lemma TrimSpace_all_plain: "list_all plain_end s \<Longrightarrow> strings_TrimSpace s = s"
  by (rule TrimSpace_plain) (cases s, auto simp: list_all_iff)

text \<open>
  Trimming is idempotent: what is left neither starts nor ends with a space rune. A step of either
  loop drops one space rune or stops.
\<close>

definition space_start :: "string \<Rightarrow> bool" where
  "space_start s \<longleftrightarrow>
     (case s of [] \<Rightarrow> False
      | a # s \<Rightarrow> ascii_space a \<or>
          (case s of [] \<Rightarrow> False
           | b # s \<Rightarrow> space2 a b \<or> (case s of [] \<Rightarrow> False | c # s \<Rightarrow> space3 a b c)))"

lemma trim_left_stop: "\<not> space_start s \<Longrightarrow> trim_left s = s"
  by (cases s; cases "tl s"; cases "tl (tl s)") (simp_all add: space_start_def)

lemma space_startE:
  assumes "space_start s"
  obtains (one) a t where "s = a # t" "ascii_space a"
  | (two) a b t where "s = a # b # t" "\<not> ascii_space a" "space2 a b"
  | (three) a b c t where "s = a # b # c # t" "\<not> ascii_space a" "\<not> space2 a b" "space3 a b c"
  using assms unfolding space_start_def by (auto split: list.splits)

lemma trim_left_step:
  assumes "space_start s"
  obtains t where "length t < length s" and "trim_left s = trim_left t"
  using assms
proof (cases rule: space_startE)
  case (one a t) then show thesis by (intro that [of t]) simp_all
next
  case (two a b t) then show thesis by (intro that [of t]) simp_all
next
  case (three a b c t) then show thesis by (intro that [of t]) simp_all
qed

definition space_start_rev :: "string \<Rightarrow> bool" where
  "space_start_rev s \<longleftrightarrow>
     (case s of [] \<Rightarrow> False
      | a # s \<Rightarrow> ascii_space a \<or>
          (case s of [] \<Rightarrow> False
           | b # s \<Rightarrow> space2 b a \<or> (case s of [] \<Rightarrow> False | c # s \<Rightarrow> space3 c b a)))"

lemma trim_left_rev_stop: "\<not> space_start_rev s \<Longrightarrow> trim_left_rev s = s"
  by (cases s; cases "tl s"; cases "tl (tl s)") (simp_all add: space_start_rev_def)

lemma space_start_revE:
  assumes "space_start_rev s"
  obtains (one) a t where "s = a # t" "ascii_space a"
  | (two) a b t where "s = a # b # t" "\<not> ascii_space a" "space2 b a"
  | (three) a b c t where "s = a # b # c # t" "\<not> ascii_space a" "\<not> space2 b a" "space3 c b a"
  using assms unfolding space_start_rev_def by (auto split: list.splits)

lemma trim_left_rev_step:
  assumes "space_start_rev s"
  obtains t where "suffix t s" and "length t < length s" and "trim_left_rev s = trim_left_rev t"
  using assms
proof (cases rule: space_start_revE)
  case (one a t) then show thesis by (intro that [of t]) (simp_all add: suffix_ConsI)
next
  case (two a b t) then show thesis by (intro that [of t]) (simp_all add: suffix_ConsI)
next
  case (three a b c t) then show thesis by (intro that [of t]) (simp_all add: suffix_ConsI)
qed

lemma trim_left_end: "\<not> space_start (trim_left s)"
proof (induction s rule: measure_induct_rule [of length])
  case (less s)
  show ?case
  proof (cases "space_start s")
    case True
    then obtain t where "length t < length s" "trim_left s = trim_left t" by (rule trim_left_step)
    with less [of t] show ?thesis by simp
  qed (simp add: trim_left_stop)
qed

lemma trim_left_rev_end: "\<not> space_start_rev (trim_left_rev s) \<and> suffix (trim_left_rev s) s"
proof (induction s rule: measure_induct_rule [of length])
  case (less s)
  show ?case
  proof (cases "space_start_rev s")
    case True
    then obtain t where "suffix t s" "length t < length s" "trim_left_rev s = trim_left_rev t"
      by (rule trim_left_rev_step)
    with less [of t] show ?thesis by (auto intro: suffix_order.trans)
  qed (simp add: trim_left_rev_stop)
qed

lemma space_start_prefix: "prefix p s \<Longrightarrow> space_start p \<Longrightarrow> space_start s"
  by (cases p; cases "tl p"; cases "tl (tl p)") (auto simp: space_start_def prefix_def)

lemma TrimSpace_idem [simp]: "strings_TrimSpace (strings_TrimSpace s) = strings_TrimSpace s"
proof -
  let ?t = "trim_left s"
  have "prefix (trim_right ?t) ?t"
    using trim_left_rev_end [of "rev ?t"] by (simp add: trim_right_def suffix_to_prefix)
  with space_start_prefix trim_left_end [of s] have "trim_left (trim_right ?t) = trim_right ?t"
    by (blast intro: trim_left_stop)
  moreover have "trim_right (trim_right ?t) = trim_right ?t"
    using trim_left_rev_end [of "rev ?t"] by (simp add: trim_right_def trim_left_rev_stop)
  ultimately show ?thesis by (simp add: strings_TrimSpace_def)
qed

text \<open>Trimming keeps a string that starts with a plain byte non-empty.\<close>

lemma trim_left_rev_keeps: "plain_end c \<Longrightarrow> trim_left_rev (s @ [c]) \<noteq> []"
proof (induction s rule: measure_induct_rule [of length])
  case (less s)
  show ?case
  proof (cases "space_start_rev (s @ [c])")
    case True
    from this less.prems obtain t where "length t < length s" "trim_left_rev (s @ [c]) = trim_left_rev (t @ [c])"
    proof (cases rule: space_start_revE)
      case (one a t)
      with less.prems that [of "tl s"] show thesis by (cases s) (auto simp: plain_end_def)
    next
      case (two a b t)
      with less.prems that [of "tl (tl s)"] show thesis
        by (cases s; cases "tl s") (auto simp: plain_end_def not_ascii_lead)
    next
      case (three a b d t)
      with less.prems that [of "tl (tl (tl s))"] show thesis
        by (cases s; cases "tl s"; cases "tl (tl s)") (auto simp: plain_end_def not_ascii_lead)
    qed
    with less show ?thesis by auto
  qed (simp add: trim_left_rev_stop)
qed

lemma TrimSpace_keeps: "plain_end c \<Longrightarrow> strings_TrimSpace (c # s) \<noteq> []"
  using trim_left_rev_keeps [of c "rev s"] trim_left_plain [of "c # s"]
  by (simp add: strings_TrimSpace_def trim_right_def del: trim_left.simps)

end
