(* ===== verification/Go_Http.thy ===== *)
theory Go_Http
  imports Go_Strings
begin

text \<open>
  HTTP headers and requests as the bridge sees them. \<open>http.Header\<close> is a Go map from canonical
  keys to value lists; it is an association list here, whose order is the order in which a
  \<open>range\<close> over the map happens to visit it.
\<close>

section \<open>Canonical header keys\<close>

definition is_lower :: "char \<Rightarrow> bool" where
  "is_lower c \<longleftrightarrow> 97 \<le> (of_char c :: nat) \<and> of_char c \<le> (122 :: nat)"

definition is_upper :: "char \<Rightarrow> bool" where
  "is_upper c \<longleftrightarrow> 65 \<le> (of_char c :: nat) \<and> of_char c \<le> (90 :: nat)"

definition is_num :: "char \<Rightarrow> bool" where
  "is_num c \<longleftrightarrow> 48 \<le> (of_char c :: nat) \<and> of_char c \<le> (57 :: nat)"

text \<open>The token characters of RFC 7230 (\<open>validHeaderFieldByte\<close>).\<close>

definition token_byte :: "char \<Rightarrow> bool" where
  "token_byte c \<longleftrightarrow> is_lower c \<or> is_upper c \<or> is_num c \<or>
     c \<in> set ''!#$%&*+-.^_`|~'' \<or> c = CHR 0x27"

fun canon_bytes :: "bool \<Rightarrow> string \<Rightarrow> string" where
  "canon_bytes upper [] = []"
| "canon_bytes upper (c # s) =
     (let c' = (if upper then upper_byte c else lower_byte c) in
      c' # canon_bytes (c' = CHR ''-'') s)"

definition http_CanonicalHeaderKey :: "string \<Rightarrow> string" where
  "http_CanonicalHeaderKey s = (if list_all token_byte s then canon_bytes True s else s)"

text \<open>The canonical form is a fixed point.\<close>

lemma of_char_upper:
  "(of_char (upper_byte c) :: nat) = (if is_lower c then of_char c - 32 else of_char c)"
proof (cases c)
  case (Char b0 b1 b2 b3 b4 b5 b6 b7)
  show ?thesis unfolding Char is_lower_def
    by (cases b5; cases b6; cases b7; simp add: Let_def; cases b0; cases b1; simp; cases b2; cases b3;
        simp; cases b4; simp)
qed

lemma of_char_lower:
  "(of_char (lower_byte c) :: nat) = (if is_upper c then of_char c + 32 else of_char c)"
proof (cases c)
  case (Char b0 b1 b2 b3 b4 b5 b6 b7)
  show ?thesis unfolding Char is_upper_def
    by (cases b5; cases b6; cases b7; simp add: Let_def)
qed

lemma upper_byte_id: "\<not> is_lower c \<Longrightarrow> upper_byte c = c"
  and lower_byte_id: "\<not> is_upper c \<Longrightarrow> lower_byte c = c"
  by (cases c; simp only: is_lower_def is_upper_def upper_byte.simps lower_byte.simps Let_def if_False)+

lemma is_upper_upper: "is_lower c \<Longrightarrow> is_upper (upper_byte c)"
  and is_lower_lower: "is_upper c \<Longrightarrow> is_lower (lower_byte c)"
  by (auto simp: is_upper_def is_lower_def of_char_upper of_char_lower)

lemma not_both_cases: "is_lower c \<Longrightarrow> \<not> is_upper c"
  by (simp add: is_lower_def is_upper_def)

lemma upper_lower_idem [simp]:
  "upper_byte (upper_byte c) = upper_byte c" "lower_byte (lower_byte c) = lower_byte c"
  using is_upper_upper [of c] is_lower_lower [of c] not_both_cases upper_byte_id lower_byte_id by metis+

lemma token_cases [simp]: "token_byte (upper_byte c) = token_byte c" "token_byte (lower_byte c) = token_byte c"
  using is_upper_upper [of c] is_lower_lower [of c] upper_byte_id [of c] lower_byte_id [of c]
  by (metis token_byte_def)+

lemma canon_bytes_token: "list_all token_byte (canon_bytes u s) = list_all token_byte s"
  by (induction u s rule: canon_bytes.induct) (auto simp: Let_def)

lemma canon_bytes_idem: "canon_bytes u (canon_bytes u s) = canon_bytes u s"
  by (induction u s rule: canon_bytes.induct) (auto simp: Let_def)

lemma canonical_idem [simp]:
  "http_CanonicalHeaderKey (http_CanonicalHeaderKey k) = http_CanonicalHeaderKey k"
  by (simp add: http_CanonicalHeaderKey_def canon_bytes_token canon_bytes_idem)

section \<open>Headers\<close>

type_synonym header = "(string \<times> string list) list"

definition header_Get :: "header \<Rightarrow> string \<Rightarrow> string" where
  "header_Get h k =
     (case map_of h (http_CanonicalHeaderKey k) of Some (v # vs) \<Rightarrow> v | _ \<Rightarrow> [])"

definition header_Set :: "header \<Rightarrow> string \<Rightarrow> string \<Rightarrow> header" where
  "header_Set h k v = AList.update (http_CanonicalHeaderKey k) [v] h"

definition header_Add :: "header \<Rightarrow> string \<Rightarrow> string \<Rightarrow> header" where
  "header_Add h k v =
     AList.update (http_CanonicalHeaderKey k)
       (default_to [] (map_of h (http_CanonicalHeaderKey k)) @ [v]) h"

text \<open>A Go map has no duplicate keys.\<close>

definition header_ok :: "header \<Rightarrow> bool" where
  "header_ok h \<longleftrightarrow> distinct (map fst h)"

lemma header_ok_Nil [simp]: "header_ok []"
  by (simp add: header_ok_def)

lemma header_ok_Set [simp]: "header_ok h \<Longrightarrow> header_ok (header_Set h k v)"
  by (simp add: header_ok_def header_Set_def distinct_update)

lemma header_Get_Nil [simp]: "header_Get [] k = []"
  by (simp add: header_Get_def)

lemma header_Get_Set:
  "header_Get (header_Set h k v) k' =
     (if http_CanonicalHeaderKey k' = http_CanonicalHeaderKey k then v else header_Get h k')"
  by (simp add: header_Get_def header_Set_def update_conv')

section \<open>Requests\<close>

text \<open>
  The span context OpenTelemetry finds in a request's context: absent or invalid spans are
  \<open>None\<close>; a valid one has hexadecimal trace and span identifiers, a flags byte and a trace state.
\<close>

record span_context =
  sc_TraceID :: string
  sc_SpanID :: string
  sc_TraceFlags :: nat
  sc_TraceState :: string

record http_request =
  RemoteAddr :: string
  Header :: header
  Method :: string
  URLPath :: "string option"
  SpanContext :: "span_context option"

text \<open>A callback of the configuration is known by an identifier; a trace records its calls.\<close>

type_synonym hook = string

abbreviation get_request :: "string \<Rightarrow> header \<Rightarrow> http_request" where
  "get_request addr hdr \<equiv>
     \<lparr>RemoteAddr = addr, Header = hdr, Method = ''GET'', URLPath = Some ''/grpc'', SpanContext = None\<rparr>"

text \<open>Evaluation of header lookups on literals.\<close>

lemmas header_eval =
  header_Get_def http_CanonicalHeaderKey_def token_byte_def is_lower_def is_upper_def is_num_def
  Let_def

section \<open>Status codes\<close>

definition StatusForbidden :: int where "StatusForbidden = 403"
definition StatusTooManyRequests :: int where "StatusTooManyRequests = 429"
definition StatusInternalServerError :: int where "StatusInternalServerError = 500"
definition StatusBadGateway :: int where "StatusBadGateway = 502"

end
