(* ===== verification/Go_Net.thy ===== *)
theory Go_Net
  imports Go_Strings
begin

text \<open>
  The part of Go's \<open>net\<close> package the bridge uses: \<open>SplitHostPort\<close>, \<open>ParseIP\<close> (which is
  \<open>netip.ParseAddr\<close> refusing zones) and \<open>IP.IsLoopback\<close>.
\<close>

section \<open>SplitHostPort\<close>

datatype addr_error =
    MissingPort | TooManyColons | MissingCloseBracket | UnexpectedOpen | UnexpectedClose

definition net_SplitHostPort :: "string \<Rightarrow> addr_error + string \<times> string" where
  "net_SplitHostPort hostport =
     (case last_index_byte hostport (CHR '':'') of
        None \<Rightarrow> Inl MissingPort
      | Some i \<Rightarrow>
          (let finish = (\<lambda>host j k.
             if CHR ''['' \<in> set (drop j hostport) then Inl UnexpectedOpen
             else if CHR '']'' \<in> set (drop k hostport) then Inl UnexpectedClose
             else Inr (host, drop (Suc i) hostport))
           in
             if take 1 hostport = ''['' then
               (case index_byte hostport (CHR '']'') of
                  None \<Rightarrow> Inl MissingCloseBracket
                | Some e \<Rightarrow>
                    if Suc e = length hostport then Inl MissingPort
                    else if Suc e = i then finish (drop 1 (take e hostport)) 1 (Suc e)
                    else if hostport ! Suc e = CHR '':'' then Inl TooManyColons
                    else Inl MissingPort)
             else
               (let host = take i hostport in
                if CHR '':'' \<in> set host then Inl TooManyColons else finish host 0 0)))"

text \<open>A host without brackets or colons and a port without them split where expected.\<close>

definition net_plain :: "string \<Rightarrow> bool" where
  "net_plain s \<longleftrightarrow> CHR '':'' \<notin> set s \<and> CHR ''['' \<notin> set s \<and> CHR '']'' \<notin> set s"

lemma SplitHostPort_plain:
  assumes "net_plain h" and "net_plain p"
  shows "net_SplitHostPort (h @ '':'' @ p) = Inr (h, p)"
proof -
  have "last_index_byte (h @ CHR '':'' # p) (CHR '':'') = Some (length h)"
    using assms by (simp add: last_index_byte_append_notin net_plain_def)
  moreover have "take 1 (h @ CHR '':'' # p) \<noteq> ''[''"
    using assms by (cases h) (auto simp: net_plain_def)
  ultimately show ?thesis
    using assms by (simp add: net_SplitHostPort_def net_plain_def)
qed

lemma SplitHostPort_bracketed:
  assumes "CHR ''['' \<notin> set h" and "CHR '']'' \<notin> set h" and "net_plain p"
  shows "net_SplitHostPort (''['' @ h @ '']:'' @ p) = Inr (h, p)"
proof -
  let ?s = "CHR ''['' # h @ CHR '']'' # CHR '':'' # p"
  have "last_index_byte ((CHR ''['' # h @ [CHR '']'']) @ CHR '':'' # p) (CHR '':'')
        = Some (length (CHR ''['' # h @ [CHR '']'']))"
    by (rule last_index_byte_append_notin) (use assms in \<open>simp add: net_plain_def\<close>)
  then have last: "last_index_byte ?s (CHR '':'') = Some (Suc (Suc (length h)))" by simp
  have "index_byte (h @ CHR '']'' # q) (CHR '']'') = Some (length h)" for q
    using assms(2) by (induction h) auto
  then have ind: "index_byte ?s (CHR '']'') = Some (Suc (length h))" by simp
  show ?thesis
    using assms last ind by (simp add: net_SplitHostPort_def net_plain_def Let_def)
qed

section \<open>ParseIP\<close>

definition is_digit :: "char \<Rightarrow> bool" where
  "is_digit c \<longleftrightarrow> 48 \<le> (of_char c :: nat) \<and> of_char c \<le> (57 :: nat)"

definition digit_val :: "char \<Rightarrow> nat" where
  "digit_val c = of_char c - 48"

definition hex_val :: "char \<Rightarrow> nat option" where
  "hex_val c =
     (let n = (of_char c :: nat) in
      if 48 \<le> n \<and> n \<le> 57 then Some (n - 48)
      else if 97 \<le> n \<and> n \<le> 102 then Some (n - 87)
      else if 65 \<le> n \<and> n \<le> 70 then Some (n - 55)
      else None)"

text \<open>
  \<open>netip.parseIPv4Fields\<close>: \<open>prev_dot\<close> is true at the start and behind a dot, \<open>dig\<close> counts the
  digits of the current field, \<open>fs\<close> holds the fields already closed.
\<close>

fun parse_ipv4_fields :: "string \<Rightarrow> nat \<Rightarrow> nat \<Rightarrow> bool \<Rightarrow> nat list \<Rightarrow> nat list option" where
  "parse_ipv4_fields [] val dig prev_dot fs =
     (if length fs < 3 then None else Some (fs @ [val]))"
| "parse_ipv4_fields (c # s) val dig prev_dot fs =
     (if is_digit c then
        (if dig = 1 \<and> val = 0 then None
         else
           (let v = val * 10 + digit_val c in
            if v > 255 then None else parse_ipv4_fields s v (Suc dig) False fs))
      else if c = CHR ''.'' then
        (if prev_dot \<or> s = [] then None
         else if length fs = 3 then None
         else parse_ipv4_fields s 0 0 True (fs @ [val]))
      else None)"

text \<open>One hexadecimal group: the digits consumed, their value and the rest; at most four digits.\<close>

fun parse_hex_group :: "string \<Rightarrow> nat \<Rightarrow> nat \<Rightarrow> (nat \<times> nat \<times> string) option" where
  "parse_hex_group [] off acc = Some (off, acc, [])"
| "parse_hex_group (c # s) off acc =
     (case hex_val c of
        None \<Rightarrow> Some (off, acc, c # s)
      | Some d \<Rightarrow>
          if off > 3 then None
          else if acc * 16 + d > 65535 then None
          else parse_hex_group s (Suc off) (acc * 16 + d))"

text \<open>
  The loop of \<open>netip.parseIPv6\<close> over the groups: \<open>bs\<close> holds the bytes parsed so far, \<open>ell\<close> the
  position of the ellipsis. Each turn adds at least two bytes, so nine turns of fuel cover the
  loop's condition \<open>i < 16\<close>. The result is the rest, the bytes and the ellipsis.
\<close>

fun parse_ipv6_loop ::
    "nat \<Rightarrow> string \<Rightarrow> nat list \<Rightarrow> nat option \<Rightarrow> (string \<times> nat list \<times> nat option) option" where
  "parse_ipv6_loop 0 s bs ell = Some (s, bs, ell)"
| "parse_ipv6_loop (Suc fuel) s bs ell =
     (if length bs \<ge> 16 then Some (s, bs, ell)
      else case parse_hex_group s 0 0 of
        None \<Rightarrow> None
      | Some (off, acc, rest) \<Rightarrow>
          if off = 0 then None
          else if take 1 rest = ''.'' then
            (if ell = None \<and> length bs \<noteq> 12 then None
             else if length bs + 4 > 16 then None
             else case parse_ipv4_fields s 0 0 True [] of
               None \<Rightarrow> None
             | Some fs \<Rightarrow> Some ([], bs @ fs, ell))
          else
            (let bs' = bs @ [acc div 256, acc mod 256] in
             case rest of
               [] \<Rightarrow> Some ([], bs', ell)
             | c # rest' \<Rightarrow>
                 if c \<noteq> CHR '':'' \<or> rest' = [] then None
                 else if hd rest' = CHR '':'' then
                   (if ell \<noteq> None then None
                    else if tl rest' = [] then Some ([], bs', Some (length bs'))
                    else parse_ipv6_loop fuel (tl rest') bs' (Some (length bs')))
                 else parse_ipv6_loop fuel rest' bs' ell))"

lemma replicate_numeral_unfold [go_lib]:
  "replicate (numeral k) x = x # replicate (pred_numeral k) x"
  by (simp add: numeral_eq_Suc)

text \<open>The equation for a numeral of fuel, for evaluation by the simplifier.\<close>

lemma parse_ipv6_loop_numeral [go_lib]:
  "parse_ipv6_loop (numeral k) s bs ell =
     (if length bs \<ge> 16 then Some (s, bs, ell)
      else case parse_hex_group s 0 0 of
        None \<Rightarrow> None
      | Some (off, acc, rest) \<Rightarrow>
          if off = 0 then None
          else if take 1 rest = ''.'' then
            (if ell = None \<and> length bs \<noteq> 12 then None
             else if length bs + 4 > 16 then None
             else case parse_ipv4_fields s 0 0 True [] of
               None \<Rightarrow> None
             | Some fs \<Rightarrow> Some ([], bs @ fs, ell))
          else
            (let bs' = bs @ [acc div 256, acc mod 256] in
             case rest of
               [] \<Rightarrow> Some ([], bs', ell)
             | c # rest' \<Rightarrow>
                 if c \<noteq> CHR '':'' \<or> rest' = [] then None
                 else if hd rest' = CHR '':'' then
                   (if ell \<noteq> None then None
                    else if tl rest' = [] then Some ([], bs', Some (length bs'))
                    else parse_ipv6_loop (pred_numeral k) (tl rest') bs' (Some (length bs')))
                 else parse_ipv6_loop (pred_numeral k) rest' bs' ell))"
  by (simp only: numeral_eq_Suc parse_ipv6_loop.simps)

definition parse_ipv6 :: "string \<Rightarrow> nat list option" where
  "parse_ipv6 s =
     (let lead = take 2 s = ''::'' in
      if lead \<and> length s = 2 then Some (replicate 16 0)
      else case parse_ipv6_loop 9 (if lead then drop 2 s else s) [] (if lead then Some 0 else None) of
        None \<Rightarrow> None
      | Some (rest, bs, ell) \<Rightarrow>
          if rest \<noteq> [] then None
          else if length bs < 16 then
            (case ell of
               None \<Rightarrow> None
             | Some e \<Rightarrow> Some (take e bs @ replicate (16 - length bs) 0 @ drop e bs))
          else if ell \<noteq> None then None
          else Some bs)"

text \<open>
  \<open>ParseIP\<close>: the first dot, colon or percent sign decides which parser runs, an address with a
  zone is refused, an IPv4 address is held in its 16-byte form.
\<close>

fun first_separator :: "string \<Rightarrow> char option" where
  "first_separator [] = None"
| "first_separator (c # s) =
     (if c = CHR ''.'' \<or> c = CHR '':'' \<or> c = CHR 0x25 then Some c else first_separator s)"

definition v4_in_v6 :: "nat list" where
  "v4_in_v6 = [0, 0, 0, 0, 0, 0, 0, 0, 0, 0, 255, 255]"

definition net_ParseIP :: "string \<Rightarrow> nat list option" where
  "net_ParseIP s =
     (case first_separator s of
        None \<Rightarrow> None
      | Some c \<Rightarrow>
          if c = CHR ''.'' then map_option ((@) v4_in_v6) (parse_ipv4_fields s 0 0 True [])
          else if c = CHR '':'' then (if CHR 0x25 \<in> set s then None else parse_ipv6 s)
          else None)"

definition ip_IsLoopback :: "nat list \<Rightarrow> bool" where
  "ip_IsLoopback ip =
     (if take 12 ip = v4_in_v6 then ip ! 12 = 127 else ip = [0, 0, 0, 0, 0, 0, 0, 0, 0, 0, 0, 0, 0, 0, 0, 1])"

definition ip_IsUnspecified :: "nat list \<Rightarrow> bool" where
  "ip_IsUnspecified ip \<longleftrightarrow>
     ip = [0, 0, 0, 0, 0, 0, 0, 0, 0, 0, 0, 0, 0, 0, 0, 0] \<or> ip = v4_in_v6 @ [0, 0, 0, 0]"

lemma parse_ipv4_fields_length:
  "parse_ipv4_fields s v d pd fs = Some r \<Longrightarrow> length fs \<le> 3 \<Longrightarrow> length r = 4"
  by (induction s v d pd fs rule: parse_ipv4_fields.induct) (auto simp: Let_def split: if_splits)

end
