(* ===== verification/Guard_Interface.thy ===== *)
theory Guard_Interface
  imports Go_Http Go_Net
begin

text \<open>
  What the upgrade handlers of both packages rely on in an abuse guard, as a locale, and what
  follows from it: however the requests interleave, the counters of the guard are the number of
  admitted and unreleased requests, in total and per client, and the caps bound them. The two
  guards of the repository are interpreted in their own theories. The theory also holds the
  fixed-window rate limiter that both guards contain and the key under which a client is counted.
\<close>

section \<open>Refusals\<close>

text \<open>
  The errors a reservation can return. \<open>UpgradeRateExceeded\<close> is the \<open>abuseRefusal\<close> that carries
  its wait; the two cap errors are plain \<open>fmt.Errorf\<close> values.
\<close>

datatype guard_error =
    UpgradeRateExceeded (refused_key: string) (refusal_wait: duration)
  | ActiveCapExceeded
  | ClientCapExceeded string

definition rate_refused :: "guard_error option \<Rightarrow> bool" where
  "rate_refused e \<longleftrightarrow> (\<exists>k w. e = Some (UpgradeRateExceeded k w))"

lemma rate_refused_simps [simp]:
  "\<not> rate_refused None" "rate_refused (Some (UpgradeRateExceeded k w))"
  "\<not> rate_refused (Some ActiveCapExceeded)" "\<not> rate_refused (Some (ClientCapExceeded k))"
  by (simp_all add: rate_refused_def)

section \<open>The fixed window\<close>

record rate_window =
  getWindowStartedAt :: instant
  getWindowCount :: int

definition zero_window :: rate_window where
  "zero_window = \<lparr>getWindowStartedAt = 0, getWindowCount = 0\<rparr>"

definition bridgeAbuseWindowDuration :: duration where
  [simp]: "bridgeAbuseWindowDuration = minute"

text \<open>
  The rate limiting block of a reservation: a missing or expired window starts anew at \<open>now\<close>, a
  full one refuses with the time until it reopens, any other counts the attempt.
\<close>

definition fixed_window_admit ::
    "int \<Rightarrow> (string \<rightharpoonup> rate_window) \<Rightarrow> string \<Rightarrow> instant \<Rightarrow> guard_error + (string \<rightharpoonup> rate_window)" where
  "fixed_window_admit maxUpgrades attempts clientKey now =
     (let window = default_to zero_window (attempts clientKey);
          window =
            (if time_IsZero (getWindowStartedAt window) \<or>
                time_Sub now (getWindowStartedAt window) \<ge> bridgeAbuseWindowDuration
             then \<lparr>getWindowStartedAt = now, getWindowCount = 0\<rparr> else window)
      in if getWindowCount window \<ge> maxUpgrades
         then Inl (UpgradeRateExceeded clientKey
                (time_Sub (time_Add (getWindowStartedAt window) bridgeAbuseWindowDuration) now))
         else Inr (attempts(clientKey \<mapsto> window\<lparr>getWindowCount := getWindowCount window + 1\<rparr>)))"

text \<open>The window in force for a client at an instant: none if there is none or it has run out.\<close>

definition current_window :: "(string \<rightharpoonup> rate_window) \<Rightarrow> string \<Rightarrow> instant \<Rightarrow> rate_window option" where
  "current_window attempts k t =
     (case attempts k of
        None \<Rightarrow> None
      | Some w \<Rightarrow> if getWindowStartedAt w = 0 \<or> minute \<le> t - getWindowStartedAt w then None else Some w)"

lemma current_window_SomeD:
  "current_window att k t = Some w \<Longrightarrow>
     att k = Some w \<and> getWindowStartedAt w \<noteq> 0 \<and> t < getWindowStartedAt w + minute"
  by (auto simp: current_window_def split: option.splits if_splits)

lemma fixed_window_admit_current:
  assumes "0 < n"
  shows "fixed_window_admit n att k t =
     (case current_window att k t of
        None \<Rightarrow> Inr (att(k \<mapsto> \<lparr>getWindowStartedAt = t, getWindowCount = 1\<rparr>))
      | Some w \<Rightarrow>
          if n \<le> getWindowCount w
          then Inl (UpgradeRateExceeded k (time_Sub (getWindowStartedAt w + minute) t))
          else Inr (att(k \<mapsto> w\<lparr>getWindowCount := getWindowCount w + 1\<rparr>)))"
  using assms
  by (auto simp: fixed_window_admit_def current_window_def zero_window_def time_IsZero_def
      time_Add_def Let_def split: option.split)

section \<open>Client keys\<close>

text \<open>
  The host part of the remote address; an address that does not split stands for itself, and a
  request without one is counted under \<open>unknown\<close> by both operations of the guard.
\<close>

definition buildBridgeClientKey :: "http_request option \<Rightarrow> string" where
  "buildBridgeClientKey r =
     (case r of
        None \<Rightarrow> []
      | Some r \<Rightarrow>
          (let remoteAddress = strings_TrimSpace (RemoteAddr r) in
           if remoteAddress = [] then []
           else case net_SplitHostPort remoteAddress of
             Inr (host, port) \<Rightarrow> strings_TrimSpace host
           | Inl err \<Rightarrow> remoteAddress))"

definition slot_key :: "string \<Rightarrow> string" where
  "slot_key clientKey = (if clientKey = [] then ''unknown'' else clientKey)"

section \<open>Runs of a guard\<close>

text \<open>
  Handlers run concurrently; the guard's mutex makes every operation atomic, so an execution is a
  sequence of attempts and releases. \<open>attempt_log\<close> is what the attempts of a sequence returned.
\<close>

datatype guard_op =
    Attempt "http_request option" instant
  | Release "http_request option"

primrec attempt_log ::
    "('g \<Rightarrow> http_request option \<Rightarrow> instant \<Rightarrow> 'g \<times> guard_error option) \<Rightarrow>
     ('g \<Rightarrow> http_request option \<Rightarrow> 'g) \<Rightarrow> 'g \<Rightarrow> guard_op list \<Rightarrow>
     (http_request option \<times> instant \<times> guard_error option) list" where
  "attempt_log reserve release g [] = []"
| "attempt_log reserve release g (x # xs) =
     (case x of
        Attempt r t \<Rightarrow>
          (case reserve g r t of (g', e) \<Rightarrow> (r, t, e) # attempt_log reserve release g' xs)
      | Release r \<Rightarrow> attempt_log reserve release (release g r) xs)"

text \<open>The state after a sequence.\<close>

primrec guard_after ::
    "('g \<Rightarrow> http_request option \<Rightarrow> instant \<Rightarrow> 'g \<times> guard_error option) \<Rightarrow>
     ('g \<Rightarrow> http_request option \<Rightarrow> 'g) \<Rightarrow> 'g \<Rightarrow> guard_op list \<Rightarrow> 'g" where
  "guard_after reserve release g [] = g"
| "guard_after reserve release g (x # xs) =
     guard_after reserve release
       (case x of Attempt r t \<Rightarrow> fst (reserve g r t) | Release r \<Rightarrow> release g r) xs"

text \<open>A clock that does not run backwards, from an instant on.\<close>

fun clock_from :: "instant \<Rightarrow> guard_op list \<Rightarrow> bool" where
  "clock_from t0 [] = True"
| "clock_from t0 (Attempt r t # xs) = (t0 \<le> t \<and> clock_from t xs)"
| "clock_from t0 (Release r # xs) = clock_from t0 xs"

lemma clock_from_mono: "clock_from t xs \<Longrightarrow> t' \<le> t \<Longrightarrow> clock_from t' xs"
  by (induction xs arbitrary: t t' rule: clock_from.induct) auto

lemma clock_from_last: "clock_from s (ys @ [Attempt r t]) \<Longrightarrow> s \<le> t"
  by (induction s ys rule: clock_from.induct) auto

text \<open>
  The sessions of an execution: a step admits a request, refuses one, or ends one of the admitted
  ones. \<open>live\<close> is the list of requests that hold a slot.
\<close>

inductive session_run ::
    "('g \<Rightarrow> http_request option \<Rightarrow> instant \<Rightarrow> 'g \<times> guard_error option) \<Rightarrow>
     ('g \<Rightarrow> http_request option \<Rightarrow> 'g) \<Rightarrow> 'g \<Rightarrow> 'g \<Rightarrow> http_request option list \<Rightarrow> bool"
  for reserve release g0 where
  start: "session_run reserve release g0 g0 []"
| admit: "session_run reserve release g0 g live \<Longrightarrow> reserve g r t = (g', None) \<Longrightarrow>
     session_run reserve release g0 g' (r # live)"
| refuse: "session_run reserve release g0 g live \<Longrightarrow> reserve g r t = (g', Some e) \<Longrightarrow>
     session_run reserve release g0 g' live"
| finish: "session_run reserve release g0 g live \<Longrightarrow> r \<in> set live \<Longrightarrow>
     session_run reserve release g0 (release g r) (remove1 r live)"

lemma session_run_one:
  "reserve g0 r t = (g, None) \<Longrightarrow> session_run reserve release g0 g [r]"
  by (rule session_run.admit [OF session_run.start])

lemma session_run_finish_one:
  "session_run reserve release g0 g [r] \<Longrightarrow> session_run reserve release g0 (release g r) []"
  using session_run.finish [of reserve release g0 g "[r]" r] by simp

text \<open>The admitted sessions of one client.\<close>

definition sessions_of :: "string \<Rightarrow> http_request option list \<Rightarrow> int" where
  "sessions_of k live = int (length (filter (\<lambda>r. slot_key (buildBridgeClientKey r) = k) live))"

lemma sessions_of_Cons:
  "sessions_of k (r # live) = sessions_of k live + (if slot_key (buildBridgeClientKey r) = k then 1 else 0)"
  by (simp add: sessions_of_def)

lemma sessions_of_remove1:
  "r \<in> set live \<Longrightarrow>
   sessions_of k (remove1 r live) =
     sessions_of k live - (if slot_key (buildBridgeClientKey r) = k then 1 else 0)"
  by (induction live) (auto simp: sessions_of_Cons)

lemma sessions_of_remove1_le: "sessions_of k (remove1 r live) \<le> sessions_of k live"
  by (cases "r \<in> set live") (simp_all add: sessions_of_remove1 remove1_idem)

lemma length_remove1_le: "length (remove1 x xs) \<le> length xs"
  by (simp add: length_remove1)

lemma int_length_remove1: "x \<in> set xs \<Longrightarrow> int (length (remove1 x xs)) = int (length xs) - 1"
proof (induction xs)
  case (Cons a xs)
  then show ?case by (cases xs) auto
qed simp

lemma sessions_of_pos: "r \<in> set live \<Longrightarrow> 0 < sessions_of (slot_key (buildBridgeClientKey r)) live"
  by (auto simp: sessions_of_def filter_empty_conv)

section \<open>The interface\<close>

locale connection_guard =
  fixes reserve :: "'g \<Rightarrow> http_request option \<Rightarrow> instant \<Rightarrow> 'g \<times> guard_error option"
    and release :: "'g \<Rightarrow> http_request option \<Rightarrow> 'g"
    and present :: "'g \<Rightarrow> bool"
    and active :: "'g \<Rightarrow> int"
    and held :: "'g \<Rightarrow> string \<Rightarrow> int"
    and max_active :: "'g \<Rightarrow> int"
    and max_client :: "'g \<Rightarrow> int"
  assumes reserve_ok: "present g \<Longrightarrow> reserve g r t = (g', None) \<Longrightarrow>
      present g' \<and> active g' = active g + 1 \<and>
      held g' = (held g)(slot_key (buildBridgeClientKey r) := held g (slot_key (buildBridgeClientKey r)) + 1)"
    and reserve_refused: "present g \<Longrightarrow> reserve g r t = (g', Some e) \<Longrightarrow>
      present g' \<and> active g' = active g \<and> held g' = held g"
    and reserve_below_caps: "present g \<Longrightarrow> reserve g r t = (g', None) \<Longrightarrow>
      (0 < max_active g \<longrightarrow> active g < max_active g) \<and>
      (0 < max_client g \<longrightarrow> held g (slot_key (buildBridgeClientKey r)) < max_client g)"
    and reserve_caps: "present g \<Longrightarrow> reserve g r t = (g', res) \<Longrightarrow>
      max_active g' = max_active g \<and> max_client g' = max_client g"
    and release_held: "present g \<Longrightarrow> 0 < active g \<Longrightarrow> 0 < held g (slot_key (buildBridgeClientKey r)) \<Longrightarrow>
      present (release g r) \<and> active (release g r) = active g - 1 \<and>
      held (release g r) =
        (held g)(slot_key (buildBridgeClientKey r) := held g (slot_key (buildBridgeClientKey r)) - 1)"
    and release_caps: "present g \<Longrightarrow>
      max_active (release g r) = max_active g \<and> max_client (release g r) = max_client g"
begin

definition counted :: "'g \<Rightarrow> http_request option list \<Rightarrow> bool" where
  "counted g live \<longleftrightarrow>
     present g \<and> active g = int (length live) \<and> (\<forall>k. held g k = sessions_of k live)"

lemma counted_admit:
  "counted g live \<Longrightarrow> reserve g r t = (g', None) \<Longrightarrow> counted g' (r # live)"
  using reserve_ok [of g r t g'] by (auto simp: counted_def sessions_of_Cons)

lemma counted_refuse:
  "counted g live \<Longrightarrow> reserve g r t = (g', Some e) \<Longrightarrow> counted g' live"
  using reserve_refused [of g r t g' e] by (auto simp: counted_def)

lemma counted_finish:
  assumes "counted g live" and "r \<in> set live"
  shows "counted (release g r) (remove1 r live)"
proof -
  have "0 < int (length live)" using assms(2) by (cases live) auto
  then show ?thesis
    using assms release_held [of g r] sessions_of_pos [OF assms(2)]
    by (auto simp: counted_def sessions_of_remove1 int_length_remove1)
qed

definition within_caps :: "int \<Rightarrow> int \<Rightarrow> http_request option list \<Rightarrow> bool" where
  "within_caps cap_active cap_client live \<longleftrightarrow>
     (0 < cap_active \<longrightarrow> int (length live) \<le> cap_active) \<and>
     (0 < cap_client \<longrightarrow> (\<forall>k. sessions_of k live \<le> cap_client))"

lemma within_caps_remove1:
  assumes "within_caps a c live"
  shows "within_caps a c (remove1 r live)"
  using assms length_remove1_le [of r live] sessions_of_remove1_le [of _ r live]
  unfolding within_caps_def by (smt (verit) of_nat_le_iff)

lemma within_caps_admit:
  assumes "counted g live" and "reserve g r t = (g', None)"
    and "within_caps (max_active g) (max_client g) live"
  shows "within_caps (max_active g) (max_client g) (r # live)"
  using assms reserve_below_caps [of g r t g']
  by (auto simp: counted_def within_caps_def sessions_of_Cons)

lemma run_invariant:
  assumes "session_run reserve release g0 g live"
    and "present g0" and "active g0 = 0" and "\<And>k. held g0 k = 0"
  shows "counted g live \<and> max_active g = max_active g0 \<and> max_client g = max_client g0 \<and>
         within_caps (max_active g0) (max_client g0) live"
  using assms(1)
proof (induction rule: session_run.induct)
  case start
  then show ?case using assms(2-4) by (simp add: counted_def within_caps_def sessions_of_def)
next
  case (admit g live r t g')
  then have "present g" by (simp add: counted_def)
  with admit show ?case
    using reserve_caps [of g r t g' None] counted_admit [of g live r t g']
      within_caps_admit [of g live r t g'] by simp
next
  case (refuse g live r t g' e)
  then have "present g" by (simp add: counted_def)
  with refuse show ?case
    using reserve_caps [of g r t g' "Some e"] counted_refuse [of g live r t g' e] by simp
next
  case (finish g live r)
  then have "present g" by (simp add: counted_def)
  with finish show ?case
    using release_caps [of g r] counted_finish [of g live r] within_caps_remove1 by simp
qed

lemma run_counts:
  assumes "session_run reserve release g0 g live"
    and "present g0" and "active g0 = 0" and "\<And>k. held g0 k = 0"
  shows "active g = int (length live)" and "held g k = sessions_of k live"
    and "0 < max_active g0 \<Longrightarrow> int (length live) \<le> max_active g0"
    and "0 < max_client g0 \<Longrightarrow> sessions_of k live \<le> max_client g0"
  using run_invariant [OF assms] by (auto simp: counted_def within_caps_def)

lemma run_drained:
  assumes "session_run reserve release g0 g []"
    and "present g0" and "active g0 = 0" and "\<And>k. held g0 k = 0"
  shows "active g = 0 \<and> (\<forall>k. held g k = 0)"
  using run_counts [OF assms] by (simp add: sessions_of_def)

end

section \<open>Rate limiting\<close>

text \<open>
  A window as seen at an instant, and the second interface of a guard: what an attempt does to the
  windows. \<open>window g k t\<close> is the window in force for client \<open>k\<close> at \<open>t\<close>, which may hide how a
  guard stores windows that have run out.
\<close>

definition running :: "rate_window \<Rightarrow> instant \<Rightarrow> rate_window option" where
  "running w t =
     (if getWindowStartedAt w = 0 \<or> minute \<le> t - getWindowStartedAt w then None else Some w)"

lemma running_SomeD:
  "running w t = Some v \<Longrightarrow> v = w \<and> getWindowStartedAt w \<noteq> 0 \<and> t < getWindowStartedAt w + minute"
  by (auto simp: running_def split: if_splits)

definition limiter_step ::
    "int \<Rightarrow> string \<Rightarrow> instant \<Rightarrow> rate_window option \<Rightarrow> guard_error option \<Rightarrow> (instant \<Rightarrow> rate_window option) \<Rightarrow> bool"
where
  "limiter_step n k t w e after \<longleftrightarrow>
     (case w of
        None \<Rightarrow> \<not> rate_refused e \<and>
          (\<forall>t' \<ge> t. after t' = running \<lparr>getWindowStartedAt = t, getWindowCount = 1\<rparr> t')
      | Some w \<Rightarrow>
          if n \<le> getWindowCount w
          then e = Some (UpgradeRateExceeded k (time_Sub (getWindowStartedAt w + minute) t)) \<and>
               (\<forall>t' \<ge> t. after t' = running w t')
          else \<not> rate_refused e \<and>
               (\<forall>t' \<ge> t. after t' = running (w\<lparr>getWindowCount := getWindowCount w + 1\<rparr>) t'))"

text \<open>
  The admissions of a client within one minute from \<open>a\<close> on, and what a state still allows: the
  budget of the potential argument that bounds them.
\<close>

definition admitted_in ::
    "string \<Rightarrow> instant \<Rightarrow> (http_request option \<times> instant \<times> guard_error option) list \<Rightarrow> int" where
  "admitted_in k a log =
     int (length (filter (\<lambda>(r, t, e). slot_key (buildBridgeClientKey r) = k \<and>
        a \<le> t \<and> t < a + minute \<and> \<not> rate_refused e) log))"

definition budget :: "instant \<Rightarrow> int \<Rightarrow> instant \<Rightarrow> rate_window option \<Rightarrow> int" where
  "budget a n t w =
     (case w of
        None \<Rightarrow> if a \<le> t then n else 2 * n - 1
      | Some w \<Rightarrow>
          if a \<le> getWindowStartedAt w then n - getWindowCount w
          else if a < getWindowStartedAt w + minute then 2 * n - getWindowCount w
          else 2 * n - 1)"

lemma admitted_in_Nil [simp]: "admitted_in k a [] = 0"
  by (simp add: admitted_in_def)

lemma admitted_in_Cons:
  "admitted_in k a ((r, t, e) # log) =
     (if slot_key (buildBridgeClientKey r) = k \<and> a \<le> t \<and> t < a + minute \<and> \<not> rate_refused e then 1 else 0)
     + admitted_in k a log"
  by (simp add: admitted_in_def)

lemma admitted_in_late:
  "clock_from t ops \<Longrightarrow> a + minute \<le> t \<Longrightarrow> admitted_in k a (attempt_log reserve release g ops) = 0"
proof (induction ops arbitrary: g t)
  case (Cons x ops)
  then show ?case
    by (cases x) (auto simp: admitted_in_Cons split: prod.split dest: clock_from_mono)
qed simp

lemma budget_running:
  assumes "T \<le> t" and "t < a + minute" and "getWindowCount w \<le> n" and "0 < n"
    and "running w T = Some w"
  shows "budget a n t (running w t) \<le> budget a n T (Some w)"
  using assms by (auto simp: budget_def running_def split: if_splits)

lemma limiter_step_budget:
  assumes step: "limiter_step n k t w e after" and "0 < t" and "t < a + minute" and "0 < n"
    and run: "\<And>v. w = Some v \<Longrightarrow> running v t = Some v \<and> getWindowCount v \<le> n"
  shows "(if a \<le> t \<and> \<not> rate_refused e then 1 else 0) + budget a n t (after t) \<le> budget a n t w"
proof (cases w)
  case None
  with step assms(2) have "after t = Some \<lparr>getWindowStartedAt = t, getWindowCount = 1\<rparr>"
    by (simp add: limiter_step_def running_def)
  with None assms(4) show ?thesis by (auto simp: budget_def)
next
  case (Some v)
  then have v: "running v t = Some v" "getWindowCount v \<le> n" using run by auto
  then have late: "t < getWindowStartedAt v + minute" by (auto dest: running_SomeD)
  show ?thesis
  proof (cases "n \<le> getWindowCount v")
    case True
    with step Some v show ?thesis by (simp add: limiter_step_def)
  next
    case False
    with step Some v have "after t = Some (v\<lparr>getWindowCount := getWindowCount v + 1\<rparr>)"
      by (auto simp: limiter_step_def running_def split: if_splits)
    with Some late show ?thesis by (auto simp: budget_def)
  qed
qed

locale rate_limited_guard =
  fixes reserve :: "'g \<Rightarrow> http_request option \<Rightarrow> instant \<Rightarrow> 'g \<times> guard_error option"
    and release :: "'g \<Rightarrow> http_request option \<Rightarrow> 'g"
    and present :: "'g \<Rightarrow> bool"
    and window :: "'g \<Rightarrow> string \<Rightarrow> instant \<Rightarrow> rate_window option"
    and limit :: "'g \<Rightarrow> int"
  assumes reserve_window:
      "present g \<Longrightarrow> 0 < limit g \<Longrightarrow> reserve g r t = (g', res) \<Longrightarrow>
       present g' \<and> limit g' = limit g \<and>
       limiter_step (limit g) (slot_key (buildBridgeClientKey r)) t
         (window g (slot_key (buildBridgeClientKey r)) t) res
         (window g' (slot_key (buildBridgeClientKey r)))"
    and reserve_window_other:
      "present g \<Longrightarrow> 0 < limit g \<Longrightarrow> reserve g r t = (g', res) \<Longrightarrow>
       k \<noteq> slot_key (buildBridgeClientKey r) \<Longrightarrow> t \<le> t' \<Longrightarrow> window g' k t' = window g k t'"
    and release_window:
      "present g \<Longrightarrow> present (release g r) \<and> limit (release g r) = limit g \<and>
       window (release g r) = window g"
    and window_running:
      "T \<le> t \<Longrightarrow> window g k t = (case window g k T of None \<Rightarrow> None | Some w \<Rightarrow> running w t)"
begin

definition limiter_ok :: "'g \<Rightarrow> instant \<Rightarrow> bool" where
  "limiter_ok g T \<longleftrightarrow> present g \<and> 0 < limit g \<and> 0 < T \<and>
     (\<forall>k w. window g k T = Some w \<longrightarrow>
        running w T = Some w \<and> getWindowCount w \<le> limit g \<and> getWindowStartedAt w \<le> T)"

lemma limiter_okD:
  assumes "limiter_ok g T"
  shows "present g" "0 < limit g" "0 < T"
    and "window g k T = Some w \<Longrightarrow>
      running w T = Some w \<and> getWindowCount w \<le> limit g \<and> getWindowStartedAt w \<le> T"
  using assms by (auto simp: limiter_ok_def)

lemma limiter_ok_later:
  assumes "limiter_ok g T" and "T \<le> t"
  shows "limiter_ok g t"
proof -
  { fix k w assume "window g k t = Some w"
    with assms(2) obtain v where v: "window g k T = Some v" "running v t = Some w"
      by (auto simp: window_running [OF assms(2)] split: option.splits)
    then have "v = w" by (auto dest: running_SomeD)
    with v assms limiter_okD(4) [OF assms(1), of k v]
    have "running w t = Some w \<and> getWindowCount w \<le> limit g \<and> getWindowStartedAt w \<le> t" by auto }
  with assms show ?thesis by (auto simp: limiter_ok_def)
qed

lemma limiter_ok_reserve:
  assumes ok: "limiter_ok g t" and res: "reserve g r t = (g', e)"
  shows "limiter_ok g' t"
proof -
  let ?k = "slot_key (buildBridgeClientKey r)"
  note step = reserve_window [OF limiter_okD(1,2) [OF ok] res]
  { fix k w assume w: "window g' k t = Some w"
    have "running w t = Some w \<and> getWindowCount w \<le> limit g \<and> getWindowStartedAt w \<le> t"
    proof (cases "k = ?k")
      case False
      with w have "window g k t = Some w"
        using reserve_window_other [OF limiter_okD(1,2) [OF ok] res] by simp
      with ok show ?thesis by (rule limiter_okD)
    next
      case True
      with w step limiter_okD(2,3) [OF ok] limiter_okD(4) [OF ok, of k] show ?thesis
        by (auto simp: limiter_step_def running_def split: option.splits if_splits)
    qed }
  with step ok show ?thesis by (auto simp: limiter_ok_def)
qed

lemma limiter_ok_release: "limiter_ok g t \<Longrightarrow> limiter_ok (release g r) t"
  using release_window [of g r] by (auto simp: limiter_ok_def)

lemma admitted_budget:
  "limiter_ok g T \<Longrightarrow> clock_from T ops \<Longrightarrow>
   admitted_in k a (attempt_log reserve release g ops) \<le> budget a (limit g) T (window g k T)"
proof (induction ops arbitrary: g T)
  case Nil
  then show ?case
    using limiter_okD(2) [OF Nil.prems(1)] limiter_okD(4) [OF Nil.prems(1), of k]
    by (auto simp: budget_def split: option.split)
next
  case (Cons x ops)
  show ?case
  proof (cases x)
    case (Release r)
    with Cons.prems Cons.IH [of "release g r" T] release_window [of g r] limiter_okD(1)
    show ?thesis by (auto intro: limiter_ok_release)
  next
    case (Attempt r t)
    obtain g' e where res: "reserve g r t = (g', e)" by fastforce
    from Attempt Cons.prems have Tt: "T \<le> t" and clk: "clock_from t ops" by auto
    note ok = limiter_ok_later [OF Cons.prems(1) Tt]
    note step = reserve_window [OF limiter_okD(1,2) [OF ok] res]
    note IH = Cons.IH [OF limiter_ok_reserve [OF ok res] clk]
    have nonneg: "0 \<le> budget a (limit g) T (window g k T)"
      using limiter_okD(2) [OF ok] limiter_okD(4) [OF Cons.prems(1), of k]
      by (auto simp: budget_def split: option.split)
    show ?thesis
    proof (cases "a + minute \<le> t")
      case True
      with clk nonneg Attempt res show ?thesis
        by (simp add: admitted_in_Cons admitted_in_late)
    next
      case False
      then have lt: "t < a + minute" by simp
      have mono: "budget a (limit g) t (window g k t) \<le> budget a (limit g) T (window g k T)"
      proof (cases "window g k T")
        case None
        then show ?thesis using Tt limiter_okD(2) [OF ok]
          by (simp add: window_running [OF Tt] budget_def)
      next
        case (Some w)
        with Tt lt limiter_okD(4) [OF Cons.prems(1) Some] limiter_okD(2) [OF ok]
        show ?thesis by (simp add: window_running [OF Tt] budget_running)
      qed
      have "(if slot_key (buildBridgeClientKey r) = k \<and> a \<le> t \<and> \<not> rate_refused e then 1 else 0)
            + budget a (limit g) t (window g' k t) \<le> budget a (limit g) t (window g k t)"
      proof (cases "slot_key (buildBridgeClientKey r) = k")
        case True
        with step limiter_step_budget [of "limit g" k t "window g k t" e "window g' k" a] lt
          limiter_okD(2,3) [OF ok] limiter_okD(4) [OF ok, of k]
        show ?thesis by auto
      next
        case False
        then show ?thesis
          using reserve_window_other [OF limiter_okD(1,2) [OF ok] res, of k t] by simp
      qed
      with IH mono step lt Attempt res show ?thesis by (simp add: admitted_in_Cons)
    qed
  qed
qed

lemma admissions_per_minute:
  assumes "present g" and "0 < limit g" and "0 < T" and "\<And>k. window g k T = None"
    and "clock_from T ops"
  shows "admitted_in k a (attempt_log reserve release g ops) \<le> 2 * limit g - 1"
  using admitted_budget [of g T ops k a] assms by (auto simp: limiter_ok_def budget_def split: if_splits)

lemma limiter_ok_run:
  "limiter_ok g T \<Longrightarrow> clock_from T (ops @ [Attempt r t]) \<Longrightarrow>
   limiter_ok (guard_after reserve release g ops) t \<and>
   limit (guard_after reserve release g ops) = limit g"
proof (induction ops arbitrary: g T)
  case Nil
  then show ?case by (auto intro: limiter_ok_later)
next
  case (Cons x ops)
  show ?case
  proof (cases x)
    case (Release r)
    with Cons.prems Cons.IH [of "release g r" T] release_window [of g r] limiter_okD(1)
    show ?thesis by (auto intro: limiter_ok_release)
  next
    case (Attempt r' t')
    obtain g' e where res: "reserve g r' t' = (g', e)" by fastforce
    from Attempt Cons.prems have "limiter_ok g t'" by (auto intro: limiter_ok_later)
    from limiter_ok_reserve [OF this res] reserve_window [OF limiter_okD(1,2) [OF this] res]
      Attempt Cons.prems Cons.IH [of g' t'] res
    show ?thesis by simp
  qed
qed

lemma window_after_others:
  "limiter_ok g T \<Longrightarrow> clock_from T (ops @ [Attempt r t]) \<Longrightarrow>
   (\<And>r' t'. Attempt r' t' \<in> set ops \<Longrightarrow> slot_key (buildBridgeClientKey r') \<noteq> k) \<Longrightarrow>
   window (guard_after reserve release g ops) k t = window g k t"
proof (induction ops arbitrary: g T)
  case Nil
  then show ?case by simp
next
  case (Cons x ops)
  show ?case
  proof (cases x)
    case (Release r)
    with Cons.prems Cons.IH [of "release g r" T] release_window [of g r] limiter_okD(1)
    show ?thesis by (auto intro: limiter_ok_release)
  next
    case (Attempt r' t')
    obtain g' e where res: "reserve g r' t' = (g', e)" by fastforce
    from Attempt Cons.prems have ok: "limiter_ok g t'" by (auto intro: limiter_ok_later)
    have "t' \<le> t" using Cons.prems(2) Attempt by (auto dest: clock_from_last)
    moreover from Cons.prems(3) Attempt have "k \<noteq> slot_key (buildBridgeClientKey r')" by auto
    ultimately have "window g' k t = window g k t"
      using reserve_window_other [OF limiter_okD(1,2) [OF ok] res] by simp
    with Cons.prems Attempt res Cons.IH [OF limiter_ok_reserve [OF ok res]] show ?thesis by auto
  qed
qed

lemma refusal_wait_exact:
  assumes ok: "limiter_ok g t" and res: "reserve g r t = (g', Some (UpgradeRateExceeded k w))"
    and clk: "clock_from t (ops @ [Attempt r' t'])"
    and same: "slot_key (buildBridgeClientKey r') = slot_key (buildBridgeClientKey r)"
    and others: "\<And>r'' t''. Attempt r'' t'' \<in> set ops \<Longrightarrow>
      slot_key (buildBridgeClientKey r'') \<noteq> slot_key (buildBridgeClientKey r)"
  shows "0 < w \<and> w \<le> minute \<and>
    (rate_refused (snd (reserve (guard_after reserve release g' ops) r' t')) \<longleftrightarrow> t' < t + w)"
proof -
  let ?k = "slot_key (buildBridgeClientKey r)" and ?h = "guard_after reserve release g' ops"
  note step = reserve_window [OF limiter_okD(1,2) [OF ok] res]
  then obtain v where v: "window g ?k t = Some v" "limit g \<le> getWindowCount v"
    and w: "w = time_Sub (getWindowStartedAt v + minute) t"
    and after: "\<And>t'. t \<le> t' \<Longrightarrow> window g' ?k t' = running v t'"
    by (auto simp: limiter_step_def rate_refused_def split: option.splits if_splits)
  from limiter_okD(4) [OF ok v(1)] have run: "running v t = Some v" and "getWindowStartedAt v \<le> t"
    by auto
  then have t: "t < getWindowStartedAt v + minute" "getWindowStartedAt v \<noteq> 0"
    by (auto dest: running_SomeD)
  then have w': "w = getWindowStartedAt v + minute - t"
    using \<open>getWindowStartedAt v \<le> t\<close> w minute_le_max_duration
    by (simp add: time_Sub_def min_duration_def)
  note ok' = limiter_ok_reserve [OF ok res]
  from clk have tt': "t \<le> t'" by (rule clock_from_last)
  have "window ?h ?k t' = running v t'"
    using window_after_others [OF ok' clk others] after [OF tt'] by simp
  moreover obtain h' e where "reserve ?h r' t' = (h', e)" by fastforce
  moreover note limiter_ok_run [OF ok' clk]
  ultimately have "rate_refused (snd (reserve ?h r' t')) \<longleftrightarrow> t' < t + w"
    using reserve_window [of ?h r' t' h' e] limiter_okD(1,2) [of ?h t'] v(2) same t w' step
    by (auto simp: limiter_step_def running_def rate_refused_def split: if_splits)
  with w' t \<open>getWindowStartedAt v \<le> t\<close> show ?thesis by simp
qed

end

end
