(* ===== verification/Handler_Trace.thy ===== *)
theory Handler_Trace
  imports Guard_Interface "HOL-Library.Multiset"
begin

text \<open>
  The effects of an upgrade handler as a sequence of events, and the interface under which many
  handlers share one abuse guard: if every handler's events follow the slot protocol, then in any
  interleaving of any number of handlers the guard's caps bound the sessions between their
  reservation and their release.
\<close>

section \<open>Events\<close>

text \<open>
  One constructor per effect of the two handlers, in the order in which they occur there. The level
  and name of a log line stand for the line; \<open>Panicked\<close> marks the point where a callback or the
  HTTP/2 server panics.
\<close>

datatype h_event =
    RequestSpanStart | RequestSpanEnd
  | AuthorizeCalled
  | MetricFailure | MetricSuccess | MetricDelta int
  | LogEvent string string
  | ReserveSlot "guard_error option" | ReleaseSlot
  | ResponseHeader header | WriteStatus int
  | UpgradeTried bool
  | SessionSpanStart | SessionSpanEnd
  | WsClose
  | SettingsApplied bool | StopKeepaliveCalled
  | OnConnectCalled hook | OnDisconnectCalled hook
  | ConnClose
  | LifetimeTimerStart duration | LifetimeTimerStop
  | Delivered bool | SessionAwaited
  | ServedConn header
  | Panicked

section \<open>The slot protocol\<close>

fun slot_event :: "h_event \<Rightarrow> bool" where
  "slot_event (ReserveSlot e) = True"
| "slot_event ReleaseSlot = True"
| "slot_event _ = False"

definition slot_events :: "h_event list \<Rightarrow> h_event list" where
  "slot_events tr = filter slot_event tr"

lemma slot_events_simps [simp]:
  "slot_events [] = []"
  "slot_events (e # tr) = (if slot_event e then e # slot_events tr else slot_events tr)"
  "slot_events (tr @ tr') = slot_events tr @ slot_events tr'"
  "slot_events (deferring d tr) = slot_events tr @ slot_events d"
  by (simp_all add: slot_events_def)

definition slot_protocol :: "h_event list \<Rightarrow> bool" where
  "slot_protocol tr \<longleftrightarrow>
     slot_events tr = [] \<or> (\<exists>e. slot_events tr = [ReserveSlot (Some e)]) \<or>
     slot_events tr = [ReserveSlot None, ReleaseSlot]"

text \<open>Whether a handler that has performed these events holds a slot.\<close>

definition holds_slot :: "h_event list \<Rightarrow> bool" where
  "holds_slot tr \<longleftrightarrow> slot_events tr = [ReserveSlot None]"

lemma prefix_slot_events: "prefix p tr \<Longrightarrow> prefix (slot_events p) (slot_events tr)"
  by (auto simp: prefix_def)

lemma protocol_reserve:
  assumes "slot_protocol tr" and "prefix (p @ [ReserveSlot e]) tr"
  shows "slot_events p = []"
proof -
  from prefix_slot_events [OF assms(2)] have "prefix (slot_events p @ [ReserveSlot e]) (slot_events tr)"
    by simp
  with assms(1) show ?thesis
    by (cases "slot_events p") (auto simp: slot_protocol_def prefix_def Cons_eq_append_conv)
qed

lemma protocol_release:
  assumes "slot_protocol tr" and "prefix (p @ [ReleaseSlot]) tr"
  shows "slot_events p = [ReserveSlot None]"
proof -
  from prefix_slot_events [OF assms(2)] have "prefix (slot_events p @ [ReleaseSlot]) (slot_events tr)"
    by simp
  with assms(1) show ?thesis
    by (cases "slot_events p") (auto simp: slot_protocol_def prefix_def Cons_eq_append_conv)
qed

section \<open>Concurrent handlers\<close>

text \<open>
  An execution of a server: the log holds the events of all handlers in the order in which they
  happened, tagged with the handler. At each step one handler performs the next event of one of its
  possible traces; the guard's mutex makes its operations atomic.
\<close>

definition events_of :: "nat \<Rightarrow> (nat \<times> h_event) list \<Rightarrow> h_event list" where
  "events_of i log = map snd (filter (\<lambda>(j, e). j = i) log)"

inductive guard_effect ::
    "('g \<Rightarrow> http_request option \<Rightarrow> instant \<Rightarrow> 'g \<times> guard_error option) \<Rightarrow>
     ('g \<Rightarrow> http_request option \<Rightarrow> 'g) \<Rightarrow> http_request option \<Rightarrow> h_event \<Rightarrow> 'g \<Rightarrow> 'g \<Rightarrow> bool"
  for reserve release r where
  effect_reserve: "reserve g r t = (g', e) \<Longrightarrow> guard_effect reserve release r (ReserveSlot e) g g'"
| effect_release: "guard_effect reserve release r ReleaseSlot g (release g r)"
| effect_none: "\<not> slot_event e \<Longrightarrow> guard_effect reserve release r e g g"

inductive handlers_run ::
    "('g \<Rightarrow> http_request option \<Rightarrow> instant \<Rightarrow> 'g \<times> guard_error option) \<Rightarrow>
     ('g \<Rightarrow> http_request option \<Rightarrow> 'g) \<Rightarrow> (http_request option \<Rightarrow> 'env \<Rightarrow> h_event list) \<Rightarrow>
     (nat \<Rightarrow> http_request option) \<Rightarrow> 'g \<Rightarrow> 'g \<Rightarrow> (nat \<times> h_event) list \<Rightarrow> bool"
  for reserve release trace req g0 where
  run_start: "handlers_run reserve release trace req g0 g0 []"
| run_step: "handlers_run reserve release trace req g0 g log \<Longrightarrow>
     prefix (events_of i log @ [e]) (trace (req i) env) \<Longrightarrow>
     guard_effect reserve release (req i) e g g' \<Longrightarrow>
     handlers_run reserve release trace req g0 g' (log @ [(i, e)])"

text \<open>The handlers that hold a slot, in the order of their reservations.\<close>

fun slot_holders :: "(nat \<times> h_event) list \<Rightarrow> nat list \<Rightarrow> nat list" where
  "slot_holders [] ids = ids"
| "slot_holders ((i, e) # log) ids =
     slot_holders log
       (if e = ReserveSlot None then i # ids else if e = ReleaseSlot then remove1 i ids else ids)"

lemma slot_holders_snoc:
  "slot_holders (log @ [(i, e)]) ids =
     (if e = ReserveSlot None then i # slot_holders log ids
      else if e = ReleaseSlot then remove1 i (slot_holders log ids) else slot_holders log ids)"
  by (induction log ids rule: slot_holders.induct) auto

lemma events_of_snoc [simp]:
  "events_of i (log @ [(j, e)]) = (if j = i then events_of i log @ [e] else events_of i log)"
  by (simp add: events_of_def)

lemma mset_map_remove1: "i \<in> set ids \<Longrightarrow> mset (map f (remove1 i ids)) = mset (map f ids) - {#f i#}"
  by (simp add: image_mset_Diff)

lemma sessions_of_mset: "mset xs = mset ys \<Longrightarrow> sessions_of k xs = sessions_of k ys"
  unfolding sessions_of_def by (metis mset_filter size_mset)

locale concurrent_handlers =
  connection_guard reserve release present active held max_active max_client
  for reserve :: "'g \<Rightarrow> http_request option \<Rightarrow> instant \<Rightarrow> 'g \<times> guard_error option"
    and release :: "'g \<Rightarrow> http_request option \<Rightarrow> 'g"
    and present :: "'g \<Rightarrow> bool"
    and active :: "'g \<Rightarrow> int"
    and held :: "'g \<Rightarrow> string \<Rightarrow> int"
    and max_active :: "'g \<Rightarrow> int"
    and max_client :: "'g \<Rightarrow> int" +
  fixes trace :: "http_request option \<Rightarrow> 'env \<Rightarrow> h_event list"
  assumes protocol: "slot_protocol (trace r env)"
begin

lemma holders_hold:
  "handlers_run reserve release trace req g0 g log \<Longrightarrow>
   distinct (slot_holders log []) \<and>
   (\<forall>i. i \<in> set (slot_holders log []) \<longleftrightarrow> holds_slot (events_of i log))"
proof (induction rule: handlers_run.induct)
  case run_start
  then show ?case by (simp add: events_of_def holds_slot_def)
next
  case (run_step g log i e env g')
  note protocol_reserve [OF protocol, of "events_of i log" "case e of ReserveSlot x \<Rightarrow> x | _ \<Rightarrow> None" "req i" env]
    and protocol_release [OF protocol, of "events_of i log" "req i" env]
  with run_step show ?case
    by (cases e) (auto simp: slot_holders_snoc holds_slot_def)
qed

lemma run_sessions:
  "handlers_run reserve release trace req g0 g log \<Longrightarrow>
   \<exists>live. session_run reserve release g0 g live \<and> mset live = mset (map req (slot_holders log []))"
proof (induction rule: handlers_run.induct)
  case run_start
  then show ?case by (auto intro: session_run.start)
next
  case (run_step g log i e env g')
  then obtain live where live: "session_run reserve release g0 g live"
    "mset live = mset (map req (slot_holders log []))" by blast
  from run_step.hyps(3) show ?case
  proof cases
    case (effect_reserve t x)
    then show ?thesis
    proof (cases x)
      case None
      with effect_reserve live show ?thesis
        by (intro exI [of _ "req i # live"]) (auto simp: slot_holders_snoc intro: session_run.admit)
    next
      case (Some y)
      with effect_reserve live show ?thesis
        by (intro exI [of _ live]) (auto simp: slot_holders_snoc intro: session_run.refuse)
    qed
  next
    case effect_release
    with run_step.hyps(2) have "holds_slot (events_of i log)"
      using protocol_release [OF protocol] by (auto simp: holds_slot_def)
    with holders_hold [OF run_step.hyps(1)] have i: "i \<in> set (slot_holders log [])" by blast
    from live(2) have "set live = set (map req (slot_holders log []))" by (metis set_mset_mset)
    with i have "req i \<in> set live" by simp
    with live have "session_run reserve release g0 (release g (req i)) (remove1 (req i) live)"
      by (intro session_run.finish) auto
    moreover have "mset (remove1 (req i) live) = mset (map req (remove1 i (slot_holders log [])))"
      using live(2) mset_map_remove1 [OF i, of req] by simp
    ultimately show ?thesis using effect_release
      by (intro exI [of _ "remove1 (req i) live"]) (simp add: slot_holders_snoc)
  next
    case effect_none
    then have "e \<noteq> ReserveSlot None" "e \<noteq> ReleaseSlot" by auto
    with live effect_none show ?thesis
      by (intro exI [of _ live]) (simp add: slot_holders_snoc)
  qed
qed

lemma concurrent_caps:
  assumes "handlers_run reserve release trace req g0 g log"
    and "present g0" and "active g0 = 0" and "\<And>k. held g0 k = 0"
  shows "active g = int (length (slot_holders log []))"
    and "held g k = sessions_of k (map req (slot_holders log []))"
    and "0 < max_active g0 \<Longrightarrow> int (length (slot_holders log [])) \<le> max_active g0"
    and "0 < max_client g0 \<Longrightarrow> sessions_of k (map req (slot_holders log [])) \<le> max_client g0"
proof -
  from run_sessions [OF assms(1)] obtain live where live: "session_run reserve release g0 g live"
    "mset live = mset (map req (slot_holders log []))" by blast
  then have "length live = length (slot_holders log [])" by (metis length_map size_mset)
  with run_counts [OF live(1) assms(2-4)] sessions_of_mset [OF live(2)]
  show "active g = int (length (slot_holders log []))"
    and "held g k = sessions_of k (map req (slot_holders log []))"
    and "0 < max_active g0 \<Longrightarrow> int (length (slot_holders log [])) \<le> max_active g0"
    and "0 < max_client g0 \<Longrightarrow> sessions_of k (map req (slot_holders log [])) \<le> max_client g0"
    by auto
qed

end

end
