(* ===== verification/Origin_Policy.thy ===== *)
theory Origin_Policy
  imports Go_Http
begin

text \<open>
  The origin allowlist of \<open>pkg/grpctunnel/api.go\<close>: \<open>BuildOriginAllowlistCheck\<close> and
  \<open>splitOriginWildcard\<close>. The parameter \<open>uni\<close> is the lower-casing of strings with non-ASCII
  bytes (Unicode's case table). The lemmas characterise the loop as a bounded search, show that
  only the set of entries matters, and what a wildcard entry lets through.
\<close>

section \<open>The check\<close>

definition normalize_origin :: "(string \<Rightarrow> string) \<Rightarrow> string \<Rightarrow> string" where
  "normalize_origin uni origin =
     strings_ToLower uni (strings_TrimSpace (strings_TrimSuffix origin ''/''))"

fun normalize_allowlist :: "(string \<Rightarrow> string) \<Rightarrow> string list \<Rightarrow> string list" where
  "normalize_allowlist uni [] = []"
| "normalize_allowlist uni (origin # rest) =
     (let o' = normalize_origin uni origin in
      if o' \<noteq> [] then o' # normalize_allowlist uni rest else normalize_allowlist uni rest)"

definition splitOriginWildcard :: "string \<Rightarrow> (string \<times> string) option" where
  "splitOriginWildcard allowedOrigin =
     (case strings_Cut allowedOrigin ''://'' of
        (scheme, host, found) \<Rightarrow>
          if \<not> found \<or> \<not> strings_HasPrefix host ''*.'' then None
          else Some (scheme, drop 1 host))"

fun origin_loop :: "string list \<Rightarrow> string \<Rightarrow> bool" where
  "origin_loop [] requestOrigin = False"
| "origin_loop (allowed # rest) requestOrigin =
     (if allowed = ''*'' \<or> allowed = requestOrigin then True
      else case splitOriginWildcard allowed of
        Some (scheme, hostSuffix) \<Rightarrow>
          if strings_HasPrefix requestOrigin (scheme @ ''://'') \<and>
             strings_HasSuffix requestOrigin hostSuffix
          then True else origin_loop rest requestOrigin
      | None \<Rightarrow> origin_loop rest requestOrigin)"

definition BuildOriginAllowlistCheck ::
    "(string \<Rightarrow> string) \<Rightarrow> string list \<Rightarrow> http_request option \<Rightarrow> bool" where
  "BuildOriginAllowlistCheck uni allowedOrigins r =
     (case r of
        None \<Rightarrow> False
      | Some r \<Rightarrow>
          (let requestOrigin = normalize_origin uni (header_Get (Header r) ''Origin'') in
           if requestOrigin = [] then True
           else origin_loop (normalize_allowlist uni allowedOrigins) requestOrigin))"

section \<open>What the loop decides\<close>

text \<open>One entry against one origin, as the documentation states the rule.\<close>

definition entry_matches :: "string \<Rightarrow> string \<Rightarrow> bool" where
  "entry_matches allowed origin \<longleftrightarrow>
     allowed = ''*'' \<or> allowed = origin \<or>
     (\<exists>scheme suf. splitOriginWildcard allowed = Some (scheme, suf) \<and>
        prefix (scheme @ ''://'') origin \<and> suffix suf origin)"

lemma origin_loop_iff: "origin_loop allowed origin \<longleftrightarrow> (\<exists>a \<in> set allowed. entry_matches a origin)"
  by (induction allowed)
     (auto simp: entry_matches_def strings_HasPrefix_def strings_HasSuffix_def split: option.splits)

lemma set_normalize_allowlist:
  "set (normalize_allowlist uni origins) = normalize_origin uni ` set origins - {[]}"
  by (induction origins) (auto simp: Let_def)

lemma allowlist_check_iff:
  "BuildOriginAllowlistCheck uni origins (Some r) \<longleftrightarrow>
     (let o' = normalize_origin uni (header_Get (Header r) ''Origin'') in
      o' = [] \<or> (\<exists>a \<in> set origins. normalize_origin uni a \<noteq> [] \<and> entry_matches (normalize_origin uni a) o'))"
  by (auto simp: BuildOriginAllowlistCheck_def Let_def origin_loop_iff set_normalize_allowlist)

section \<open>Plain origins\<close>

text \<open>
  An origin as a browser sends it, \<open>scheme://host[:port]\<close> in lower case: printable ASCII, no
  trailing slash. Such strings are their own normal form.
\<close>

definition plain_origin_char :: "char \<Rightarrow> bool" where
  "plain_origin_char c \<longleftrightarrow> plain_end c \<and> \<not> is_upper c"

definition plain_origin :: "string \<Rightarrow> bool" where
  "plain_origin s \<longleftrightarrow> list_all plain_origin_char s \<and> \<not> suffix ''/'' s"

lemma lower_byte_not_upper: "\<not> is_upper c \<Longrightarrow> lower_byte c = c"
  by (cases c) (auto simp only: is_upper_def lower_byte.simps Let_def split: if_splits)

lemma ToLower_plain: "list_all plain_origin_char s \<Longrightarrow> strings_ToLower uni s = s"
proof -
  assume s: "list_all plain_origin_char s"
  then have "map lower_byte s = s"
    by (intro map_idI lower_byte_not_upper) (auto simp: list_all_iff plain_origin_char_def)
  with s show ?thesis
    by (simp add: strings_ToLower_def list_all_iff plain_origin_char_def plain_end_def)
qed

lemma normalize_plain: "plain_origin s \<Longrightarrow> normalize_origin uni s = s"
proof -
  assume s: "plain_origin s"
  then have "list_all plain_end s" by (auto simp: plain_origin_def list_all_iff plain_origin_char_def)
  then have "strings_TrimSpace s = s" by (rule TrimSpace_all_plain)
  with s show ?thesis
    by (simp add: normalize_origin_def plain_origin_def strings_TrimSuffix_def ToLower_plain)
qed

section \<open>Wildcard entries\<close>

lemma Index_colon_free:
  "CHR '':'' \<notin> set scheme \<Longrightarrow> strings_Index (scheme @ ''://'' @ t) ''://'' = Some (length scheme)"
  by (induction scheme) auto

lemma splitOriginWildcard_entry:
  "CHR '':'' \<notin> set scheme \<Longrightarrow>
   splitOriginWildcard (scheme @ ''://*.'' @ domain) = Some (scheme, ''.'' @ domain)"
  using Index_colon_free [of scheme "''*.'' @ domain"]
  by (simp add: splitOriginWildcard_def strings_Cut_def strings_HasPrefix_def)

lemma prefix_suffix_disjoint:
  assumes "prefix (p @ ''://'') s" and "suffix (''.'' @ d) s" and "CHR ''.'' \<notin> set p"
  shows "\<exists>x. s = p @ ''://'' @ x @ ''.'' @ d"
proof -
  from assms(1) obtain t where s1: "s = (p @ ''://'') @ t" by (auto simp: prefix_def)
  from assms(2) obtain u where s2: "s = u @ ''.'' @ d" by (auto simp: suffix_def)
  have dot: "CHR ''.'' \<notin> set (p @ ''://'')" using assms(3) by simp
  have "length (p @ ''://'') \<le> length u"
  proof (rule ccontr)
    assume "\<not> ?thesis"
    then have lt: "length u < length (p @ ''://'')" by simp
    have "s ! length u = CHR ''.''" using s2 by (simp add: nth_append)
    moreover have "s ! length u = (p @ ''://'') ! length u" using lt by (simp only: s1 nth_append if_True)
    ultimately show False using dot lt by (metis nth_mem)
  qed
  then have "prefix (p @ ''://'') u"
    using s1 s2 by (metis prefixI prefix_length_prefix)
  with s2 show ?thesis by (auto simp: prefix_def)
qed

text \<open>
  C16. A wildcard entry \<open>scheme://*.domain\<close> admits exactly the subdomains of the domain under that
  scheme: an origin passes if and only if it is \<open>scheme://\<close>, some labels, a dot and the domain.
  The domain itself, other schemes and look-alike hosts that merely end in the same letters do
  not pass.
\<close>

theorem wildcard_admits_subdomains_only:
  assumes "CHR '':'' \<notin> set scheme" and "CHR ''.'' \<notin> set scheme"
    and "plain_origin (scheme @ ''://*.'' @ domain)"
    and "plain_origin origin" and "origin \<noteq> []" and "CHR ''*'' \<notin> set origin"
    and "header_Get (Header r) ''Origin'' = origin"
  shows "BuildOriginAllowlistCheck uni [scheme @ ''://*.'' @ domain] (Some r) \<longleftrightarrow>
         (\<exists>labels. origin = scheme @ ''://'' @ labels @ ''.'' @ domain)"
proof -
  have entry: "normalize_origin uni (scheme @ ''://*.'' @ domain) = scheme @ ''://*.'' @ domain"
    and o': "normalize_origin uni origin = origin"
    using assms(3,4) by (auto intro: normalize_plain)
  have neq: "scheme @ ''://*.'' @ domain \<noteq> origin" using assms(6) by auto
  have star: "scheme @ ''://*.'' @ domain \<noteq> ''*''" by (cases scheme) auto
  have "BuildOriginAllowlistCheck uni [scheme @ ''://*.'' @ domain] (Some r) \<longleftrightarrow>
        prefix (scheme @ ''://'') origin \<and> suffix (''.'' @ domain) origin"
    using assms(5,7) entry o' neq star splitOriginWildcard_entry [OF assms(1), of domain]
    by (simp add: allowlist_check_iff entry_matches_def Let_def)
  also have "\<dots> \<longleftrightarrow> (\<exists>labels. origin = scheme @ ''://'' @ labels @ ''.'' @ domain)"
    using prefix_suffix_disjoint [OF _ _ assms(2)] by (auto simp: suffix_def)
  finally show ?thesis .
qed

section \<open>Monotonicity, fail-closed lists, case\<close>

lemma allowlist_mono:
  "set origins \<subseteq> set origins' \<Longrightarrow> BuildOriginAllowlistCheck uni origins r \<Longrightarrow>
   BuildOriginAllowlistCheck uni origins' r"
  by (cases r) (auto simp: BuildOriginAllowlistCheck_def allowlist_check_iff Let_def origin_loop_iff
      set_normalize_allowlist split: if_splits)

lemma lower_byte_cases: "lower_byte c = c \<or> is_upper c \<and> is_lower (lower_byte c)"
proof (cases "is_upper c")
  case True
  obtain b0 b1 b2 b3 b4 b5 b6 b7 where c: "c = Char b0 b1 b2 b3 b4 b5 b6 b7" by (cases c)
  with True have "\<not> b7 \<and> b6 \<and> \<not> b5"
    by (auto simp: is_upper_def of_bool_def split: if_splits)
  with True c show ?thesis by (simp add: is_upper_def is_lower_def Let_def)
next
  case False
  then show ?thesis by (simp add: lower_byte_not_upper)
qed

lemma lower_byte_space: "ascii_space (lower_byte c) = ascii_space c"
  using lower_byte_cases [of c]
  by (auto simp: ascii_space_def is_upper_def is_lower_def)

lemma lower_byte_ascii: "is_ascii c \<Longrightarrow> is_ascii (lower_byte c)"
  using lower_byte_cases [of c] by (auto simp: is_ascii_def is_lower_def)

lemma is_lower_not_upper: "is_lower c \<Longrightarrow> \<not> is_upper c"
  by (simp add: is_lower_def is_upper_def)

lemma lower_byte_idem: "lower_byte (lower_byte c) = lower_byte c"
  using lower_byte_cases [of c] by (auto simp: lower_byte_not_upper is_lower_not_upper)

lemma trim_left_ascii: "list_all is_ascii s \<Longrightarrow> trim_left s = dropWhile ascii_space s"
  by (induction s) (auto simp: not_ascii_lead split: list.split)

lemma trim_left_rev_ascii: "list_all is_ascii s \<Longrightarrow> trim_left_rev s = dropWhile ascii_space s"
  by (induction s) (auto simp: not_ascii_last split: list.split)

lemma list_all_dropWhile: "list_all P s \<Longrightarrow> list_all P (dropWhile Q s)"
  by (auto simp: list_all_iff dest: set_dropWhileD)

lemma TrimSpace_ascii:
  "list_all is_ascii s \<Longrightarrow>
   strings_TrimSpace s = rev (dropWhile ascii_space (rev (dropWhile ascii_space s)))"
  by (simp add: strings_TrimSpace_def trim_right_def trim_left_ascii trim_left_rev_ascii
      list_all_dropWhile)

lemma dropWhile_space_lower:
  "dropWhile ascii_space (map lower_byte s) = map lower_byte (dropWhile ascii_space s)"
  by (induction s) (simp_all add: lower_byte_space)

lemma TrimSpace_lower:
  assumes "list_all is_ascii s"
  shows "strings_TrimSpace (map lower_byte s) = map lower_byte (strings_TrimSpace s)"
proof -
  from assms have "list_all is_ascii (map lower_byte s)"
    by (simp add: list_all_iff lower_byte_ascii)
  with assms show ?thesis
    by (simp add: TrimSpace_ascii rev_map dropWhile_space_lower)
qed

lemma lower_byte_slash: "lower_byte c = CHR ''/'' \<longleftrightarrow> c = CHR ''/''"
  using lower_byte_cases [of c] by (auto simp: is_lower_def)

lemma TrimSuffix_lower:
  "strings_TrimSuffix (map lower_byte s) ''/'' = map lower_byte (strings_TrimSuffix s ''/'')"
proof -
  have "suffix ''/'' (map lower_byte s) = suffix ''/'' s"
    by (cases s rule: rev_cases) (auto simp: lower_byte_slash eq_commute [of "CHR ''/''"])
  then show ?thesis by (simp add: strings_TrimSuffix_def take_map)
qed

lemma TrimSpace_subset: "list_all is_ascii s \<Longrightarrow> list_all is_ascii (strings_TrimSpace s)"
  by (simp add: TrimSpace_ascii list_all_dropWhile)

lemma normalize_origin_lower:
  assumes "list_all is_ascii s"
  shows "normalize_origin uni (map lower_byte s) = normalize_origin uni s"
proof -
  let ?t = "strings_TrimSpace (strings_TrimSuffix s ''/'')"
  have suf: "list_all is_ascii (strings_TrimSuffix s ''/'')"
    using assms by (auto simp: strings_TrimSuffix_def list_all_iff dest: in_set_takeD)
  then have "strings_TrimSpace (strings_TrimSuffix (map lower_byte s) ''/'') = map lower_byte ?t"
    by (simp add: TrimSuffix_lower TrimSpace_lower)
  moreover have "list_all is_ascii ?t" using suf by (rule TrimSpace_subset)
  moreover from this have "list_all is_ascii (map lower_byte ?t)"
    by (simp add: list_all_iff lower_byte_ascii)
  ultimately show ?thesis
    by (simp add: normalize_origin_def strings_ToLower_def lower_byte_idem o_def)
qed

text \<open>
  The letter case of an origin never decides: a request whose \<open>Origin\<close> header differs from
  another's in the case of ASCII letters only gets the same answer, for every allowlist, and so
  does an allowlist spelled in another case.
\<close>

theorem origin_check_case_insensitive:
  assumes "header_Get (Header r) ''Origin'' = o1" and "header_Get (Header r') ''Origin'' = o2"
    and "list_all is_ascii o1" and "list_all is_ascii o2" and "map lower_byte o1 = map lower_byte o2"
    and "list_all (list_all is_ascii) origins"
  shows "BuildOriginAllowlistCheck uni origins (Some r) =
         BuildOriginAllowlistCheck uni (map (map lower_byte) origins) (Some r')"
proof -
  have "normalize_origin uni o1 = normalize_origin uni o2"
    using assms(3-5) by (metis normalize_origin_lower)
  moreover have "set (normalize_allowlist uni (map (map lower_byte) origins)) =
                 set (normalize_allowlist uni origins)"
    using assms(6) by (force simp: set_normalize_allowlist list_all_iff normalize_origin_lower image_image)
  ultimately show ?thesis
    using assms(1,2) by (simp add: BuildOriginAllowlistCheck_def origin_loop_iff)
qed

theorem origin_check_case_insensitive_witness:
  "BuildOriginAllowlistCheck (\<lambda>s. s) [''HTTPS://App.example.com'']
     (Some (get_request [] [(''Origin'', [''https://APP.example.com''])])) =
   BuildOriginAllowlistCheck (\<lambda>s. s) [''https://app.example.com'']
     (Some (get_request [] [(''Origin'', [''HTTPS://app.example.com''])]))"
  using origin_check_case_insensitive [of
      "get_request [] [(''Origin'', [''https://APP.example.com''])]" "''https://APP.example.com''"
      "get_request [] [(''Origin'', [''HTTPS://app.example.com''])]" "''HTTPS://app.example.com''"
      "[''HTTPS://App.example.com'']" "\<lambda>s. s"]
  by (simp add: header_eval is_ascii_def)

text \<open>
  The policy fails closed: without a usable entry (an empty allowlist, or only blank ones) a
  request that names an origin is refused, and so is a missing request; a request without an
  \<open>Origin\<close> header (a client that is no browser) passes under every allowlist.
\<close>

theorem origin_check_fails_closed:
  "(list_all (\<lambda>a. normalize_origin uni a = []) origins \<longrightarrow>
      BuildOriginAllowlistCheck uni origins (Some r) =
        (normalize_origin uni (header_Get (Header r) ''Origin'') = [])) \<and>
   \<not> BuildOriginAllowlistCheck uni origins None \<and>
   (header_Get (Header r) ''Origin'' = [] \<longrightarrow> BuildOriginAllowlistCheck uni origins (Some r))"
proof -
  have "normalize_origin uni [] = []"
    by (simp add: normalize_origin_def strings_TrimSuffix_def strings_ToLower_def)
  moreover have "BuildOriginAllowlistCheck uni origins None = False"
    by (simp add: BuildOriginAllowlistCheck_def)
  ultimately show ?thesis
    by (auto simp: allowlist_check_iff Let_def list_all_iff)
qed

theorem origin_check_fails_closed_witness:
  "\<not> BuildOriginAllowlistCheck (\<lambda>s. s) ['' '']
     (Some (get_request [] [(''Origin'', [''https://a.io''])]))"
  using origin_check_fails_closed [of "\<lambda>s. s" "['' '']"
      "get_request [] [(''Origin'', [''https://a.io''])]"]
  by (simp add: normalize_origin_def strings_TrimSuffix_def strings_ToLower_def TrimSpace_ascii
      header_eval is_ascii_def ascii_space_def)

theorem wildcard_admits_subdomains_only_witness:
  "BuildOriginAllowlistCheck (\<lambda>s. s) [''https://*.example.com'']
     (Some (get_request [] [(''Origin'', [''https://app.example.com''])])) \<longleftrightarrow>
   (\<exists>labels. ''https://app.example.com'' = ''https://'' @ labels @ ''.example.com'')"
  using wildcard_admits_subdomains_only [of "''https''" "''example.com''"
      "''https://app.example.com''"
      "get_request [] [(''Origin'', [''https://app.example.com''])]" "\<lambda>s. s"]
  by (simp add: plain_origin_def plain_origin_char_def plain_end_def ascii_space_def suffix_def
      header_eval is_ascii_def)

text \<open>
  A trailing slash is removed before the white space around an entry is, so an entry written with
  a blank behind the slash keeps the slash and matches no origin a browser sends.
\<close>

lemma blank_behind_slash_kept:
  "normalize_origin uni ''https://a.io/ '' = ''https://a.io/''"
  by (simp add: normalize_origin_def strings_TrimSuffix_def strings_ToLower_def TrimSpace_ascii
      is_ascii_def ascii_space_def)

end
