(* ===== verification/Bridge_Config.thy ===== *)
theory Bridge_Config
  imports Origin_Policy
begin

text \<open>
  The server-side configuration of \<open>pkg/grpctunnel\<close>: \<open>BridgeConfig\<close> (\<open>api.go\<close>), its validation,
  its keepalive and read-limit defaults, and the functional options that build it
  (\<open>server.go\<close>). Callbacks are known by an identifier (\<open>hook\<close>); the origin check and the
  authorization hook are functions, since the handler uses what they return.
\<close>

section \<open>BridgeConfig and its validation\<close>

record BridgeConfig =
  CheckOrigin :: "(http_request option \<Rightarrow> bool) option"
  Authorize :: "(http_request \<Rightarrow> string option) option"
  ReadBufferSize :: int
  WriteBufferSize :: int
  ReadLimitBytes :: int
  ShouldDisableReadLimit :: bool
  PingInterval :: duration
  IdleTimeout :: duration
  ShouldDisableKeepalive :: bool
  SessionMaxLifetime :: duration
  ShouldUseNativeGRPCTransport :: bool
  ShouldEnableCompression :: bool
  MaxActiveConnections :: int
  MaxConnectionsPerClient :: int
  MaxUpgradesPerClientPerMinute :: int
  OnConnect :: "hook option"
  OnDisconnect :: "hook option"

datatype config_error =
    ReadBufferSizeNegative
  | WriteBufferSizeNegative
  | ReadLimitBytesNegative
  | ReadLimitWhileDisabled
  | PingIntervalNegative
  | IdleTimeoutNegative
  | BackendDialTimeoutNegative
  | PingIntervalRequired
  | PingIntervalNotBelowIdleTimeout
  | KeepaliveWhileDisabled
  | SessionMaxLifetimeNegative
  | MaxActiveConnectionsNegative
  | MaxConnectionsPerClientNegative
  | MaxUpgradesPerClientPerMinuteNegative

definition GetBridgeConfigError :: "BridgeConfig \<Rightarrow> config_error option" where
  [config_defs]: "GetBridgeConfigError cfg =
     (if ReadBufferSize cfg < 0 then Some ReadBufferSizeNegative
      else if WriteBufferSize cfg < 0 then Some WriteBufferSizeNegative
      else if ReadLimitBytes cfg < 0 then Some ReadLimitBytesNegative
      else if ShouldDisableReadLimit cfg \<and> ReadLimitBytes cfg > 0 then Some ReadLimitWhileDisabled
      else if PingInterval cfg < 0 then Some PingIntervalNegative
      else if IdleTimeout cfg < 0 then Some IdleTimeoutNegative
      else if IdleTimeout cfg > 0 \<and> PingInterval cfg \<le> 0 then Some PingIntervalRequired
      else if IdleTimeout cfg > 0 \<and> PingInterval cfg \<ge> IdleTimeout cfg
        then Some PingIntervalNotBelowIdleTimeout
      else if ShouldDisableKeepalive cfg \<and> (PingInterval cfg > 0 \<or> IdleTimeout cfg > 0)
        then Some KeepaliveWhileDisabled
      else if SessionMaxLifetime cfg < 0 then Some SessionMaxLifetimeNegative
      else if MaxActiveConnections cfg < 0 then Some MaxActiveConnectionsNegative
      else if MaxConnectionsPerClient cfg < 0 then Some MaxConnectionsPerClientNegative
      else if MaxUpgradesPerClientPerMinute cfg < 0 then Some MaxUpgradesPerClientPerMinuteNegative
      else None)"

section \<open>Defaults\<close>

definition defaultWebSocketBufferSize :: int where "defaultWebSocketBufferSize = 4096"
definition defaultReadLimitBytes :: int where "defaultReadLimitBytes = 16 * 2 ^ 20"
definition defaultBridgePingInterval :: duration where "defaultBridgePingInterval = 30 * second"
definition defaultBridgeIdleTimeout :: duration where "defaultBridgeIdleTimeout = 120 * second"

definition applyBridgeKeepaliveDefaults :: "BridgeConfig \<Rightarrow> BridgeConfig" where
  [config_defs]: "applyBridgeKeepaliveDefaults cfg =
     (if ShouldDisableKeepalive cfg \<or> PingInterval cfg > 0 \<or> IdleTimeout cfg > 0 then cfg
      else cfg\<lparr>PingInterval := defaultBridgePingInterval,
               IdleTimeout := defaultBridgeIdleTimeout\<rparr>)"

definition getBridgeReadLimitBytes :: "BridgeConfig \<Rightarrow> int" where
  [config_defs]: "getBridgeReadLimitBytes cfg =
     (if ShouldDisableReadLimit cfg then 0
      else if ReadLimitBytes cfg > 0 then ReadLimitBytes cfg
      else defaultReadLimitBytes)"

definition buildBridgePingWriteTimeout :: "BridgeConfig \<Rightarrow> duration" where
  [config_defs]: "buildBridgePingWriteTimeout cfg =
     (let writeTimeout = PingInterval cfg;
          writeTimeout =
            (if IdleTimeout cfg > 0 \<and> (writeTimeout \<le> 0 \<or> writeTimeout > IdleTimeout cfg)
             then IdleTimeout cfg else writeTimeout)
      in if writeTimeout \<le> 0 then second else writeTimeout)"

section \<open>Functional options\<close>

record serverOptions =
  so_checkOrigin :: "(http_request option \<Rightarrow> bool) option"
  so_authorize :: "(http_request \<Rightarrow> string option) option"
  so_readBufferSize :: int
  so_writeBufferSize :: int
  so_readLimitBytes :: int
  so_shouldDisableReadLimit :: bool
  so_pingInterval :: duration
  so_idleTimeout :: duration
  so_sessionMaxLifetime :: duration
  so_shouldDisableKeepalive :: bool
  so_shouldUseNativeTransport :: bool
  so_onConnect :: "hook option"
  so_onDisconnect :: "hook option"
  so_shouldEnableCompression :: bool
  so_maxActiveConnections :: int
  so_maxConnectionsPerClient :: int
  so_maxUpgradesPerClient :: int

type_synonym ServerOption = "serverOptions \<Rightarrow> serverOptions"

definition WithOriginCheck :: "(http_request option \<Rightarrow> bool) option \<Rightarrow> ServerOption" where
  [config_defs]: "WithOriginCheck fn o' = o'\<lparr>so_checkOrigin := fn\<rparr>"

definition WithAllowedOrigins :: "(string \<Rightarrow> string) \<Rightarrow> string list \<Rightarrow> ServerOption" where
  [config_defs]: "WithAllowedOrigins uni allowedOrigins o' =
     o'\<lparr>so_checkOrigin := Some (BuildOriginAllowlistCheck uni allowedOrigins)\<rparr>"

definition WithAuthorize :: "(http_request \<Rightarrow> string option) option \<Rightarrow> ServerOption" where
  [config_defs]: "WithAuthorize fn o' = o'\<lparr>so_authorize := fn\<rparr>"

definition WithBufferSizes :: "int \<Rightarrow> int \<Rightarrow> ServerOption" where
  [config_defs]: "WithBufferSizes read write o' =
     o'\<lparr>so_readBufferSize := read, so_writeBufferSize := write\<rparr>"

definition WithReadLimitBytes :: "int \<Rightarrow> ServerOption" where
  [config_defs]: "WithReadLimitBytes limit o' = o'\<lparr>so_readLimitBytes := limit\<rparr>"

definition WithReadLimitDisabled :: ServerOption where
  [config_defs]: "WithReadLimitDisabled o' = o'\<lparr>so_shouldDisableReadLimit := True\<rparr>"

definition WithKeepalive :: "duration \<Rightarrow> duration \<Rightarrow> ServerOption" where
  [config_defs]: "WithKeepalive pingInterval idleTimeout o' =
     o'\<lparr>so_pingInterval := pingInterval, so_idleTimeout := idleTimeout\<rparr>"

definition WithKeepaliveDisabled :: ServerOption where
  [config_defs]: "WithKeepaliveDisabled o' = o'\<lparr>so_shouldDisableKeepalive := True\<rparr>"

definition WithSessionMaxLifetime :: "duration \<Rightarrow> ServerOption" where
  [config_defs]: "WithSessionMaxLifetime maxLifetime o' = o'\<lparr>so_sessionMaxLifetime := maxLifetime\<rparr>"

definition WithNativeGRPCTransport :: ServerOption where
  [config_defs]: "WithNativeGRPCTransport o' = o'\<lparr>so_shouldUseNativeTransport := True\<rparr>"

definition WithBridgeWebSocketCompression :: ServerOption where
  [config_defs]: "WithBridgeWebSocketCompression o' = o'\<lparr>so_shouldEnableCompression := True\<rparr>"

definition WithMaxActiveConnections :: "int \<Rightarrow> ServerOption" where
  [config_defs]: "WithMaxActiveConnections maxConnections o' =
     o'\<lparr>so_maxActiveConnections := maxConnections\<rparr>"

definition WithMaxConnectionsPerClient :: "int \<Rightarrow> ServerOption" where
  [config_defs]: "WithMaxConnectionsPerClient maxConnections o' =
     o'\<lparr>so_maxConnectionsPerClient := maxConnections\<rparr>"

definition WithMaxUpgradesPerClientPerMinute :: "int \<Rightarrow> ServerOption" where
  [config_defs]: "WithMaxUpgradesPerClientPerMinute maxUpgrades o' =
     o'\<lparr>so_maxUpgradesPerClient := maxUpgrades\<rparr>"

definition WithConnectHook :: "hook option \<Rightarrow> ServerOption" where
  [config_defs]: "WithConnectHook fn o' = o'\<lparr>so_onConnect := fn\<rparr>"

definition WithDisconnectHook :: "hook option \<Rightarrow> ServerOption" where
  [config_defs]: "WithDisconnectHook fn o' = o'\<lparr>so_onDisconnect := fn\<rparr>"

text \<open>The zero value of the options, with the two buffer sizes preset.\<close>

definition defaultServerOptions :: serverOptions where
  "defaultServerOptions =
     \<lparr>so_checkOrigin = None, so_authorize = None,
      so_readBufferSize = defaultWebSocketBufferSize,
      so_writeBufferSize = defaultWebSocketBufferSize,
      so_readLimitBytes = 0, so_shouldDisableReadLimit = False, so_pingInterval = 0,
      so_idleTimeout = 0, so_sessionMaxLifetime = 0, so_shouldDisableKeepalive = False,
      so_shouldUseNativeTransport = False, so_onConnect = None, so_onDisconnect = None,
      so_shouldEnableCompression = False, so_maxActiveConnections = 0,
      so_maxConnectionsPerClient = 0, so_maxUpgradesPerClient = 0\<rparr>"

definition buildServerOptions :: "ServerOption list \<Rightarrow> serverOptions" where
  "buildServerOptions opts = fold (\<lambda>opt o'. opt o') opts defaultServerOptions"

definition buildBridgeConfig :: "serverOptions \<Rightarrow> BridgeConfig" where
  [config_defs]: "buildBridgeConfig options =
     \<lparr>CheckOrigin = so_checkOrigin options,
      Authorize = so_authorize options,
      ReadBufferSize = so_readBufferSize options,
      WriteBufferSize = so_writeBufferSize options,
      ReadLimitBytes = so_readLimitBytes options,
      ShouldDisableReadLimit = so_shouldDisableReadLimit options,
      PingInterval = so_pingInterval options,
      IdleTimeout = so_idleTimeout options,
      ShouldDisableKeepalive = so_shouldDisableKeepalive options,
      SessionMaxLifetime = so_sessionMaxLifetime options,
      ShouldUseNativeGRPCTransport = so_shouldUseNativeTransport options,
      ShouldEnableCompression = so_shouldEnableCompression options,
      MaxActiveConnections = so_maxActiveConnections options,
      MaxConnectionsPerClient = so_maxConnectionsPerClient options,
      MaxUpgradesPerClientPerMinute = so_maxUpgradesPerClient options,
      OnConnect = so_onConnect options,
      OnDisconnect = so_onDisconnect options\<rparr>"

text \<open>A configuration with the three caps set and everything else at its default, for examples.\<close>

abbreviation capped_config :: "int \<Rightarrow> int \<Rightarrow> int \<Rightarrow> BridgeConfig" where
  "capped_config active client upgrades \<equiv> buildBridgeConfig (buildServerOptions
     [WithMaxActiveConnections active, WithMaxConnectionsPerClient client,
      WithMaxUpgradesPerClientPerMinute upgrades])"

lemma capped_config_caps [simp]:
  "MaxActiveConnections (capped_config a c u) = a"
  "MaxConnectionsPerClient (capped_config a c u) = c"
  "MaxUpgradesPerClientPerMinute (capped_config a c u) = u"
  by (simp_all add: config_defs buildServerOptions_def defaultServerOptions_def)

section \<open>Resolved settings\<close>

lemma bridge_default_values [simp]:
  "0 < defaultBridgePingInterval" "defaultBridgePingInterval < defaultBridgeIdleTimeout"
  "0 < defaultBridgeIdleTimeout" "0 < defaultReadLimitBytes" "\<not> defaultWebSocketBufferSize < 0"
  by (simp_all add: defaultBridgePingInterval_def defaultBridgeIdleTimeout_def second_def
      defaultReadLimitBytes_def defaultWebSocketBufferSize_def)

lemma keepalive_defaults_frame [simp]:
  "CheckOrigin (applyBridgeKeepaliveDefaults cfg) = CheckOrigin cfg"
  "Authorize (applyBridgeKeepaliveDefaults cfg) = Authorize cfg"
  "ReadBufferSize (applyBridgeKeepaliveDefaults cfg) = ReadBufferSize cfg"
  "WriteBufferSize (applyBridgeKeepaliveDefaults cfg) = WriteBufferSize cfg"
  "ReadLimitBytes (applyBridgeKeepaliveDefaults cfg) = ReadLimitBytes cfg"
  "ShouldDisableReadLimit (applyBridgeKeepaliveDefaults cfg) = ShouldDisableReadLimit cfg"
  "ShouldDisableKeepalive (applyBridgeKeepaliveDefaults cfg) = ShouldDisableKeepalive cfg"
  "SessionMaxLifetime (applyBridgeKeepaliveDefaults cfg) = SessionMaxLifetime cfg"
  "ShouldUseNativeGRPCTransport (applyBridgeKeepaliveDefaults cfg) = ShouldUseNativeGRPCTransport cfg"
  "MaxActiveConnections (applyBridgeKeepaliveDefaults cfg) = MaxActiveConnections cfg"
  "MaxConnectionsPerClient (applyBridgeKeepaliveDefaults cfg) = MaxConnectionsPerClient cfg"
  "MaxUpgradesPerClientPerMinute (applyBridgeKeepaliveDefaults cfg) = MaxUpgradesPerClientPerMinute cfg"
  "OnConnect (applyBridgeKeepaliveDefaults cfg) = OnConnect cfg"
  "OnDisconnect (applyBridgeKeepaliveDefaults cfg) = OnDisconnect cfg"
  by (simp_all add: applyBridgeKeepaliveDefaults_def)

lemma bridge_config_valid_iff:
  "GetBridgeConfigError cfg = None \<longleftrightarrow>
     0 \<le> ReadBufferSize cfg \<and> 0 \<le> WriteBufferSize cfg \<and> 0 \<le> ReadLimitBytes cfg \<and>
     (ShouldDisableReadLimit cfg \<longrightarrow> ReadLimitBytes cfg = 0) \<and>
     0 \<le> PingInterval cfg \<and> 0 \<le> IdleTimeout cfg \<and>
     (0 < IdleTimeout cfg \<longrightarrow> 0 < PingInterval cfg \<and> PingInterval cfg < IdleTimeout cfg) \<and>
     (ShouldDisableKeepalive cfg \<longrightarrow> PingInterval cfg = 0 \<and> IdleTimeout cfg = 0) \<and>
     0 \<le> SessionMaxLifetime cfg \<and> 0 \<le> MaxActiveConnections cfg \<and>
     0 \<le> MaxConnectionsPerClient cfg \<and> 0 \<le> MaxUpgradesPerClientPerMinute cfg"
  by (auto simp: GetBridgeConfigError_def)

lemma keepalive_defaults_cases:
  obtains (kept) "applyBridgeKeepaliveDefaults cfg = cfg"
      "ShouldDisableKeepalive cfg \<or> 0 < PingInterval cfg \<or> 0 < IdleTimeout cfg"
  | (filled) "PingInterval (applyBridgeKeepaliveDefaults cfg) = defaultBridgePingInterval"
      "IdleTimeout (applyBridgeKeepaliveDefaults cfg) = defaultBridgeIdleTimeout"
      "\<not> ShouldDisableKeepalive cfg"
  by (cases "ShouldDisableKeepalive cfg \<or> 0 < PingInterval cfg \<or> 0 < IdleTimeout cfg")
     (auto simp: applyBridgeKeepaliveDefaults_def)

lemma keepalive_defaults_valid:
  assumes "GetBridgeConfigError cfg = None"
  shows "GetBridgeConfigError (applyBridgeKeepaliveDefaults cfg) = None"
proof (cases rule: keepalive_defaults_cases [of cfg])
  case kept
  then show ?thesis using assms by simp
next
  case filled
  then show ?thesis using assms bridge_default_values(1-3)
    by (simp add: bridge_config_valid_iff del: bridge_default_values)
qed

text \<open>
  C31. What a handler runs with, for any configuration the validator accepts: filling in the
  keepalive defaults keeps it valid and is idempotent; unless keepalive is disabled pings are sent,
  and where a peer can be declared dead at all, a ping comes before its deadline and a ping's write
  deadline is positive and no later than the idle timeout; the read limit is off exactly when it is
  disabled explicitly.
\<close>

theorem resolved_settings_sound:
  assumes "GetBridgeConfigError cfg = None"
  shows "let run = applyBridgeKeepaliveDefaults cfg in
    GetBridgeConfigError run = None \<and> applyBridgeKeepaliveDefaults run = run \<and>
    (\<not> ShouldDisableKeepalive cfg \<longrightarrow> 0 < PingInterval run) \<and>
    (0 < IdleTimeout run \<longrightarrow> PingInterval run < IdleTimeout run \<and>
       buildBridgePingWriteTimeout run \<le> IdleTimeout run) \<and>
    0 < buildBridgePingWriteTimeout run \<and>
    (getBridgeReadLimitBytes run = 0 \<longleftrightarrow> ShouldDisableReadLimit cfg)"
proof -
  let ?run = "applyBridgeKeepaliveDefaults cfg"
  note valid = keepalive_defaults_valid [OF assms]
  have "applyBridgeKeepaliveDefaults ?run = ?run" by (simp add: applyBridgeKeepaliveDefaults_def)
  moreover have "\<not> ShouldDisableKeepalive cfg \<longrightarrow> 0 < PingInterval ?run"
    using assms by (cases rule: keepalive_defaults_cases [of cfg]) (auto simp: bridge_config_valid_iff)
  moreover have "0 < buildBridgePingWriteTimeout ?run"
    and "0 < IdleTimeout ?run \<longrightarrow> PingInterval ?run < IdleTimeout ?run \<and>
       buildBridgePingWriteTimeout ?run \<le> IdleTimeout ?run"
    using valid by (auto simp: bridge_config_valid_iff buildBridgePingWriteTimeout_def Let_def)
  moreover have "getBridgeReadLimitBytes ?run = 0 \<longleftrightarrow> ShouldDisableReadLimit cfg"
    by (auto simp: getBridgeReadLimitBytes_def defaultReadLimitBytes_def)
  ultimately show ?thesis using valid by simp
qed

theorem resolved_settings_sound_witness:
  "0 < PingInterval (applyBridgeKeepaliveDefaults (buildBridgeConfig (buildServerOptions [])))"
  using resolved_settings_sound [of "buildBridgeConfig (buildServerOptions [])"]
  by (simp add: config_defs buildServerOptions_def defaultServerOptions_def Let_def
      defaultWebSocketBufferSize_def)

text \<open>
  Functional options: a server built without options is valid and gets the default keepalive,
  the default read limit and no caps; an option list is applied in order, so that the last setting
  of a field wins over the earlier ones.
\<close>

theorem server_options_in_order:
  "GetBridgeConfigError (buildBridgeConfig (buildServerOptions [])) = None \<and>
   getBridgeReadLimitBytes (buildBridgeConfig (buildServerOptions [])) = defaultReadLimitBytes \<and>
   buildServerOptions (opts @ [WithKeepalive p i]) =
     (buildServerOptions opts)\<lparr>so_pingInterval := p, so_idleTimeout := i\<rparr> \<and>
   buildServerOptions (opts @ [WithKeepalive p' i', WithKeepalive p i]) =
     buildServerOptions (opts @ [WithKeepalive p i]) \<and>
   CheckOrigin (buildBridgeConfig (buildServerOptions
     (opts @ [WithOriginCheck f, WithAllowedOrigins uni origins]))) =
     Some (BuildOriginAllowlistCheck uni origins)"
  by (simp add: config_defs buildServerOptions_def defaultServerOptions_def
      defaultWebSocketBufferSize_def)

end
