(* ===== verification/Handler_Config.thy ===== *)
theory Handler_Config
  imports Bridge_Config
begin

text \<open>
  The configuration of the stand-alone reverse proxy of \<open>pkg/bridge\<close> (\<open>bridge.go\<close>): \<open>Config\<close>, its
  validation, the defaults \<open>NewHandler\<close> fills in, the resolved read limit and ping write timeout,
  and the shared pools of write and copy buffers.
\<close>

section \<open>Config and its validation\<close>

record HandlerConfig =
  hc_TargetAddress :: string
  hc_CheckOrigin :: "(http_request option \<Rightarrow> bool) option"
  hc_ReadBufferSize :: int
  hc_WriteBufferSize :: int
  hc_ReadLimitBytes :: int
  hc_ShouldDisableReadLimit :: bool
  hc_PingInterval :: duration
  hc_IdleTimeout :: duration
  hc_BackendDialTimeout :: duration
  hc_ShouldRequireLoopbackBackend :: bool
  hc_MaxActiveConnections :: int
  hc_MaxConnectionsPerClient :: int
  hc_MaxUpgradesPerClientPerMinute :: int
  hc_ShouldEnableCompression :: bool
  hc_Logger :: "hook option"
  hc_OnConnect :: "hook option"
  hc_OnDisconnect :: "hook option"

definition getHandlerConfigError :: "HandlerConfig \<Rightarrow> config_error option" where
  [config_defs]: "getHandlerConfigError cfg =
     (if hc_ReadBufferSize cfg < 0 then Some ReadBufferSizeNegative
      else if hc_WriteBufferSize cfg < 0 then Some WriteBufferSizeNegative
      else if hc_ReadLimitBytes cfg < 0 then Some ReadLimitBytesNegative
      else if hc_ShouldDisableReadLimit cfg \<and> hc_ReadLimitBytes cfg > 0
        then Some ReadLimitWhileDisabled
      else if hc_PingInterval cfg < 0 then Some PingIntervalNegative
      else if hc_IdleTimeout cfg < 0 then Some IdleTimeoutNegative
      else if hc_BackendDialTimeout cfg < 0 then Some BackendDialTimeoutNegative
      else if hc_IdleTimeout cfg > 0 \<and> hc_PingInterval cfg \<le> 0 then Some PingIntervalRequired
      else if hc_IdleTimeout cfg > 0 \<and> hc_PingInterval cfg \<ge> hc_IdleTimeout cfg
        then Some PingIntervalNotBelowIdleTimeout
      else if hc_MaxActiveConnections cfg < 0 then Some MaxActiveConnectionsNegative
      else if hc_MaxConnectionsPerClient cfg < 0 then Some MaxConnectionsPerClientNegative
      else if hc_MaxUpgradesPerClientPerMinute cfg < 0
        then Some MaxUpgradesPerClientPerMinuteNegative
      else None)"

section \<open>Defaults\<close>

definition parseDefaultBackendDialTimeout :: duration where
  "parseDefaultBackendDialTimeout = 10 * second"

definition parseDefaultWebSocketBufferSize :: int where "parseDefaultWebSocketBufferSize = 4096"
definition parseDefaultReadLimitBytes :: int where "parseDefaultReadLimitBytes = 16 * 2 ^ 20"

text \<open>The defaults \<open>NewHandler\<close> applies first; the standard logger is known as \<open>default\<close>.\<close>

definition applyHandlerDefaults :: "HandlerConfig \<Rightarrow> HandlerConfig" where
  [config_defs]: "applyHandlerDefaults cfg =
     (let cfg = (if hc_ReadBufferSize cfg = 0
                 then cfg\<lparr>hc_ReadBufferSize := parseDefaultWebSocketBufferSize\<rparr> else cfg);
          cfg = (if hc_WriteBufferSize cfg = 0
                 then cfg\<lparr>hc_WriteBufferSize := parseDefaultWebSocketBufferSize\<rparr> else cfg);
          cfg = (if hc_BackendDialTimeout cfg = 0
                 then cfg\<lparr>hc_BackendDialTimeout := parseDefaultBackendDialTimeout\<rparr> else cfg)
      in if hc_Logger cfg = None then cfg\<lparr>hc_Logger := Some ''default''\<rparr> else cfg)"

definition getHandlerReadLimitBytes :: "HandlerConfig \<Rightarrow> int" where
  [config_defs]: "getHandlerReadLimitBytes cfg =
     (if hc_ShouldDisableReadLimit cfg then 0
      else if hc_ReadLimitBytes cfg > 0 then hc_ReadLimitBytes cfg
      else parseDefaultReadLimitBytes)"

definition buildHandlerPingWriteTimeout :: "HandlerConfig \<Rightarrow> duration" where
  [config_defs]: "buildHandlerPingWriteTimeout cfg =
     (let writeTimeout = hc_PingInterval cfg;
          writeTimeout =
            (if hc_IdleTimeout cfg > 0 \<and> (writeTimeout \<le> 0 \<or> writeTimeout > hc_IdleTimeout cfg)
             then hc_IdleTimeout cfg else writeTimeout)
      in if writeTimeout \<le> 0 then second else writeTimeout)"

lemma handler_defaults_fields [simp]:
  "hc_ReadBufferSize (applyHandlerDefaults cfg) =
     (if hc_ReadBufferSize cfg = 0 then parseDefaultWebSocketBufferSize else hc_ReadBufferSize cfg)"
  "hc_WriteBufferSize (applyHandlerDefaults cfg) =
     (if hc_WriteBufferSize cfg = 0 then parseDefaultWebSocketBufferSize else hc_WriteBufferSize cfg)"
  "hc_BackendDialTimeout (applyHandlerDefaults cfg) =
     (if hc_BackendDialTimeout cfg = 0 then parseDefaultBackendDialTimeout
      else hc_BackendDialTimeout cfg)"
  "hc_Logger (applyHandlerDefaults cfg) \<noteq> None"
  by (simp_all add: applyHandlerDefaults_def Let_def)

lemma handler_defaults_frame [simp]:
  "hc_TargetAddress (applyHandlerDefaults cfg) = hc_TargetAddress cfg"
  "hc_CheckOrigin (applyHandlerDefaults cfg) = hc_CheckOrigin cfg"
  "hc_ReadLimitBytes (applyHandlerDefaults cfg) = hc_ReadLimitBytes cfg"
  "hc_ShouldDisableReadLimit (applyHandlerDefaults cfg) = hc_ShouldDisableReadLimit cfg"
  "hc_PingInterval (applyHandlerDefaults cfg) = hc_PingInterval cfg"
  "hc_IdleTimeout (applyHandlerDefaults cfg) = hc_IdleTimeout cfg"
  "hc_ShouldRequireLoopbackBackend (applyHandlerDefaults cfg) = hc_ShouldRequireLoopbackBackend cfg"
  "hc_MaxActiveConnections (applyHandlerDefaults cfg) = hc_MaxActiveConnections cfg"
  "hc_MaxConnectionsPerClient (applyHandlerDefaults cfg) = hc_MaxConnectionsPerClient cfg"
  "hc_MaxUpgradesPerClientPerMinute (applyHandlerDefaults cfg) = hc_MaxUpgradesPerClientPerMinute cfg"
  "hc_OnConnect (applyHandlerDefaults cfg) = hc_OnConnect cfg"
  "hc_OnDisconnect (applyHandlerDefaults cfg) = hc_OnDisconnect cfg"
  by (simp_all add: applyHandlerDefaults_def Let_def)

text \<open>Defaults never turn a valid configuration into an invalid one, nor repair an invalid one.\<close>

lemma handler_default_signs [simp]:
  "\<not> parseDefaultWebSocketBufferSize < 0" "\<not> parseDefaultBackendDialTimeout < 0"
  by (simp_all add: parseDefaultWebSocketBufferSize_def parseDefaultBackendDialTimeout_def second_def)

lemma handler_defaults_error [simp]:
  "getHandlerConfigError (applyHandlerDefaults cfg) = getHandlerConfigError cfg"
  by (simp add: getHandlerConfigError_def if_distribR)

section \<open>Buffer pools\<close>

text \<open>
  \<open>cacheWebSocketWriteBufferPools\<close> maps a size to its shared pool; pools are known by the order of
  their creation. A pool for a size outside the cacheable ones is fresh on every call.
\<close>

record pool_cache =
  cached_pools :: "int \<rightharpoonup> nat"
  pools_made :: nat

definition isCacheableWebSocketWriteBufferSize :: "int \<Rightarrow> bool" where
  "isCacheableWebSocketWriteBufferSize bufferSize \<longleftrightarrow>
     bufferSize \<in> {parseDefaultWebSocketBufferSize, 8 * 1024, 16 * 1024, 32 * 1024, 64 * 1024}"

definition buildWebSocketWriteBufferPool :: "pool_cache \<Rightarrow> int \<Rightarrow> pool_cache \<times> nat" where
  "buildWebSocketWriteBufferPool c bufferSize =
     (let bufferSize = (if bufferSize \<le> 0 then parseDefaultWebSocketBufferSize else bufferSize);
          fresh = pools_made c;
          made = c\<lparr>pools_made := Suc fresh\<rparr>
      in if \<not> isCacheableWebSocketWriteBufferSize bufferSize then (made, fresh)
         else case cached_pools c bufferSize of
           Some pool \<Rightarrow> (c, pool)
         | None \<Rightarrow> (made\<lparr>cached_pools := (cached_pools c)(bufferSize \<mapsto> fresh)\<rparr>, fresh))"

text \<open>The tunnel package's copy of the cache.\<close>

definition tunnel_isCacheableWebSocketWriteBufferSize :: "int \<Rightarrow> bool" where
  "tunnel_isCacheableWebSocketWriteBufferSize bufferSize \<longleftrightarrow>
     bufferSize \<in> {defaultWebSocketBufferSize, 8 * 1024, 16 * 1024, 32 * 1024, 64 * 1024}"

definition tunnel_buildWebSocketWriteBufferPool :: "pool_cache \<Rightarrow> int \<Rightarrow> pool_cache \<times> nat" where
  "tunnel_buildWebSocketWriteBufferPool c bufferSize =
     (let bufferSize = (if bufferSize \<le> 0 then defaultWebSocketBufferSize else bufferSize);
          fresh = pools_made c;
          made = c\<lparr>pools_made := Suc fresh\<rparr>
      in if \<not> tunnel_isCacheableWebSocketWriteBufferSize bufferSize then (made, fresh)
         else case cached_pools c bufferSize of
           Some pool \<Rightarrow> (c, pool)
         | None \<Rightarrow> (made\<lparr>cached_pools := (cached_pools c)(bufferSize \<mapsto> fresh)\<rparr>, fresh))"

lemma tunnel_pools_same:
  "tunnel_buildWebSocketWriteBufferPool = buildWebSocketWriteBufferPool"
  by (simp add: tunnel_buildWebSocketWriteBufferPool_def buildWebSocketWriteBufferPool_def fun_eq_iff
      tunnel_isCacheableWebSocketWriteBufferSize_def isCacheableWebSocketWriteBufferSize_def
      defaultWebSocketBufferSize_def parseDefaultWebSocketBufferSize_def)

text \<open>The cache holds at most the five cacheable sizes, each with a pool of its own.\<close>

definition pool_cache_ok :: "pool_cache \<Rightarrow> bool" where
  "pool_cache_ok c \<longleftrightarrow>
     (\<forall>s p. cached_pools c s = Some p \<longrightarrow> isCacheableWebSocketWriteBufferSize s \<and> p < pools_made c) \<and>
     inj_on (cached_pools c) (dom (cached_pools c))"

lemma pool_cache_ok_build:
  assumes ok: "pool_cache_ok c" and b: "buildWebSocketWriteBufferPool c n = (c', p)"
  shows "pool_cache_ok c'"
proof -
  let ?size = "if n \<le> 0 then parseDefaultWebSocketBufferSize else n"
  consider "c' = c" | "c' = c\<lparr>pools_made := Suc (pools_made c)\<rparr>"
    | "c' = c\<lparr>pools_made := Suc (pools_made c),
            cached_pools := (cached_pools c)(?size \<mapsto> pools_made c)\<rparr>"
      "isCacheableWebSocketWriteBufferSize ?size" "cached_pools c ?size = None"
    using b by (auto simp: buildWebSocketWriteBufferPool_def Let_def split: if_splits option.splits)
  then show ?thesis
  proof cases
    case 3
    from ok have new: "\<And>s. cached_pools c s \<noteq> Some (pools_made c)"
      unfolding pool_cache_ok_def by blast
    then have "inj_on ((cached_pools c)(?size \<mapsto> pools_made c)) (insert ?size (dom (cached_pools c)))"
      using ok 3(3) by (auto simp: pool_cache_ok_def inj_on_def domIff)
    moreover from ok have "\<And>s p. cached_pools c s = Some p \<Longrightarrow>
        isCacheableWebSocketWriteBufferSize s \<and> p < Suc (pools_made c)"
      unfolding pool_cache_ok_def by (meson less_Suc_eq)
    ultimately show ?thesis using 3 by (auto simp: pool_cache_ok_def)
  qed (use ok in \<open>auto simp: pool_cache_ok_def less_Suc_eq\<close>)
qed

text \<open>
  \<open>reverseProxyBufferPool\<close>: a value in the pool is an array of the fixed size, a byte slice of some
  capacity or anything else; \<open>None\<close> is an empty pool. \<open>Get\<close> yields the length of the buffer and
  whether it is the pooled storage, \<open>Put\<close> what goes into the pool.
\<close>

definition parseReverseProxyBufferSize :: int where "parseReverseProxyBufferSize = 32 * 1024"

datatype pooled_buffer = SizedArray | ByteSlice int | OtherValue

definition proxy_pool_Get :: "pooled_buffer option \<Rightarrow> int \<times> bool" where
  "proxy_pool_Get pooled =
     (case pooled of
        None \<Rightarrow> (parseReverseProxyBufferSize, False)
      | Some SizedArray \<Rightarrow> (parseReverseProxyBufferSize, True)
      | Some (ByteSlice capacity) \<Rightarrow>
          if capacity < parseReverseProxyBufferSize then (parseReverseProxyBufferSize, False)
          else (parseReverseProxyBufferSize, True)
      | Some OtherValue \<Rightarrow> (parseReverseProxyBufferSize, False))"

definition proxy_pool_Put :: "int \<Rightarrow> pooled_buffer option" where
  "proxy_pool_Put capacity = (if capacity < parseReverseProxyBufferSize then None else Some SizedArray)"

text \<open>Whatever was put into the pool and is still there is reused at full length.\<close>

lemma proxy_pool_roundtrip:
  "proxy_pool_Put capacity = Some b \<Longrightarrow>
   parseReverseProxyBufferSize \<le> capacity \<and> proxy_pool_Get (Some b) = (parseReverseProxyBufferSize, True)"
  by (auto simp: proxy_pool_Put_def proxy_pool_Get_def split: if_splits)

text \<open>A configuration with a rate limit and everything else at its zero value, for examples.\<close>

definition small_handler_config :: "int \<Rightarrow> HandlerConfig" where
  "small_handler_config n =
     \<lparr>hc_TargetAddress = ''localhost:50051'', hc_CheckOrigin = None, hc_ReadBufferSize = 0,
      hc_WriteBufferSize = 0, hc_ReadLimitBytes = 0, hc_ShouldDisableReadLimit = False,
      hc_PingInterval = 0, hc_IdleTimeout = 0, hc_BackendDialTimeout = 0,
      hc_ShouldRequireLoopbackBackend = False, hc_MaxActiveConnections = 0,
      hc_MaxConnectionsPerClient = 0, hc_MaxUpgradesPerClientPerMinute = n,
      hc_ShouldEnableCompression = False, hc_Logger = None, hc_OnConnect = None,
      hc_OnDisconnect = None\<rparr>"

end
