(* ===== verification/Bridge_Keepalive.thy ===== *)
theory Bridge_Keepalive
  imports Handler_Config
begin

text \<open>
  Connection settings and keepalive of an upgraded websocket: \<open>applyBridgeConnectionSettings\<close> of
  \<open>pkg/grpctunnel/server.go\<close>, whose goroutine pings and watches for silence, and
  \<open>applyHandlerConnectionSettings\<close> of \<open>pkg/bridge/bridge.go\<close>, which pings and leaves silence to the
  read deadline. The goroutine's \<open>select\<close> loop is a deterministic step per event; an execution is
  a sequence of events with times that do not decrease.
\<close>

section \<open>The tunnel server's keepalive\<close>

text \<open>
  \<open>ka_idleDue\<close> is when the idle timer fires next, \<open>ka_closed\<close> whether the goroutine closed the
  socket; \<open>ka_running\<close> is false when there is no goroutine or it returned. The read limit and read
  deadline are those set on the websocket.
\<close>

record keepalive =
  ka_readLimit :: "int option"
  ka_readDeadline :: "instant option"
  ka_lastPong :: instant
  ka_idleDue :: "instant option"
  ka_running :: bool
  ka_closed :: bool

text \<open>
  The instants are those of the three clock readings: for \<open>lastPong\<close>, for the read deadline and in
  the goroutine when it creates its timer. The result is \<open>None\<close> if setting the deadline fails.
\<close>

definition applyBridgeConnectionSettings ::
    "BridgeConfig \<Rightarrow> bool \<Rightarrow> instant \<Rightarrow> instant \<Rightarrow> instant \<Rightarrow> keepalive option" where
  [handler_defs]: "applyBridgeConnectionSettings cfg deadline_ok t1 t2 t3 =
     (let limit = getBridgeReadLimitBytes cfg;
          readLimit = (if limit > 0 then Some limit else None);
          idle = IdleTimeout cfg
      in if idle > 0 \<and> \<not> deadline_ok then None
         else Some \<lparr>ka_readLimit = readLimit,
                    ka_readDeadline = (if idle > 0 then Some (time_Add t2 idle) else None),
                    ka_lastPong = (if idle > 0 then t1 else 0),
                    ka_idleDue = (if idle > 0 then Some (time_Add t3 idle) else None),
                    ka_running = (\<not> (PingInterval cfg \<le> 0 \<and> idle \<le> 0)),
                    ka_closed = False\<rparr>)"

text \<open>
  A pong runs the pong handler, which exists only with an idle timeout; a data frame runs nothing.
  A ping tick writes a ping, which may fail. The idle timer fires when it is due.
\<close>

datatype ka_event =
    PongReceived instant
  | DataReceived instant
  | PingTick instant bool
  | IdleFires instant
  | StopKeepalive instant

primrec event_time :: "ka_event \<Rightarrow> instant" where
  "event_time (PongReceived t) = t"
| "event_time (DataReceived t) = t"
| "event_time (PingTick t ok) = t"
| "event_time (IdleFires t) = t"
| "event_time (StopKeepalive t) = t"

fun ka_step :: "BridgeConfig \<Rightarrow> ka_event \<Rightarrow> keepalive \<Rightarrow> keepalive" where
  "ka_step cfg (PongReceived t) s =
     (if IdleTimeout cfg > 0
      then s\<lparr>ka_lastPong := t, ka_readDeadline := Some (time_Add t (IdleTimeout cfg))\<rparr> else s)"
| "ka_step cfg (DataReceived t) s = s"
| "ka_step cfg (PingTick t ok) s =
     (if ka_running s \<and> PingInterval cfg > 0 \<and> \<not> ok
      then s\<lparr>ka_closed := True, ka_running := False\<rparr> else s)"
| "ka_step cfg (IdleFires t) s =
     (case ka_idleDue s of
        None \<Rightarrow> s
      | Some due \<Rightarrow>
          if \<not> ka_running s \<or> t < due then s
          else (let remaining = IdleTimeout cfg - time_Sub t (ka_lastPong s) in
                if remaining \<le> 0 then s\<lparr>ka_closed := True, ka_running := False\<rparr>
                else s\<lparr>ka_idleDue := Some (time_Add t remaining)\<rparr>))"
| "ka_step cfg (StopKeepalive t) s = s\<lparr>ka_running := False\<rparr>"

definition ka_run :: "BridgeConfig \<Rightarrow> keepalive \<Rightarrow> ka_event list \<Rightarrow> keepalive" where
  "ka_run cfg s evs = fold (ka_step cfg) evs s"

fun times_from :: "instant \<Rightarrow> ka_event list \<Rightarrow> bool" where
  "times_from t [] = True"
| "times_from t (e # es) = (t \<le> event_time e \<and> times_from (event_time e) es)"

lemma times_from_append:
  "times_from t (es @ [e]) \<longleftrightarrow>
     times_from t es \<and> (case es of [] \<Rightarrow> t | _ \<Rightarrow> event_time (last es)) \<le> event_time e"
  by (induction t es rule: times_from.induct) (auto split: list.splits)

lemma times_from_last: "times_from t (es @ [e]) \<Longrightarrow> t \<le> event_time e"
  by (induction t es rule: times_from.induct) auto

lemma times_from_bound: "times_from t (es @ [e]) \<Longrightarrow> x \<in> set es \<Longrightarrow> event_time x \<le> event_time e"
proof (induction t es rule: times_from.induct)
  case (2 t y es)
  then show ?case using times_from_last [of "event_time y" es e] by auto
qed simp

section \<open>The invariant\<close>

text \<open>
  Of the pongs received since the socket was set up, \<open>ka_lastPong\<close> is the latest, and while the
  goroutine runs its timer is due no later than an idle timeout after that pong (or after the
  goroutine's own start).
\<close>

definition pong_times :: "ka_event list \<Rightarrow> instant set" where
  "pong_times evs = {t. PongReceived t \<in> set evs}"

lemma pong_times_snoc [simp]:
  "pong_times (evs @ [PongReceived t]) = insert t (pong_times evs)"
  "pong_times (evs @ [DataReceived t]) = pong_times evs"
  "pong_times (evs @ [PingTick t ok]) = pong_times evs"
  "pong_times (evs @ [IdleFires t]) = pong_times evs"
  "pong_times (evs @ [StopKeepalive t]) = pong_times evs"
  by (auto simp: pong_times_def)

definition ka_inv :: "BridgeConfig \<Rightarrow> instant \<Rightarrow> instant \<Rightarrow> ka_event list \<Rightarrow> keepalive \<Rightarrow> bool" where
  "ka_inv cfg t1 t3 evs s \<longleftrightarrow>
     ka_lastPong s \<in> insert t1 (pong_times evs) \<and>
     (\<forall>p \<in> pong_times evs. p \<le> ka_lastPong s) \<and> t1 \<le> ka_lastPong s \<and>
     (ka_running s \<longrightarrow> (\<exists>due. ka_idleDue s = Some due \<and>
        due \<le> max t3 (ka_lastPong s) + IdleTimeout cfg))"

lemma ka_run_snoc [simp]: "ka_run cfg s (evs @ [e]) = ka_step cfg e (ka_run cfg s evs)"
  and ka_run_Nil [simp]: "ka_run cfg s [] = s"
  by (simp_all add: ka_run_def)

lemma ka_inv_start:
  assumes "applyBridgeConnectionSettings cfg ok t1 t2 t3 = Some s" and "0 < IdleTimeout cfg"
  shows "ka_inv cfg t1 t3 [] s"
  using assms by (auto simp: applyBridgeConnectionSettings_def Let_def ka_inv_def pong_times_def
      time_Add_def split: if_splits)

text \<open>
  Durations since the last pong fit the 64-bit range: a session is younger than 292 years.
\<close>

definition sane_clock :: "instant \<Rightarrow> ka_event list \<Rightarrow> bool" where
  "sane_clock t1 evs \<longleftrightarrow> (\<forall>e \<in> set evs. event_time e - t1 \<le> max_duration)"

lemma ka_inv_step:
  assumes inv: "ka_inv cfg t1 t3 evs s" and idle: "0 < IdleTimeout cfg"
    and later: "\<And>p. p \<in> insert t1 (pong_times evs) \<Longrightarrow> p \<le> event_time e"
    and sane: "event_time e - t1 \<le> max_duration"
  shows "ka_inv cfg t1 t3 (evs @ [e]) (ka_step cfg e s)"
proof (cases e)
  case (PongReceived t)
  with assms show ?thesis by (fastforce simp: ka_inv_def)
next
  case (IdleFires t)
  from inv later IdleFires have pong: "ka_lastPong s \<le> t" "t1 \<le> ka_lastPong s"
    by (auto simp: ka_inv_def)
  with sane IdleFires have "time_Sub t (ka_lastPong s) = t - ka_lastPong s"
    by (simp add: time_Sub_def min_duration_def)
  with inv IdleFires show ?thesis
    by (auto simp: ka_inv_def Let_def time_Add_def split: option.split)
qed (use inv in \<open>auto simp: ka_inv_def\<close>)

lemma ka_inv_run:
  assumes "applyBridgeConnectionSettings cfg ok t1 t2 t3 = Some s" and "0 < IdleTimeout cfg"
    and "times_from t1 evs" and "sane_clock t1 evs"
  shows "ka_inv cfg t1 t3 evs (ka_run cfg s evs)"
  using assms(3,4)
proof (induction evs rule: rev_induct)
  case Nil
  with ka_inv_start [OF assms(1,2)] show ?case by simp
next
  case (snoc e evs)
  from snoc.prems have times: "times_from t1 evs" and sane: "sane_clock t1 evs"
    "event_time e - t1 \<le> max_duration"
    by (auto simp: times_from_append sane_clock_def)
  have "p \<le> event_time e" if "p \<in> insert t1 (pong_times evs)" for p
  proof (cases "p = t1")
    case True
    with times_from_last [OF snoc.prems(1)] show ?thesis by simp
  next
    case False
    with that have "PongReceived p \<in> set evs" by (simp add: pong_times_def)
    from times_from_bound [OF snoc.prems(1) this] show ?thesis by simp
  qed
  from ka_inv_step [OF snoc.IH [OF times sane(1)] assms(2) this sane(2)] show ?case by simp
qed



text \<open>
  Data frames do not count as activity: removing every data frame from an execution changes
  neither the read deadline nor the idle timer nor whether the session is closed.
\<close>

theorem data_frames_do_not_extend_deadline:
  "ka_run cfg s evs = ka_run cfg s (filter (\<lambda>e. \<forall>t. e \<noteq> DataReceived t) evs)"
proof (induction evs rule: rev_induct)
  case (snoc e evs)
  then show ?case by (cases e) simp_all
qed simp

section \<open>The stand-alone proxy's keepalive\<close>

text \<open>
  \<open>applyHandlerConnectionSettings\<close> has no idle timer: its goroutine only pings, and a silent peer is
  found by the read deadline, which the pong handler moves.
\<close>

record handler_keepalive =
  hk_readLimit :: "int option"
  hk_readDeadline :: "instant option"
  hk_running :: bool
  hk_closed :: bool

definition applyHandlerConnectionSettings ::
    "HandlerConfig \<Rightarrow> bool \<Rightarrow> instant \<Rightarrow> handler_keepalive option" where
  [handler_defs]: "applyHandlerConnectionSettings cfg deadline_ok t =
     (let limit = getHandlerReadLimitBytes cfg;
          readLimit = (if limit > 0 then Some limit else None);
          idle = hc_IdleTimeout cfg
      in if idle > 0 \<and> \<not> deadline_ok then None
         else Some \<lparr>hk_readLimit = readLimit,
                    hk_readDeadline = (if idle > 0 then Some (time_Add t idle) else None),
                    hk_running = (\<not> hc_PingInterval cfg \<le> 0),
                    hk_closed = False\<rparr>)"

fun hk_step :: "HandlerConfig \<Rightarrow> ka_event \<Rightarrow> handler_keepalive \<Rightarrow> handler_keepalive" where
  "hk_step cfg (PongReceived t) s =
     (if hc_IdleTimeout cfg > 0 then s\<lparr>hk_readDeadline := Some (time_Add t (hc_IdleTimeout cfg))\<rparr> else s)"
| "hk_step cfg (PingTick t ok) s =
     (if hk_running s \<and> \<not> ok then s\<lparr>hk_closed := True, hk_running := False\<rparr> else s)"
| "hk_step cfg (StopKeepalive t) s = s\<lparr>hk_running := False\<rparr>"
| "hk_step cfg (DataReceived t) s = s"
| "hk_step cfg (IdleFires t) s = s"

definition hk_run :: "HandlerConfig \<Rightarrow> handler_keepalive \<Rightarrow> ka_event list \<Rightarrow> handler_keepalive" where
  "hk_run cfg s evs = fold (hk_step cfg) evs s"

text \<open>The last pong of an execution, or the instant at which the settings were applied.\<close>

fun last_pong :: "instant \<Rightarrow> ka_event list \<Rightarrow> instant" where
  "last_pong t [] = t"
| "last_pong t (e # es) = last_pong (case e of PongReceived p \<Rightarrow> p | _ \<Rightarrow> t) es"

lemma last_pong_snoc:
  "last_pong t (es @ [e]) = (case e of PongReceived p \<Rightarrow> p | _ \<Rightarrow> last_pong t es)"
  by (induction t es rule: last_pong.induct) (auto split: ka_event.split)

text \<open>
  The read deadline in both packages: with an idle timeout configured, the websocket's read
  deadline is at any time one idle timeout after the last pong (or after the set-up), and without
  one it is never set.
\<close>

theorem read_deadline_follows_pongs:
  assumes "applyBridgeConnectionSettings cfg True t1 t2 t3 = Some s"
    and "applyHandlerConnectionSettings hcfg True t2 = Some h"
  shows "ka_readDeadline (ka_run cfg s evs) =
      (if 0 < IdleTimeout cfg then Some (last_pong t2 evs + IdleTimeout cfg) else None) \<and>
    hk_readDeadline (hk_run hcfg h evs) =
      (if 0 < hc_IdleTimeout hcfg then Some (last_pong t2 evs + hc_IdleTimeout hcfg) else None)"
proof (induction evs rule: rev_induct)
  case Nil
  from assms show ?case
    by (auto simp: applyBridgeConnectionSettings_def applyHandlerConnectionSettings_def hk_run_def
        time_Add_def Let_def split: if_splits)
next
  case (snoc e evs)
  then show ?case
    by (cases e) (auto simp: hk_run_def last_pong_snoc time_Add_def Let_def split: option.split)
qed

section \<open>Examples\<close>

text \<open>A session with the default keepalive: one pong after 30 seconds, then silence.\<close>

abbreviation silent_session :: "ka_event list" where
  "silent_session \<equiv> [PongReceived (31 * second), IdleFires (121 * second)]"

abbreviation default_run_config :: BridgeConfig where
  "default_run_config \<equiv> applyBridgeKeepaliveDefaults (capped_config 0 0 0)"

abbreviation fresh_keepalive :: keepalive where
  "fresh_keepalive \<equiv>
     the (applyBridgeConnectionSettings default_run_config True second second second)"

lemma default_run_settings [simp]:
  "IdleTimeout default_run_config = 120 * second" "PingInterval default_run_config = 30 * second"
  "ReadLimitBytes default_run_config = 0" "\<not> ShouldDisableReadLimit default_run_config"
  by (simp_all add: config_defs buildServerOptions_def defaultServerOptions_def
      defaultBridgePingInterval_def defaultBridgeIdleTimeout_def)

lemma fresh_keepalive_Some:
  "applyBridgeConnectionSettings default_run_config True second second second = Some fresh_keepalive"
  by (simp add: applyBridgeConnectionSettings_def Let_def)

lemmas keepalive_run =
  applyBridgeConnectionSettings_def getBridgeReadLimitBytes_def ka_run_def time_Add_def time_Sub_def
  max_duration_def min_duration_def second_def Let_def



theorem read_deadline_follows_pongs_witness:
  "ka_readDeadline (ka_run default_run_config fresh_keepalive silent_session) = Some (151 * second)"
proof -
  have "applyHandlerConnectionSettings (small_handler_config 0) True second =
    Some (the (applyHandlerConnectionSettings (small_handler_config 0) True second))"
    by (simp add: applyHandlerConnectionSettings_def Let_def)
  from read_deadline_follows_pongs [OF fresh_keepalive_Some this, of silent_session]
  show ?thesis by (simp add: second_def)
qed

end
