(* ===== verification/Abuse_Control.thy ===== *)
theory Abuse_Control
  imports Guard_Interface Bridge_Config
begin

text \<open>
  The abuse guard of \<open>pkg/grpctunnel/abuse_control.go\<close>: \<open>bridgeAbuseGuard\<close>, reservation with the
  upgrade-rate window and the two connection caps, the sweep of expired windows and the release
  of a slot. A nil guard is \<open>None\<close>. The guard is interpreted as a \<open>connection_guard\<close>; the rate
  limiter's lemmas follow, up to the bound on admissions in any minute.
\<close>

section \<open>The guard\<close>

record bridgeAbuseGuard =
  setConfig :: BridgeConfig
  getActiveConnections :: int
  storeClientConnections :: "string \<rightharpoonup> int"
  storeClientUpgradeAttempts :: "string \<rightharpoonup> rate_window"
  lastWindowSweepAt :: instant

definition buildBridgeAbuseGuard :: "BridgeConfig \<Rightarrow> bridgeAbuseGuard option" where
  "buildBridgeAbuseGuard cfg =
     Some \<lparr>setConfig = cfg, getActiveConnections = 0, storeClientConnections = Map.empty,
           storeClientUpgradeAttempts = Map.empty, lastWindowSweepAt = 0\<rparr>"

definition sweepExpiredUpgradeWindows :: "bridgeAbuseGuard \<Rightarrow> instant \<Rightarrow> bridgeAbuseGuard" where
  [guard_defs]: "sweepExpiredUpgradeWindows g now =
     (if time_Sub now (lastWindowSweepAt g) < bridgeAbuseWindowDuration then g
      else g\<lparr>lastWindowSweepAt := now,
             storeClientUpgradeAttempts :=
               (\<lambda>clientKey. case storeClientUpgradeAttempts g clientKey of
                  None \<Rightarrow> None
                | Some window \<Rightarrow>
                    if time_Sub now (getWindowStartedAt window) \<ge> bridgeAbuseWindowDuration
                    then None else Some window)\<rparr>)"

text \<open>The part of a reservation behind the rate limit: the two caps, then the slot.\<close>

definition reserve_slot :: "bridgeAbuseGuard \<Rightarrow> string \<Rightarrow> bridgeAbuseGuard \<times> guard_error option" where
  [guard_defs]: "reserve_slot g clientKey =
     (if MaxActiveConnections (setConfig g) > 0 \<and>
         getActiveConnections g \<ge> MaxActiveConnections (setConfig g)
      then (g, Some ActiveCapExceeded)
      else
        (let clientConnections = default_to 0 (storeClientConnections g clientKey) in
         if MaxConnectionsPerClient (setConfig g) > 0 \<and>
            clientConnections \<ge> MaxConnectionsPerClient (setConfig g)
         then (g, Some (ClientCapExceeded clientKey))
         else (g\<lparr>getActiveConnections := getActiveConnections g + 1,
                 storeClientConnections :=
                   (storeClientConnections g)(clientKey \<mapsto> clientConnections + 1)\<rparr>, None)))"

definition reserve_locked ::
    "bridgeAbuseGuard \<Rightarrow> string \<Rightarrow> instant \<Rightarrow> bridgeAbuseGuard \<times> guard_error option" where
  [guard_defs]: "reserve_locked g clientKey now =
     (if MaxUpgradesPerClientPerMinute (setConfig g) > 0 then
        (let g = sweepExpiredUpgradeWindows g now in
         case fixed_window_admit (MaxUpgradesPerClientPerMinute (setConfig g))
                (storeClientUpgradeAttempts g) clientKey now of
           Inl e \<Rightarrow> (g, Some e)
         | Inr attempts \<Rightarrow> reserve_slot (g\<lparr>storeClientUpgradeAttempts := attempts\<rparr>) clientKey)
      else reserve_slot g clientKey)"

definition reserveBridgeConnection ::
    "bridgeAbuseGuard option \<Rightarrow> http_request option \<Rightarrow> instant \<Rightarrow>
     bridgeAbuseGuard option \<times> guard_error option" where
  [guard_defs]: "reserveBridgeConnection guard r now =
     (case guard of
        None \<Rightarrow> (None, None)
      | Some g \<Rightarrow>
          (case reserve_locked g (slot_key (buildBridgeClientKey r)) now of
             (g', e) \<Rightarrow> (Some g', e)))"

definition clearBridgeConnection ::
    "bridgeAbuseGuard option \<Rightarrow> http_request option \<Rightarrow> bridgeAbuseGuard option" where
  [guard_defs]: "clearBridgeConnection guard r =
     (case guard of
        None \<Rightarrow> None
      | Some g \<Rightarrow>
          (let clientKey = slot_key (buildBridgeClientKey r);
               g = (if getActiveConnections g > 0
                    then g\<lparr>getActiveConnections := getActiveConnections g - 1\<rparr> else g);
               clientConnections = default_to 0 (storeClientConnections g clientKey)
           in if clientConnections \<le> 1
              then Some (g\<lparr>storeClientConnections := (storeClientConnections g)(clientKey := None)\<rparr>)
              else Some (g\<lparr>storeClientConnections :=
                     (storeClientConnections g)(clientKey \<mapsto> clientConnections - 1)\<rparr>)))"

section \<open>The guard as a connection guard\<close>

definition guard_active :: "bridgeAbuseGuard option \<Rightarrow> int" where
  "guard_active guard = (case guard of None \<Rightarrow> 0 | Some g \<Rightarrow> getActiveConnections g)"

definition guard_held :: "bridgeAbuseGuard option \<Rightarrow> string \<Rightarrow> int" where
  "guard_held guard k =
     (case guard of None \<Rightarrow> 0 | Some g \<Rightarrow> default_to 0 (storeClientConnections g k))"

definition guard_max_active :: "bridgeAbuseGuard option \<Rightarrow> int" where
  "guard_max_active guard =
     (case guard of None \<Rightarrow> 0 | Some g \<Rightarrow> MaxActiveConnections (setConfig g))"

definition guard_max_client :: "bridgeAbuseGuard option \<Rightarrow> int" where
  "guard_max_client guard =
     (case guard of None \<Rightarrow> 0 | Some g \<Rightarrow> MaxConnectionsPerClient (setConfig g))"

lemma sweep_frame [simp]:
  "setConfig (sweepExpiredUpgradeWindows g now) = setConfig g"
  "getActiveConnections (sweepExpiredUpgradeWindows g now) = getActiveConnections g"
  "storeClientConnections (sweepExpiredUpgradeWindows g now) = storeClientConnections g"
  by (simp_all add: sweepExpiredUpgradeWindows_def)

lemma reserve_slot_config [simp]: "setConfig (fst (reserve_slot g k)) = setConfig g"
  by (simp add: reserve_slot_def Let_def)

lemma reserve_locked_config: "setConfig (fst (reserve_locked g k now)) = setConfig g"
  by (simp add: reserve_locked_def Let_def split: sum.split)

text \<open>
  A reservation is the rate limiter followed by the slot: either the limiter refuses and only the
  windows and the sweep time change, or \<open>reserve_slot\<close> decides on the same connection counters.
\<close>

lemma reserve_locked_cases:
  obtains (rate) g' e where "reserve_locked g k now = (g', Some e)" "rate_refused (Some e)"
      "setConfig g' = setConfig g" "getActiveConnections g' = getActiveConnections g"
      "storeClientConnections g' = storeClientConnections g"
  | (slot) g' where "reserve_locked g k now = reserve_slot g' k"
      "setConfig g' = setConfig g" "getActiveConnections g' = getActiveConnections g"
      "storeClientConnections g' = storeClientConnections g"
proof (cases "MaxUpgradesPerClientPerMinute (setConfig g) > 0")
  case False
  then show thesis by (intro slot [of g]) (simp_all add: reserve_locked_def)
next
  case True
  let ?g = "sweepExpiredUpgradeWindows g now"
  show thesis
  proof (cases "fixed_window_admit (MaxUpgradesPerClientPerMinute (setConfig ?g))
                  (storeClientUpgradeAttempts ?g) k now")
    case (Inl e)
    then have "rate_refused (Some e)"
      by (auto simp: fixed_window_admit_def Let_def split: if_splits)
    with True Inl show thesis by (intro rate [of ?g e]) (simp_all add: reserve_locked_def Let_def)
  next
    case (Inr att)
    with True show thesis
      by (intro slot [of "?g\<lparr>storeClientUpgradeAttempts := att\<rparr>"])
         (simp_all add: reserve_locked_def Let_def)
  qed
qed

lemmas guard_views =
  guard_active_def guard_held_def guard_max_active_def guard_max_client_def fun_eq_iff

lemma guard_reserve_ok:
  "guard \<noteq> None \<Longrightarrow> reserveBridgeConnection guard r t = (guard', None) \<Longrightarrow>
   guard' \<noteq> None \<and> guard_active guard' = guard_active guard + 1 \<and>
   guard_held guard' = (guard_held guard)(slot_key (buildBridgeClientKey r) :=
     guard_held guard (slot_key (buildBridgeClientKey r)) + 1) \<and>
   (0 < guard_max_active guard \<longrightarrow> guard_active guard < guard_max_active guard) \<and>
   (0 < guard_max_client guard \<longrightarrow>
      guard_held guard (slot_key (buildBridgeClientKey r)) < guard_max_client guard)"
  by (cases guard; cases rule: reserve_locked_cases [of "the guard" "slot_key (buildBridgeClientKey r)" t])
     (auto simp: reserveBridgeConnection_def reserve_slot_def guard_views Let_def split: if_splits)

lemma guard_reserve_refused:
  "guard \<noteq> None \<Longrightarrow> reserveBridgeConnection guard r t = (guard', Some e) \<Longrightarrow>
   guard' \<noteq> None \<and> guard_active guard' = guard_active guard \<and> guard_held guard' = guard_held guard"
  by (cases guard; cases rule: reserve_locked_cases [of "the guard" "slot_key (buildBridgeClientKey r)" t])
     (auto simp: reserveBridgeConnection_def reserve_slot_def guard_views Let_def split: if_splits)

lemma guard_reserve_caps:
  "reserveBridgeConnection guard r t = (guard', res) \<Longrightarrow>
   guard_max_active guard' = guard_max_active guard \<and> guard_max_client guard' = guard_max_client guard"
  using reserve_locked_config [of "the guard" "slot_key (buildBridgeClientKey r)" t]
  by (cases guard) (auto simp: reserveBridgeConnection_def guard_views split: prod.splits)

lemma guard_release_held:
  "guard \<noteq> None \<Longrightarrow> 0 < guard_active guard \<Longrightarrow>
   0 < guard_held guard (slot_key (buildBridgeClientKey r)) \<Longrightarrow>
   clearBridgeConnection guard r \<noteq> None \<and>
   guard_active (clearBridgeConnection guard r) = guard_active guard - 1 \<and>
   guard_held (clearBridgeConnection guard r) =
     (guard_held guard)(slot_key (buildBridgeClientKey r) :=
        guard_held guard (slot_key (buildBridgeClientKey r)) - 1)"
  by (cases guard) (auto simp: clearBridgeConnection_def guard_views Let_def)

lemma guard_release_caps:
  "guard_max_active (clearBridgeConnection guard r) = guard_max_active guard \<and>
   guard_max_client (clearBridgeConnection guard r) = guard_max_client guard"
  by (cases guard) (auto simp: clearBridgeConnection_def guard_views Let_def)

interpretation tunnel_guard: connection_guard reserveBridgeConnection clearBridgeConnection
  "\<lambda>g. g \<noteq> None" guard_active guard_held guard_max_active guard_max_client
proof (unfold_locales, goal_cases)
  case (1 g r t g')
  then show ?case using guard_reserve_ok [of g r t g'] by blast
next
  case (2 g r t g' e)
  then show ?case by (rule guard_reserve_refused)
next
  case (3 g r t g')
  then show ?case using guard_reserve_ok [of g r t g'] by blast
next
  case (4 g r t g' res)
  then show ?case using guard_reserve_caps by blast
next
  case (5 g r)
  then show ?case by (rule guard_release_held)
next
  case (6 g r)
  show ?case by (rule guard_release_caps)
qed

lemma fresh_guard [simp]:
  "buildBridgeAbuseGuard cfg \<noteq> None" "guard_active (buildBridgeAbuseGuard cfg) = 0"
  "guard_held (buildBridgeAbuseGuard cfg) k = 0"
  "guard_max_active (buildBridgeAbuseGuard cfg) = MaxActiveConnections cfg"
  "guard_max_client (buildBridgeAbuseGuard cfg) = MaxConnectionsPerClient cfg"
  by (simp_all add: buildBridgeAbuseGuard_def guard_views)

section \<open>The guard as a rate limiter\<close>

definition guard_window :: "bridgeAbuseGuard option \<Rightarrow> string \<Rightarrow> instant \<Rightarrow> rate_window option" where
  "guard_window guard k t =
     (case guard of None \<Rightarrow> None | Some g \<Rightarrow> current_window (storeClientUpgradeAttempts g) k t)"

definition guard_limit :: "bridgeAbuseGuard option \<Rightarrow> int" where
  "guard_limit guard =
     (case guard of None \<Rightarrow> 0 | Some g \<Rightarrow> MaxUpgradesPerClientPerMinute (setConfig g))"

lemma guard_window_Some [simp]:
  "guard_window (Some g) k = current_window (storeClientUpgradeAttempts g) k"
  by (simp add: guard_window_def fun_eq_iff)

text \<open>Sweeping at an instant hides nothing from later instants: it only drops windows that ran out.\<close>

lemma sweep_current_window:
  "now \<le> t \<Longrightarrow>
   current_window (storeClientUpgradeAttempts (sweepExpiredUpgradeWindows g now)) k t =
   current_window (storeClientUpgradeAttempts g) k t"
  by (auto simp: sweepExpiredUpgradeWindows_def current_window_def split: option.split)

lemma reserve_slot_windows [simp]:
  "storeClientUpgradeAttempts (fst (reserve_slot g k)) = storeClientUpgradeAttempts g"
  "lastWindowSweepAt (fst (reserve_slot g k)) = lastWindowSweepAt g"
  "\<not> rate_refused (snd (reserve_slot g k))"
  by (simp_all add: reserve_slot_def Let_def)

lemma current_window_running:
  "T \<le> t \<Longrightarrow> current_window att k t =
     (case current_window att k T of None \<Rightarrow> None | Some w \<Rightarrow> running w t)"
  by (auto simp: current_window_def running_def split: option.split)

lemma current_window_upd [simp]: "current_window (att(k \<mapsto> w)) k t = running w t"
  by (simp add: current_window_def running_def)

lemma current_window_upd_other [simp]:
  "k \<noteq> k' \<Longrightarrow> current_window (att(k' \<mapsto> w)) k t = current_window att k t"
  by (simp add: current_window_def)

text \<open>One block of admission code against the limiter's law, for any way of storing the windows.\<close>

lemma fixed_window_limiter_step:
  assumes "0 < n"
  shows "case fixed_window_admit n att k t of
      Inl e \<Rightarrow> limiter_step n k t (current_window att k t) (Some e) (current_window att k)
    | Inr att' \<Rightarrow> \<not> rate_refused res \<longrightarrow>
        limiter_step n k t (current_window att k t) res (current_window att' k)"
proof (cases "current_window att k t")
  case None
  with assms show ?thesis by (simp add: fixed_window_admit_current limiter_step_def)
next
  case (Some w)
  with assms current_window_running [of t _ att k] show ?thesis
    by (auto simp: fixed_window_admit_current limiter_step_def)
qed

lemma fixed_window_admit_other:
  "fixed_window_admit n att k t = Inr att' \<Longrightarrow> k' \<noteq> k \<Longrightarrow> att' k' = att k'"
  by (auto simp: fixed_window_admit_def Let_def split: if_splits)

lemma reserve_locked_window:
  assumes n: "0 < MaxUpgradesPerClientPerMinute (setConfig g)" and res: "reserve_locked g k t = (g', e)"
  shows "limiter_step (MaxUpgradesPerClientPerMinute (setConfig g)) k t
      (current_window (storeClientUpgradeAttempts g) k t) e
      (current_window (storeClientUpgradeAttempts g') k)"
    and "k' \<noteq> k \<Longrightarrow> t \<le> t' \<Longrightarrow>
      current_window (storeClientUpgradeAttempts g') k' t' =
      current_window (storeClientUpgradeAttempts g) k' t'"
proof -
  let ?n = "MaxUpgradesPerClientPerMinute (setConfig g)" and ?h = "sweepExpiredUpgradeWindows g t"
  let ?att = "storeClientUpgradeAttempts ?h"
  have here: "current_window ?att k t = current_window (storeClientUpgradeAttempts g) k t"
    by (simp add: sweep_current_window)
  note step = fixed_window_limiter_step [OF n, where att = ?att and k = k and t = t and res = e]
  have both: "limiter_step ?n k t (current_window ?att k t) e
        (current_window (storeClientUpgradeAttempts g') k) \<and>
     (k' \<noteq> k \<longrightarrow> storeClientUpgradeAttempts g' k' = ?att k')"
  proof (cases "fixed_window_admit ?n ?att k t")
    case (Inl e')
    with n res step show ?thesis by (simp add: reserve_locked_def Let_def)
  next
    case (Inr att')
    with n res have r: "reserve_slot (?h\<lparr>storeClientUpgradeAttempts := att'\<rparr>) k = (g', e)"
      by (simp add: reserve_locked_def Let_def)
    then have "storeClientUpgradeAttempts g' = att'" and "\<not> rate_refused e"
      using reserve_slot_windows [of "?h\<lparr>storeClientUpgradeAttempts := att'\<rparr>" k] by simp_all
    with Inr step fixed_window_admit_other [OF Inr] show ?thesis by simp
  qed
  from both here show "limiter_step ?n k t (current_window (storeClientUpgradeAttempts g) k t) e
      (current_window (storeClientUpgradeAttempts g') k)" by simp
  assume "k' \<noteq> k" and "t \<le> t'"
  with both have "current_window (storeClientUpgradeAttempts g') k' t' = current_window ?att k' t'"
    by (simp add: current_window_def)
  with \<open>t \<le> t'\<close> show "current_window (storeClientUpgradeAttempts g') k' t' =
      current_window (storeClientUpgradeAttempts g) k' t'"
    by (simp add: sweep_current_window)
qed

lemma clear_frame [simp]:
  "clearBridgeConnection (Some g) r \<noteq> None"
  "storeClientUpgradeAttempts (the (clearBridgeConnection (Some g) r)) = storeClientUpgradeAttempts g"
  "lastWindowSweepAt (the (clearBridgeConnection (Some g) r)) = lastWindowSweepAt g"
  "setConfig (the (clearBridgeConnection (Some g) r)) = setConfig g"
  by (simp_all add: clearBridgeConnection_def Let_def)

interpretation tunnel_rate: rate_limited_guard reserveBridgeConnection clearBridgeConnection
  "\<lambda>g. g \<noteq> None" guard_window guard_limit
proof (unfold_locales, goal_cases)
  case (1 g r t g' res)
  then obtain h h' where h: "g = Some h" "g' = Some h'"
    and res: "reserve_locked h (slot_key (buildBridgeClientKey r)) t = (h', res)"
    by (auto simp: reserveBridgeConnection_def split: option.splits prod.splits)
  with 1 reserve_locked_window(1) [OF _ res]
    reserve_locked_config [of h "slot_key (buildBridgeClientKey r)" t]
  show ?case by (simp add: guard_limit_def guard_window_def)
next
  case (2 g r t g' res k t')
  then obtain h h' where h: "g = Some h" "g' = Some h'"
    and res: "reserve_locked h (slot_key (buildBridgeClientKey r)) t = (h', res)"
    by (auto simp: reserveBridgeConnection_def split: option.splits prod.splits)
  with 2 reserve_locked_window(2) [OF _ res] show ?case
    by (simp add: guard_limit_def guard_window_def)
next
  case (3 g r)
  then obtain h where g: "g = Some h" by auto
  obtain h' where h': "clearBridgeConnection (Some h) r = Some h'"
    using clear_frame(1) [of h r] by blast
  with g clear_frame(2-4) [of h r] have "guard_window (Some h') k = guard_window (Some h) k" for k
    by simp
  with g h' clear_frame(2-4) [of h r] show ?case
    by (simp add: guard_limit_def fun_eq_iff)
next
  case (4 T t g k)
  then show ?case by (auto simp: guard_window_def current_window_running split: option.split)
qed

lemma fresh_guard_rate [simp]:
  "guard_window (buildBridgeAbuseGuard cfg) k t = None"
  "guard_limit (buildBridgeAbuseGuard cfg) = MaxUpgradesPerClientPerMinute cfg"
  by (simp_all add: buildBridgeAbuseGuard_def guard_window_def guard_limit_def current_window_def)

section \<open>What the guard guarantees\<close>

text \<open>The map of connection counts holds no dead entries: every stored count is positive.\<close>

definition counts_positive :: "bridgeAbuseGuard option \<Rightarrow> bool" where
  "counts_positive guard \<longleftrightarrow>
     (\<forall>g k n. guard = Some g \<longrightarrow> storeClientConnections g k = Some n \<longrightarrow> 0 < n)"

lemma counts_positive_reserve:
  assumes pos: "counts_positive guard" and res: "reserveBridgeConnection guard r t = (guard', e)"
  shows "counts_positive guard'"
proof (cases guard)
  case None
  with res show ?thesis by (simp add: reserveBridgeConnection_def counts_positive_def)
next
  case (Some g)
  show ?thesis
  proof (cases rule: reserve_locked_cases [of g "slot_key (buildBridgeClientKey r)" t])
    case (rate g' e')
    with Some pos res show ?thesis by (auto simp: reserveBridgeConnection_def counts_positive_def)
  next
    case (slot g')
    show ?thesis
    proof (cases "storeClientConnections g (slot_key (buildBridgeClientKey r))")
      case None
      with Some slot pos res show ?thesis
        by (auto simp: reserveBridgeConnection_def reserve_slot_def counts_positive_def Let_def
            split: if_splits)
    next
      case (Some n)
      with \<open>guard = Some g\<close> pos have "0 \<le> n" by (force simp: counts_positive_def)
      with \<open>guard = Some g\<close> Some slot pos res show ?thesis
        by (auto simp: reserveBridgeConnection_def reserve_slot_def counts_positive_def Let_def
            split: if_splits)
    qed
  qed
qed

lemma counts_positive_clear: "counts_positive guard \<Longrightarrow> counts_positive (clearBridgeConnection guard r)"
  by (cases guard) (auto simp: clearBridgeConnection_def counts_positive_def Let_def split: if_splits)

lemma counts_positive_run:
  "session_run reserveBridgeConnection clearBridgeConnection (buildBridgeAbuseGuard cfg) g live \<Longrightarrow>
   counts_positive g"
proof (induction rule: session_run.induct)
  case start
  show ?case by (simp add: counts_positive_def buildBridgeAbuseGuard_def)
qed (auto intro: counts_positive_clear elim: counts_positive_reserve)

text \<open>
  In every execution of the server, however the concurrent upgrade requests interleave and
  whichever of them are refused, the total counter of the guard equals the number of admitted
  connections that have not ended, the counter of each client equals the number of that client's
  connections, and both caps are respected where they are configured.
\<close>

theorem guard_counts_and_caps:
  assumes "session_run reserveBridgeConnection clearBridgeConnection (buildBridgeAbuseGuard cfg) g live"
  shows "guard_active g = int (length live) \<and> guard_held g k = sessions_of k live \<and>
    (0 < MaxActiveConnections cfg \<longrightarrow> int (length live) \<le> MaxActiveConnections cfg) \<and>
    (0 < MaxConnectionsPerClient cfg \<longrightarrow> sessions_of k live \<le> MaxConnectionsPerClient cfg)"
  using tunnel_guard.run_counts [OF assms] by simp_all

text \<open>
  No slot leaks: once every admitted connection has ended, the total counter is back to zero
  and the per-client map is empty, so that a quiet server keeps no memory of its clients'
  connections.
\<close>

theorem guard_drains:
  assumes "session_run reserveBridgeConnection clearBridgeConnection (buildBridgeAbuseGuard cfg) (Some g) []"
  shows "getActiveConnections g = 0 \<and> storeClientConnections g = Map.empty"
proof -
  have zero: "guard_active (Some g) = 0" "guard_held (Some g) k = 0" for k
    using tunnel_guard.run_drained [OF assms] by simp_all
  { fix k n assume "storeClientConnections g k = Some n"
    with zero(2) [of k] counts_positive_run [OF assms] have False
      by (auto simp: guard_held_def counts_positive_def) }
  with zero(1) show ?thesis by (auto simp: guard_active_def fun_eq_iff) (meson not_Some_eq)
qed


text \<open>
  The wait that a rate refusal reports is exact: it is positive and at most a minute, and the
  client's next attempt is refused by the rate limiter if it comes before the wait is over and
  is not refused by it from then on, whatever other clients did in between.
\<close>

theorem refusal_wait_is_exact:
  assumes "0 < MaxUpgradesPerClientPerMinute cfg" and "0 < T"
    and "clock_from T (before @ [Attempt r t])" and "clock_from t (between @ [Attempt r' t'])"
    and "reserveBridgeConnection
        (guard_after reserveBridgeConnection clearBridgeConnection (buildBridgeAbuseGuard cfg) before)
        r t = (g, Some (UpgradeRateExceeded k w))"
    and "slot_key (buildBridgeClientKey r') = slot_key (buildBridgeClientKey r)"
    and "\<forall>r'' t''. Attempt r'' t'' \<in> set between \<longrightarrow>
      slot_key (buildBridgeClientKey r'') \<noteq> slot_key (buildBridgeClientKey r)"
  shows "0 < w \<and> w \<le> minute \<and>
    (rate_refused (snd (reserveBridgeConnection
        (guard_after reserveBridgeConnection clearBridgeConnection g between) r' t'))
     \<longleftrightarrow> t' < t + w)"
proof -
  have "tunnel_rate.limiter_ok (buildBridgeAbuseGuard cfg) T"
    using assms(1,2) unfolding tunnel_rate.limiter_ok_def by simp
  from tunnel_rate.limiter_ok_run [OF this assms(3)] assms(4-7) show ?thesis
    by (intro tunnel_rate.refusal_wait_exact [of _ t r g k w between r' t']) auto
qed

section \<open>Memory of the rate limiter\<close>

lemma reserve_present:
  "reserveBridgeConnection (Some g) r t =
     map_prod Some id (reserve_locked g (slot_key (buildBridgeClientKey r)) t)"
  by (simp add: reserveBridgeConnection_def split: prod.split)

text \<open>
  Every stored window belongs to an attempt of its client that is younger than two minutes: the
  sweep runs at most a minute after the previous one and then keeps only running windows.
  \<open>recent_windows\<close> is the invariant, relative to the attempts made so far.
\<close>

definition recent_windows :: "guard_op list \<Rightarrow> bridgeAbuseGuard \<Rightarrow> bool" where
  "recent_windows past g \<longleftrightarrow>
     (\<forall>k w. storeClientUpgradeAttempts g k = Some w \<longrightarrow>
        lastWindowSweepAt g < getWindowStartedAt w + minute \<and>
        (\<exists>r. Attempt r (getWindowStartedAt w) \<in> set past \<and> slot_key (buildBridgeClientKey r) = k))"

lemma sweep_time_bound: "now < lastWindowSweepAt (sweepExpiredUpgradeWindows g now) + minute"
proof (cases "time_Sub now (lastWindowSweepAt g) < minute")
  case True
  then have "\<not> minute \<le> now - lastWindowSweepAt g" by (simp flip: time_Sub_minute)
  with True show ?thesis by (simp add: sweepExpiredUpgradeWindows_def)
qed (simp add: sweepExpiredUpgradeWindows_def)

lemma recent_windows_sweep:
  "recent_windows past g \<Longrightarrow> recent_windows past (sweepExpiredUpgradeWindows g now)"
  by (fastforce simp: recent_windows_def sweepExpiredUpgradeWindows_def split: option.splits if_splits)

lemma recent_windows_more:
  "recent_windows past g \<Longrightarrow> set past \<subseteq> set past' \<Longrightarrow> recent_windows past' g"
  unfolding recent_windows_def by blast

lemma fixed_window_admit_start:
  "fixed_window_admit n att k t = Inr att' \<Longrightarrow> att' k' = Some w \<Longrightarrow>
   (\<exists>v. att k' = Some v \<and> getWindowStartedAt v = getWindowStartedAt w) \<or>
   k' = k \<and> getWindowStartedAt w = t"
  by (cases "att k")
     (auto simp: fixed_window_admit_def zero_window_def time_IsZero_def Let_def split: if_splits)

lemma recent_windows_reserve:
  assumes rec: "recent_windows past g" and n: "0 < MaxUpgradesPerClientPerMinute (setConfig g)"
    and res: "reserve_locked g (slot_key (buildBridgeClientKey r)) t = (g', e)"
    and le: "lastWindowSweepAt g \<le> t"
  shows "recent_windows (past @ [Attempt r t]) g' \<and> lastWindowSweepAt g' \<le> t \<and>
    t < lastWindowSweepAt g' + minute \<and> setConfig g' = setConfig g"
proof -
  let ?h = "sweepExpiredUpgradeWindows g t" and ?k = "slot_key (buildBridgeClientKey r)"
  have h: "recent_windows (past @ [Attempt r t]) ?h"
    by (rule recent_windows_more [OF recent_windows_sweep [OF rec]]) auto
  have swept: "lastWindowSweepAt ?h \<le> t" using le by (simp add: sweepExpiredUpgradeWindows_def)
  note young = sweep_time_bound [of t g]
  show ?thesis
  proof (cases "fixed_window_admit (MaxUpgradesPerClientPerMinute (setConfig g))
                  (storeClientUpgradeAttempts ?h) ?k t")
    case (Inl e')
    with n res h swept young show ?thesis by (auto simp: reserve_locked_def Let_def)
  next
    case (Inr att)
    let ?m = "?h\<lparr>storeClientUpgradeAttempts := att\<rparr>"
    from n res Inr have "reserve_slot ?m ?k = (g', e)" by (simp add: reserve_locked_def Let_def)
    then have g': "storeClientUpgradeAttempts g' = att" "lastWindowSweepAt g' = lastWindowSweepAt ?h"
        "setConfig g' = setConfig g"
      using reserve_slot_windows [of ?m ?k] reserve_slot_config [of ?m ?k] by simp_all
    moreover have "recent_windows (past @ [Attempt r t]) g'"
    proof -
      { fix k' w assume "att k' = Some w"
        from fixed_window_admit_start [OF Inr this]
        have "lastWindowSweepAt ?h < getWindowStartedAt w + minute \<and>
          (\<exists>r'. Attempt r' (getWindowStartedAt w) \<in> set (past @ [Attempt r t]) \<and>
             slot_key (buildBridgeClientKey r') = k')"
        proof
          assume "\<exists>v. storeClientUpgradeAttempts ?h k' = Some v \<and>
            getWindowStartedAt v = getWindowStartedAt w"
          then obtain v where v: "storeClientUpgradeAttempts ?h k' = Some v"
            "getWindowStartedAt v = getWindowStartedAt w" by auto
          with h have "lastWindowSweepAt ?h < getWindowStartedAt v + minute \<and>
            (\<exists>r'. Attempt r' (getWindowStartedAt v) \<in> set (past @ [Attempt r t]) \<and>
               slot_key (buildBridgeClientKey r') = k')"
            unfolding recent_windows_def by blast
          with v(2) show ?thesis by simp
        next
          assume "k' = ?k \<and> getWindowStartedAt w = t"
          moreover from this have "lastWindowSweepAt ?h < getWindowStartedAt w + minute"
            using swept minute_pos by linarith
          ultimately show ?thesis by auto
        qed }
      with g' show ?thesis by (simp add: recent_windows_def)
    qed
    ultimately show ?thesis using swept young by simp
  qed
qed

lemma recent_windows_run:
  assumes "0 < MaxUpgradesPerClientPerMinute (setConfig g)" and "recent_windows past g"
    and "lastWindowSweepAt g \<le> T" and "clock_from T (ops @ [Attempt r t])"
    and "guard_after reserveBridgeConnection clearBridgeConnection (Some g) (ops @ [Attempt r t]) = Some g'"
  shows "recent_windows (past @ ops @ [Attempt r t]) g' \<and> t < lastWindowSweepAt g' + minute"
  using assms
proof (induction ops arbitrary: g past T)
  case Nil
  obtain h e where h: "reserve_locked g (slot_key (buildBridgeClientKey r)) t = (h, e)" by fastforce
  with Nil(5) have "g' = h" by (simp add: reserveBridgeConnection_def)
  with recent_windows_reserve [OF Nil(2,1) h] Nil(3,4) show ?case by simp
next
  case (Cons x ops)
  show ?case
  proof (cases x)
    case (Release r')
    obtain h where h: "clearBridgeConnection (Some g) r' = Some h"
      using clear_frame(1) [of g r'] by blast
    with clear_frame(2-4) [of g r'] have same: "storeClientUpgradeAttempts h = storeClientUpgradeAttempts g"
      "lastWindowSweepAt h = lastWindowSweepAt g" "setConfig h = setConfig g" by simp_all
    with Cons.prems(2) have "recent_windows (past @ [x]) h" by (force simp: recent_windows_def)
    from Cons.IH [OF _ this] Cons.prems h same Release show ?thesis by simp
  next
    case (Attempt r' t')
    obtain h e where h: "reserve_locked g (slot_key (buildBridgeClientKey r')) t' = (h, e)" by fastforce
    from Cons.prems(4) Attempt have "T \<le> t'" and "clock_from t' (ops @ [Attempt r t])" by simp_all
    moreover from recent_windows_reserve [OF Cons.prems(2,1) h] Cons.prems(3) \<open>T \<le> t'\<close>
    have "recent_windows (past @ [Attempt r' t']) h" "lastWindowSweepAt h \<le> t'"
      "setConfig h = setConfig g" by simp_all
    moreover from Cons.prems(5) Attempt h
    have "guard_after reserveBridgeConnection clearBridgeConnection (Some h) (ops @ [Attempt r t]) = Some g'"
      by (simp add: reserve_present)
    ultimately show ?thesis
      using Cons.IH [of h "past @ [Attempt r' t']" t'] Cons.prems(1) Attempt by simp
  qed
qed

text \<open>
  The rate limiter's memory is bounded by recent traffic: after any attempt at \<open>t\<close>, a client
  that still has a stored window made an attempt within the last two minutes. Address churn cannot
  grow the map beyond the clients of two minutes.
\<close>

theorem rate_windows_stay_recent:
  assumes "0 < MaxUpgradesPerClientPerMinute cfg" and "0 \<le> T" and "clock_from T (ops @ [Attempt r t])"
    and "guard_after reserveBridgeConnection clearBridgeConnection (buildBridgeAbuseGuard cfg)
           (ops @ [Attempt r t]) = Some g"
    and "storeClientUpgradeAttempts g k = Some w"
  shows "\<exists>r' t'. Attempt r' t' \<in> set (ops @ [Attempt r t]) \<and>
    slot_key (buildBridgeClientKey r') = k \<and> t < t' + 2 * minute"
proof -
  let ?g = "the (buildBridgeAbuseGuard cfg)"
  have "recent_windows [] ?g" by (simp add: recent_windows_def buildBridgeAbuseGuard_def)
  from recent_windows_run [OF _ this _ assms(3), of g] assms(1,2,4)
  have "recent_windows (ops @ [Attempt r t]) g" "t < lastWindowSweepAt g + minute"
    by (simp_all add: buildBridgeAbuseGuard_def)
  with assms(5) obtain r' where "Attempt r' (getWindowStartedAt w) \<in> set (ops @ [Attempt r t])"
    "slot_key (buildBridgeClientKey r') = k" "t < getWindowStartedAt w + 2 * minute"
    unfolding recent_windows_def by fastforce
  then show ?thesis by blast
qed

section \<open>Examples\<close>

text \<open>Two clients, and the facts with which the simplifier runs a guard on their requests.\<close>

abbreviation client_a :: "http_request option" where
  "client_a \<equiv> Some (get_request ''10.0.0.1:4001'' [])"

abbreviation client_b :: "http_request option" where
  "client_b \<equiv> Some (get_request ''[::1]:4002'' [])"

lemma client_keys [simp]:
  "buildBridgeClientKey client_a = ''10.0.0.1''" "buildBridgeClientKey client_b = ''::1''"
  by (simp_all add: buildBridgeClientKey_def net_SplitHostPort_def TrimSpace_all_plain plain_end_def
      ascii_space_def is_ascii_def Let_def)

lemmas guard_run =
  reserve_present reserve_locked_def reserve_slot_def sweepExpiredUpgradeWindows_def
  fixed_window_admit_def buildBridgeAbuseGuard_def slot_key_def zero_window_def time_IsZero_def
  time_Add_def Let_def

theorem guard_counts_and_caps_witness:
  "guard_held (fst (reserveBridgeConnection (buildBridgeAbuseGuard (capped_config 2 1 0)) client_a minute))
     ''10.0.0.1'' = 1"
proof -
  let ?g = "fst (reserveBridgeConnection (buildBridgeAbuseGuard (capped_config 2 1 0)) client_a minute)"
  have "reserveBridgeConnection (buildBridgeAbuseGuard (capped_config 2 1 0)) client_a minute = (?g, None)"
    by (simp add: guard_run)
  then have "session_run reserveBridgeConnection clearBridgeConnection
    (buildBridgeAbuseGuard (capped_config 2 1 0)) ?g [client_a]"
    by (rule session_run_one)
  from guard_counts_and_caps [OF this, of "''10.0.0.1''"] show ?thesis
    by (simp add: sessions_of_def slot_key_def)
qed

theorem guard_drains_witness:
  "getActiveConnections (the (clearBridgeConnection
     (fst (reserveBridgeConnection (buildBridgeAbuseGuard (capped_config 2 1 0)) client_a minute))
     client_a)) = 0"
proof -
  let ?start = "buildBridgeAbuseGuard (capped_config 2 1 0)"
  let ?g = "fst (reserveBridgeConnection ?start client_a minute)"
  have "reserveBridgeConnection ?start client_a minute = (?g, None)" by (simp add: guard_run)
  then have "session_run reserveBridgeConnection clearBridgeConnection ?start ?g [client_a]"
    by (rule session_run_one)
  then have "session_run reserveBridgeConnection clearBridgeConnection ?start
    (clearBridgeConnection ?g client_a) []"
    by (rule session_run_finish_one)
  moreover obtain h0 where "?g = Some h0" by (simp add: guard_run)
  moreover obtain h where "clearBridgeConnection (Some h0) client_a = Some h"
    using clear_frame(1) [of h0 client_a] by blast
  ultimately show ?thesis using guard_drains [of "capped_config 2 1 0" h] by simp
qed


lemma upgrade_rate_bound_tight:
  "admitted_in ''10.0.0.1'' (minute + 1)
     (attempt_log reserveBridgeConnection clearBridgeConnection
        (buildBridgeAbuseGuard (capped_config 0 0 2))
        [Attempt client_a minute, Attempt client_a (minute + 2),
         Attempt client_a (2 * minute), Attempt client_a (2 * minute)]) = 3"
  by (simp add: guard_run admitted_in_Cons minute_def second_def time_Sub_def max_duration_def
      min_duration_def)

theorem refusal_wait_is_exact_witness:
  "\<not> rate_refused (snd (reserveBridgeConnection
     (guard_after reserveBridgeConnection clearBridgeConnection
        (fst (reserveBridgeConnection
           (guard_after reserveBridgeConnection clearBridgeConnection
              (buildBridgeAbuseGuard (capped_config 0 0 1)) [Attempt client_a minute])
           client_a (minute + 3)))
        [Attempt client_b (minute + 4)]) client_a (2 * minute)))"
proof -
  let ?g = "guard_after reserveBridgeConnection clearBridgeConnection
              (buildBridgeAbuseGuard (capped_config 0 0 1)) [Attempt client_a minute]"
  have "reserveBridgeConnection ?g client_a (minute + 3) =
    (fst (reserveBridgeConnection ?g client_a (minute + 3)),
     Some (UpgradeRateExceeded ''10.0.0.1'' (minute - 3)))"
    by (simp add: guard_run minute_def second_def time_Sub_def max_duration_def min_duration_def)
  from refusal_wait_is_exact [OF _ _ _ _ this, of minute "[Attempt client_b (minute + 4)]" client_a
      "2 * minute"]
  show ?thesis by (simp add: slot_key_def minute_def second_def)
qed

theorem rate_windows_stay_recent_witness:
  "\<exists>r' t'. Attempt r' t' \<in> set ([Attempt client_b minute] @ [Attempt client_a (5 * minute)]) \<and>
    slot_key (buildBridgeClientKey r') = ''10.0.0.1'' \<and> 5 * minute < t' + 2 * minute"
proof -
  let ?g = "the (guard_after reserveBridgeConnection clearBridgeConnection
     (buildBridgeAbuseGuard (capped_config 0 0 1))
     ([Attempt client_b minute] @ [Attempt client_a (5 * minute)]))"
  show ?thesis
    by (rule rate_windows_stay_recent [of "capped_config 0 0 1" 0 "[Attempt client_b minute]" client_a
          "5 * minute" ?g "''10.0.0.1''" "\<lparr>getWindowStartedAt = 5 * minute, getWindowCount = 1\<rparr>"])
       (simp_all add: guard_run minute_def second_def time_Sub_def max_duration_def min_duration_def)
qed

text \<open>
  A client is counted by its address, not by its connection: for a host written plainly or in
  brackets, the key is the host whatever the port, so every connection of a client shares one
  counter.
\<close>

theorem client_key_ignores_port:
  assumes "host \<noteq> []" and "plain_end (hd host)" and "plain_end (last host)"
    and "net_plain port" and "port = [] \<or> plain_end (last port)"
  shows "(net_plain host \<longrightarrow> RemoteAddr r = host @ '':'' @ port \<longrightarrow> buildBridgeClientKey (Some r) = host) \<and>
    (CHR ''['' \<notin> set host \<and> CHR '']'' \<notin> set host \<longrightarrow> RemoteAddr r = ''['' @ host @ '']:'' @ port \<longrightarrow>
       buildBridgeClientKey (Some r) = host)"
proof -
  have trim: "strings_TrimSpace host = host" using assms by (simp add: TrimSpace_plain)
  have colon: "plain_end CHR '':''" and bracket: "plain_end CHR ''[''"
    by (simp_all add: plain_end_def ascii_space_def is_ascii_def)
  have "strings_TrimSpace (host @ '':'' @ port) = host @ '':'' @ port"
    using assms colon by (intro TrimSpace_plain) (cases port; simp)
  moreover have "strings_TrimSpace (''['' @ host @ '']:'' @ port) = ''['' @ host @ '']:'' @ port"
    using assms colon bracket by (intro TrimSpace_plain) (cases port; simp)
  ultimately show ?thesis
    using trim assms SplitHostPort_plain [of host port] SplitHostPort_bracketed [of host port]
    by (auto simp: buildBridgeClientKey_def)
qed

theorem client_key_ignores_port_witness:
  "buildBridgeClientKey (Some (get_request ''10.0.0.1:4001'' [])) =
   buildBridgeClientKey (Some (get_request ''10.0.0.1:59'' []))"
  using client_key_ignores_port [of "''10.0.0.1''" "''4001''" "get_request ''10.0.0.1:4001'' []"]
    client_key_ignores_port [of "''10.0.0.1''" "''59''" "get_request ''10.0.0.1:59'' []"]
  by (simp add: plain_end_def ascii_space_def is_ascii_def net_plain_def)

end
