(* ===== verification/Handler_Abuse.thy ===== *)
theory Handler_Abuse
  imports Handler_Config Abuse_Control
begin

text \<open>
  The abuse guard of \<open>pkg/bridge/abuse_control.go\<close>. It is the guard of \<open>pkg/grpctunnel\<close> without
  the sweep of expired windows: both interfaces of \<open>Guard_Interface\<close> are interpreted for it, and
  the two guards are shown to give every execution the same answers. What the missing sweep costs
  is memory, not decisions: the theory also shows that a window, once stored, is never dropped.
\<close>

section \<open>The guard\<close>

record handlerAbuseGuard =
  ha_setConfig :: HandlerConfig
  ha_getActiveConnections :: int
  ha_storeClientConnections :: "string \<rightharpoonup> int"
  ha_storeClientUpgradeAttempts :: "string \<rightharpoonup> rate_window"

definition buildHandlerAbuseGuard :: "HandlerConfig \<Rightarrow> handlerAbuseGuard option" where
  "buildHandlerAbuseGuard cfg =
     Some \<lparr>ha_setConfig = cfg, ha_getActiveConnections = 0, ha_storeClientConnections = Map.empty,
           ha_storeClientUpgradeAttempts = Map.empty\<rparr>"

definition buildHandlerClientKey :: "http_request option \<Rightarrow> string" where
  "buildHandlerClientKey r =
     (case r of
        None \<Rightarrow> []
      | Some r \<Rightarrow>
          (let remoteAddress = strings_TrimSpace (RemoteAddr r) in
           if remoteAddress = [] then []
           else case net_SplitHostPort remoteAddress of
             Inr (host, port) \<Rightarrow> strings_TrimSpace host
           | Inl err \<Rightarrow> remoteAddress))"

lemma handler_client_key [simp]: "buildHandlerClientKey = buildBridgeClientKey"
  by (simp add: buildHandlerClientKey_def buildBridgeClientKey_def fun_eq_iff)

definition handler_reserve_slot :: "handlerAbuseGuard \<Rightarrow> string \<Rightarrow> handlerAbuseGuard \<times> guard_error option" where
  [guard_defs]: "handler_reserve_slot g clientKey =
     (if hc_MaxActiveConnections (ha_setConfig g) > 0 \<and>
         ha_getActiveConnections g \<ge> hc_MaxActiveConnections (ha_setConfig g)
      then (g, Some ActiveCapExceeded)
      else
        (let clientConnections = default_to 0 (ha_storeClientConnections g clientKey) in
         if hc_MaxConnectionsPerClient (ha_setConfig g) > 0 \<and>
            clientConnections \<ge> hc_MaxConnectionsPerClient (ha_setConfig g)
         then (g, Some (ClientCapExceeded clientKey))
         else (g\<lparr>ha_getActiveConnections := ha_getActiveConnections g + 1,
                 ha_storeClientConnections :=
                   (ha_storeClientConnections g)(clientKey \<mapsto> clientConnections + 1)\<rparr>, None)))"

definition handler_reserve_locked ::
    "handlerAbuseGuard \<Rightarrow> string \<Rightarrow> instant \<Rightarrow> handlerAbuseGuard \<times> guard_error option" where
  [guard_defs]: "handler_reserve_locked g clientKey now =
     (if hc_MaxUpgradesPerClientPerMinute (ha_setConfig g) > 0 then
        (case fixed_window_admit (hc_MaxUpgradesPerClientPerMinute (ha_setConfig g))
                (ha_storeClientUpgradeAttempts g) clientKey now of
           Inl e \<Rightarrow> (g, Some e)
         | Inr attempts \<Rightarrow>
             handler_reserve_slot (g\<lparr>ha_storeClientUpgradeAttempts := attempts\<rparr>) clientKey)
      else handler_reserve_slot g clientKey)"

definition reserveHandlerConnection ::
    "handlerAbuseGuard option \<Rightarrow> http_request option \<Rightarrow> instant \<Rightarrow>
     handlerAbuseGuard option \<times> guard_error option" where
  [guard_defs]: "reserveHandlerConnection guard r now =
     (case guard of
        None \<Rightarrow> (None, None)
      | Some g \<Rightarrow>
          (case handler_reserve_locked g (slot_key (buildHandlerClientKey r)) now of
             (g', e) \<Rightarrow> (Some g', e)))"

definition clearHandlerConnection ::
    "handlerAbuseGuard option \<Rightarrow> http_request option \<Rightarrow> handlerAbuseGuard option" where
  [guard_defs]: "clearHandlerConnection guard r =
     (case guard of
        None \<Rightarrow> None
      | Some g \<Rightarrow>
          (let clientKey = slot_key (buildHandlerClientKey r);
               g = (if ha_getActiveConnections g > 0
                    then g\<lparr>ha_getActiveConnections := ha_getActiveConnections g - 1\<rparr> else g);
               clientConnections = default_to 0 (ha_storeClientConnections g clientKey)
           in if clientConnections \<le> 1
              then Some (g\<lparr>ha_storeClientConnections :=
                     (ha_storeClientConnections g)(clientKey := None)\<rparr>)
              else Some (g\<lparr>ha_storeClientConnections :=
                     (ha_storeClientConnections g)(clientKey \<mapsto> clientConnections - 1)\<rparr>)))"

section \<open>The guard as a connection guard\<close>

definition ha_active :: "handlerAbuseGuard option \<Rightarrow> int" where
  "ha_active guard = (case guard of None \<Rightarrow> 0 | Some g \<Rightarrow> ha_getActiveConnections g)"

definition ha_held :: "handlerAbuseGuard option \<Rightarrow> string \<Rightarrow> int" where
  "ha_held guard k =
     (case guard of None \<Rightarrow> 0 | Some g \<Rightarrow> default_to 0 (ha_storeClientConnections g k))"

definition ha_max_active :: "handlerAbuseGuard option \<Rightarrow> int" where
  "ha_max_active guard =
     (case guard of None \<Rightarrow> 0 | Some g \<Rightarrow> hc_MaxActiveConnections (ha_setConfig g))"

definition ha_max_client :: "handlerAbuseGuard option \<Rightarrow> int" where
  "ha_max_client guard =
     (case guard of None \<Rightarrow> 0 | Some g \<Rightarrow> hc_MaxConnectionsPerClient (ha_setConfig g))"

lemmas ha_views = ha_active_def ha_held_def ha_max_active_def ha_max_client_def fun_eq_iff

lemma handler_reserve_slot_frame [simp]:
  "ha_setConfig (fst (handler_reserve_slot g k)) = ha_setConfig g"
  "ha_storeClientUpgradeAttempts (fst (handler_reserve_slot g k)) = ha_storeClientUpgradeAttempts g"
  "\<not> rate_refused (snd (handler_reserve_slot g k))"
  by (simp_all add: handler_reserve_slot_def Let_def)

lemma handler_reserve_locked_cases:
  obtains (rate) e where "handler_reserve_locked g k now = (g, Some e)" "rate_refused (Some e)"
  | (slot) att where "handler_reserve_locked g k now =
      handler_reserve_slot (g\<lparr>ha_storeClientUpgradeAttempts := att\<rparr>) k"
proof (cases "hc_MaxUpgradesPerClientPerMinute (ha_setConfig g) > 0")
  case False
  then show thesis
    by (intro slot [of "ha_storeClientUpgradeAttempts g"]) (simp_all add: handler_reserve_locked_def)
next
  case True
  show thesis
  proof (cases "fixed_window_admit (hc_MaxUpgradesPerClientPerMinute (ha_setConfig g))
                  (ha_storeClientUpgradeAttempts g) k now")
    case (Inl e)
    then have "rate_refused (Some e)"
      by (auto simp: fixed_window_admit_def Let_def split: if_splits)
    with True Inl show thesis by (intro rate [of e]) (simp_all add: handler_reserve_locked_def)
  next
    case (Inr att)
    with True show thesis by (intro slot [of att]) (simp add: handler_reserve_locked_def)
  qed
qed

lemma handler_reserve_ok:
  "guard \<noteq> None \<Longrightarrow> reserveHandlerConnection guard r t = (guard', None) \<Longrightarrow>
   guard' \<noteq> None \<and> ha_active guard' = ha_active guard + 1 \<and>
   ha_held guard' = (ha_held guard)(slot_key (buildBridgeClientKey r) :=
     ha_held guard (slot_key (buildBridgeClientKey r)) + 1) \<and>
   (0 < ha_max_active guard \<longrightarrow> ha_active guard < ha_max_active guard) \<and>
   (0 < ha_max_client guard \<longrightarrow>
      ha_held guard (slot_key (buildBridgeClientKey r)) < ha_max_client guard)"
  by (cases guard;
      cases rule: handler_reserve_locked_cases [of "the guard" "slot_key (buildBridgeClientKey r)" t])
     (auto simp: reserveHandlerConnection_def handler_reserve_slot_def ha_views Let_def split: if_splits)

lemma handler_reserve_refused:
  "guard \<noteq> None \<Longrightarrow> reserveHandlerConnection guard r t = (guard', Some e) \<Longrightarrow>
   guard' \<noteq> None \<and> ha_active guard' = ha_active guard \<and> ha_held guard' = ha_held guard"
  by (cases guard;
      cases rule: handler_reserve_locked_cases [of "the guard" "slot_key (buildBridgeClientKey r)" t])
     (auto simp: reserveHandlerConnection_def handler_reserve_slot_def ha_views Let_def split: if_splits)

lemma handler_reserve_config: "ha_setConfig (fst (handler_reserve_locked g k t)) = ha_setConfig g"
  by (simp add: handler_reserve_locked_def split: sum.split)

lemma handler_reserve_caps:
  "reserveHandlerConnection guard r t = (guard', res) \<Longrightarrow>
   ha_max_active guard' = ha_max_active guard \<and> ha_max_client guard' = ha_max_client guard"
  using handler_reserve_config [of "the guard" "slot_key (buildBridgeClientKey r)" t]
  by (cases guard) (auto simp: reserveHandlerConnection_def ha_views split: prod.splits)

interpretation handler_guard: connection_guard reserveHandlerConnection clearHandlerConnection
  "\<lambda>g. g \<noteq> None" ha_active ha_held ha_max_active ha_max_client
proof (unfold_locales, goal_cases)
  case (1 g r t g')
  then show ?case using handler_reserve_ok [of g r t g'] by blast
next
  case (2 g r t g' e)
  then show ?case by (rule handler_reserve_refused)
next
  case (3 g r t g')
  then show ?case using handler_reserve_ok [of g r t g'] by blast
next
  case (4 g r t g' res)
  then show ?case using handler_reserve_caps by blast
next
  case (5 g r)
  then show ?case by (cases g) (auto simp: clearHandlerConnection_def ha_views Let_def)
next
  case (6 g r)
  show ?case by (cases g) (auto simp: clearHandlerConnection_def ha_views Let_def)
qed

section \<open>The guard as a rate limiter\<close>

definition ha_window :: "handlerAbuseGuard option \<Rightarrow> string \<Rightarrow> instant \<Rightarrow> rate_window option" where
  "ha_window guard k t =
     (case guard of None \<Rightarrow> None | Some g \<Rightarrow> current_window (ha_storeClientUpgradeAttempts g) k t)"

definition ha_limit :: "handlerAbuseGuard option \<Rightarrow> int" where
  "ha_limit guard =
     (case guard of None \<Rightarrow> 0 | Some g \<Rightarrow> hc_MaxUpgradesPerClientPerMinute (ha_setConfig g))"

lemma ha_window_Some [simp]:
  "ha_window (Some g) k = current_window (ha_storeClientUpgradeAttempts g) k"
  by (simp add: ha_window_def fun_eq_iff)

lemma handler_locked_windows:
  assumes n: "0 < hc_MaxUpgradesPerClientPerMinute (ha_setConfig g)"
    and res: "handler_reserve_locked g k t = (g', e)"
  shows "limiter_step (hc_MaxUpgradesPerClientPerMinute (ha_setConfig g)) k t
      (current_window (ha_storeClientUpgradeAttempts g) k t) e
      (current_window (ha_storeClientUpgradeAttempts g') k)"
    and "k' \<noteq> k \<Longrightarrow> ha_storeClientUpgradeAttempts g' k' = ha_storeClientUpgradeAttempts g k'"
proof -
  let ?n = "hc_MaxUpgradesPerClientPerMinute (ha_setConfig g)"
  let ?att = "ha_storeClientUpgradeAttempts g"
  note step = fixed_window_limiter_step [OF n, where att = ?att and k = k and t = t and res = e]
  have "limiter_step ?n k t (current_window ?att k t) e
        (current_window (ha_storeClientUpgradeAttempts g') k) \<and>
     (k' \<noteq> k \<longrightarrow> ha_storeClientUpgradeAttempts g' k' = ?att k')"
  proof (cases "fixed_window_admit ?n ?att k t")
    case (Inl e')
    with n res step show ?thesis by (simp add: handler_reserve_locked_def)
  next
    case (Inr att')
    with n res have r: "handler_reserve_slot (g\<lparr>ha_storeClientUpgradeAttempts := att'\<rparr>) k = (g', e)"
      by (simp add: handler_reserve_locked_def)
    then have "ha_storeClientUpgradeAttempts g' = att'" and "\<not> rate_refused e"
      using handler_reserve_slot_frame [of "g\<lparr>ha_storeClientUpgradeAttempts := att'\<rparr>" k] by simp_all
    with Inr step fixed_window_admit_other [OF Inr] show ?thesis by simp
  qed
  then show "limiter_step ?n k t (current_window ?att k t) e
      (current_window (ha_storeClientUpgradeAttempts g') k)"
    and "k' \<noteq> k \<Longrightarrow> ha_storeClientUpgradeAttempts g' k' = ?att k'" by simp_all
qed

lemma handler_clear_frame:
  "clearHandlerConnection (Some g) r \<noteq> None"
  "ha_storeClientUpgradeAttempts (the (clearHandlerConnection (Some g) r)) = ha_storeClientUpgradeAttempts g"
  "ha_setConfig (the (clearHandlerConnection (Some g) r)) = ha_setConfig g"
  by (simp_all add: clearHandlerConnection_def Let_def)

lemma handler_reserve_present:
  "reserveHandlerConnection (Some g) r t =
     map_prod Some id (handler_reserve_locked g (slot_key (buildBridgeClientKey r)) t)"
  by (simp add: reserveHandlerConnection_def split: prod.split)

interpretation handler_rate: rate_limited_guard reserveHandlerConnection clearHandlerConnection
  "\<lambda>g. g \<noteq> None" ha_window ha_limit
proof (unfold_locales, goal_cases)
  case (1 g r t g' res)
  then obtain h h' where h: "g = Some h" "g' = Some h'"
    and res: "handler_reserve_locked h (slot_key (buildBridgeClientKey r)) t = (h', res)"
    by (auto simp: handler_reserve_present map_prod_def split: prod.splits)
  with 1 handler_locked_windows(1) [OF _ res]
    handler_reserve_config [of h "slot_key (buildBridgeClientKey r)" t]
  show ?case by (simp add: ha_limit_def)
next
  case (2 g r t g' res k t')
  then obtain h h' where h: "g = Some h" "g' = Some h'"
    and res: "handler_reserve_locked h (slot_key (buildBridgeClientKey r)) t = (h', res)"
    by (auto simp: handler_reserve_present map_prod_def split: prod.splits)
  with 2 handler_locked_windows(2) [OF _ res, of k] show ?case
    by (simp add: ha_limit_def ha_window_def current_window_def)
next
  case (3 g r)
  then obtain h where g: "g = Some h" by auto
  obtain h' where h': "clearHandlerConnection (Some h) r = Some h'"
    using handler_clear_frame(1) [of h r] by blast
  with g handler_clear_frame(2,3) [of h r] have "ha_window (Some h') k = ha_window (Some h) k" for k
    by simp
  with g h' handler_clear_frame(2,3) [of h r] show ?case by (simp add: ha_limit_def fun_eq_iff)
next
  case (4 T t g k)
  then show ?case by (auto simp: ha_window_def current_window_running split: option.split)
qed

section \<open>The two guards agree\<close>

text \<open>
  The guards of the two packages side by side: equal counters and caps, and the same windows in
  force from an instant on.
\<close>

definition same_caps :: "BridgeConfig \<Rightarrow> HandlerConfig \<Rightarrow> bool" where
  "same_caps cfg hcfg \<longleftrightarrow>
     MaxActiveConnections cfg = hc_MaxActiveConnections hcfg \<and>
     MaxConnectionsPerClient cfg = hc_MaxConnectionsPerClient hcfg \<and>
     MaxUpgradesPerClientPerMinute cfg = hc_MaxUpgradesPerClientPerMinute hcfg"

definition same_guard :: "instant \<Rightarrow> bridgeAbuseGuard \<Rightarrow> handlerAbuseGuard \<Rightarrow> bool" where
  "same_guard T g h \<longleftrightarrow>
     same_caps (setConfig g) (ha_setConfig h) \<and>
     getActiveConnections g = ha_getActiveConnections h \<and>
     storeClientConnections g = ha_storeClientConnections h \<and>
     (\<forall>k t. T \<le> t \<longrightarrow> current_window (storeClientUpgradeAttempts g) k t =
                     current_window (ha_storeClientUpgradeAttempts h) k t)"

lemma same_guard_later: "same_guard T g h \<Longrightarrow> T \<le> t \<Longrightarrow> same_guard t g h"
  by (auto simp: same_guard_def)

lemma same_guard_slot:
  assumes "same_guard t g h"
  shows "snd (reserve_slot g k) = snd (handler_reserve_slot h k) \<and>
    same_guard t (fst (reserve_slot g k)) (fst (handler_reserve_slot h k))"
  using assms by (simp add: reserve_slot_def handler_reserve_slot_def same_guard_def same_caps_def Let_def)

lemma same_windows_admit:
  assumes same: "\<And>k t'. t \<le> t' \<Longrightarrow> current_window att k t' = current_window att' k t'" and "0 < n"
  shows "rel_sum (=) (\<lambda>a a'. \<forall>k t'. t \<le> t' \<longrightarrow> current_window a k t' = current_window a' k t')
    (fixed_window_admit n att k t) (fixed_window_admit n att' k t)"
proof -
  have upd: "current_window (att(k \<mapsto> w)) k' t' = current_window (att'(k \<mapsto> w)) k' t'"
    if "t \<le> t'" for w k' t'
    using same [OF that, of k'] by (cases "k' = k") simp_all
  show ?thesis
    using same [of t k] upd by (simp add: fixed_window_admit_current [OF \<open>0 < n\<close>] split: option.split)
qed

lemma same_guard_reserve:
  assumes same: "same_guard t g h"
  shows "snd (reserve_locked g k t) = snd (handler_reserve_locked h k t) \<and>
    same_guard t (fst (reserve_locked g k t)) (fst (handler_reserve_locked h k t))"
proof (cases "0 < MaxUpgradesPerClientPerMinute (setConfig g)")
  case False
  with same same_guard_slot [OF same, of k] show ?thesis
    by (simp add: reserve_locked_def handler_reserve_locked_def same_guard_def same_caps_def)
next
  case True
  let ?n = "MaxUpgradesPerClientPerMinute (setConfig g)" and ?g = "sweepExpiredUpgradeWindows g t"
  from same have n: "hc_MaxUpgradesPerClientPerMinute (ha_setConfig h) = ?n"
    by (simp add: same_guard_def same_caps_def)
  have swept: "same_guard t ?g h" using same by (simp add: same_guard_def sweep_current_window)
  then have "rel_sum (=) (\<lambda>a a'. \<forall>k t'. t \<le> t' \<longrightarrow> current_window a k t' = current_window a' k t')
    (fixed_window_admit ?n (storeClientUpgradeAttempts ?g) k t)
    (fixed_window_admit ?n (ha_storeClientUpgradeAttempts h) k t)"
    using True by (intro same_windows_admit) (simp_all add: same_guard_def)
  then show ?thesis
  proof cases
    case (1 e e')
    with True n swept show ?thesis
      by (simp add: reserve_locked_def handler_reserve_locked_def Let_def)
  next
    case (2 a a')
    with swept have "same_guard t (?g\<lparr>storeClientUpgradeAttempts := a\<rparr>)
        (h\<lparr>ha_storeClientUpgradeAttempts := a'\<rparr>)"
      by (simp add: same_guard_def)
    from same_guard_slot [OF this, of k] 2 True n show ?thesis
      by (simp add: reserve_locked_def handler_reserve_locked_def Let_def)
  qed
qed

lemma same_guard_clear:
  assumes "same_guard t g h"
  shows "\<exists>g' h'. clearBridgeConnection (Some g) r = Some g' \<and>
    clearHandlerConnection (Some h) r = Some h' \<and> same_guard t g' h'"
  using assms
  by (auto simp: clearBridgeConnection_def clearHandlerConnection_def same_guard_def same_caps_def Let_def)

lemma same_guard_log:
  "same_guard T g h \<Longrightarrow> clock_from T ops \<Longrightarrow>
   attempt_log reserveBridgeConnection clearBridgeConnection (Some g) ops =
   attempt_log reserveHandlerConnection clearHandlerConnection (Some h) ops"
proof (induction ops arbitrary: g h T)
  case (Cons x ops)
  show ?case
  proof (cases x)
    case (Release r)
    with Cons same_guard_clear [OF Cons.prems(1), of r] show ?thesis by auto
  next
    case (Attempt r t)
    let ?k = "slot_key (buildBridgeClientKey r)"
    from Cons.prems Attempt have "same_guard t g h" and clk: "clock_from t ops"
      by (auto intro: same_guard_later)
    note step = same_guard_reserve [OF this(1), of ?k]
    obtain g' e h' e' where r: "reserve_locked g ?k t = (g', e)" "handler_reserve_locked h ?k t = (h', e')"
      by fastforce
    with step Attempt Cons.IH [of t g' h'] clk show ?thesis
      by (simp add: reserve_present handler_reserve_present)
  qed
qed simp



section \<open>Memory of the rate limiter\<close>

lemma fixed_window_admit_dom:
  "fixed_window_admit n att k t = Inr att' \<Longrightarrow> dom att' = insert k (dom att)"
  by (auto simp: fixed_window_admit_def Let_def split: if_splits)

lemma fixed_window_refuse_dom:
  "fixed_window_admit n att k t = Inl e \<Longrightarrow> 0 < n \<Longrightarrow> k \<in> dom att"
  by (auto simp: fixed_window_admit_current current_window_def split: option.splits if_splits)

lemma handler_locked_dom:
  assumes "0 < hc_MaxUpgradesPerClientPerMinute (ha_setConfig g)"
    and "handler_reserve_locked g k t = (g', e)"
  shows "dom (ha_storeClientUpgradeAttempts g') = insert k (dom (ha_storeClientUpgradeAttempts g))"
proof (cases "fixed_window_admit (hc_MaxUpgradesPerClientPerMinute (ha_setConfig g))
                (ha_storeClientUpgradeAttempts g) k t")
  case (Inl e')
  with assms fixed_window_refuse_dom [OF Inl] show ?thesis
    by (auto simp: handler_reserve_locked_def)
next
  case (Inr att)
  with assms have "handler_reserve_slot (g\<lparr>ha_storeClientUpgradeAttempts := att\<rparr>) k = (g', e)"
    by (simp add: handler_reserve_locked_def)
  then have "ha_storeClientUpgradeAttempts g' = att"
    using handler_reserve_slot_frame(2) [of "g\<lparr>ha_storeClientUpgradeAttempts := att\<rparr>" k] by simp
  with fixed_window_admit_dom [OF Inr] show ?thesis by simp
qed

definition attempt_keys :: "guard_op list \<Rightarrow> string set" where
  "attempt_keys ops = {slot_key (buildBridgeClientKey r) | r t. Attempt r t \<in> set ops}"

lemma attempt_keys_simps [simp]:
  "attempt_keys [] = {}"
  "attempt_keys (Attempt r t # ops) = insert (slot_key (buildBridgeClientKey r)) (attempt_keys ops)"
  "attempt_keys (Release r # ops) = attempt_keys ops"
  by (auto simp: attempt_keys_def)

lemma handler_run_dom:
  "0 < hc_MaxUpgradesPerClientPerMinute (ha_setConfig g) \<Longrightarrow>
   guard_after reserveHandlerConnection clearHandlerConnection (Some g) ops = Some g' \<Longrightarrow>
   dom (ha_storeClientUpgradeAttempts g') = dom (ha_storeClientUpgradeAttempts g) \<union> attempt_keys ops"
proof (induction ops arbitrary: g)
  case (Cons x ops)
  show ?case
  proof (cases x)
    case (Release r)
    obtain h where "clearHandlerConnection (Some g) r = Some h"
      using handler_clear_frame(1) [of g r] by blast
    with Cons.prems Cons.IH [of h] Release handler_clear_frame(2,3) [of g r] show ?thesis by simp
  next
    case (Attempt r t)
    obtain h e where h: "handler_reserve_locked g (slot_key (buildBridgeClientKey r)) t = (h, e)"
      by fastforce
    with handler_reserve_config [of g "slot_key (buildBridgeClientKey r)" t]
    have "ha_setConfig h = ha_setConfig g" by simp
    with Cons.prems Attempt h Cons.IH [of h] handler_locked_dom [OF Cons.prems(1) h] show ?thesis
      by (simp add: handler_reserve_present)
  qed
qed simp

text \<open>
  The guard of the stand-alone proxy never forgets a client: its map of rate windows holds
  exactly the clients that ever attempted an upgrade, so unlike the tunnel server's guard it grows
  with the number of distinct addresses seen.
\<close>

theorem handler_windows_accumulate:
  assumes "0 < hc_MaxUpgradesPerClientPerMinute hcfg"
    and "guard_after reserveHandlerConnection clearHandlerConnection (buildHandlerAbuseGuard hcfg) ops
         = Some g"
  shows "dom (ha_storeClientUpgradeAttempts g) =
    {slot_key (buildHandlerClientKey r) | r t. Attempt r t \<in> set ops}"
  using handler_run_dom [of "the (buildHandlerAbuseGuard hcfg)" ops g] assms
  by (simp add: buildHandlerAbuseGuard_def attempt_keys_def)

theorem handler_windows_accumulate_witness:
  "dom (ha_storeClientUpgradeAttempts (the (guard_after reserveHandlerConnection
       clearHandlerConnection (buildHandlerAbuseGuard (small_handler_config 1))
       [Attempt client_a minute, Attempt client_b (100 * minute)]))) =
   {slot_key (buildHandlerClientKey r) | r t.
      Attempt r t \<in> set [Attempt client_a minute, Attempt client_b (100 * minute)]}"
  by (rule handler_windows_accumulate [of "small_handler_config 1"])
     (simp_all add: buildHandlerAbuseGuard_def handler_reserve_present split: prod.split
        option.split del: handler_client_key, simp_all add: small_handler_config_def)

end
