(* ===== verification/Retry_After.thy ===== *)
theory Retry_After
  imports Handler_Abuse
begin

text \<open>
  The \<open>Retry-After\<close> header of a refused upgrade (\<open>retry_after.go\<close> of both packages): the wait an
  error knows, rounded up to whole seconds and printed in decimal. What a client that obeys the
  header gets is proved against the guard of \<open>Abuse_Control\<close>.
\<close>

section \<open>Decimal numbers\<close>

text \<open>\<open>strconv.Itoa\<close> on the integers that occur, and the reading of its output.\<close>

definition digit_char :: "nat \<Rightarrow> char" where
  "digit_char d = char_of (48 + d)"

fun decimal :: "nat \<Rightarrow> string" where
  "decimal n = (if n < 10 then [digit_char n] else decimal (n div 10) @ [digit_char (n mod 10)])"

declare decimal.simps [simp del]

definition strconv_Itoa :: "int \<Rightarrow> string" where
  "strconv_Itoa i = (if i < 0 then ''-'' @ decimal (nat (- i)) else decimal (nat i))"

definition digits_value :: "string \<Rightarrow> nat" where
  "digits_value s = foldl (\<lambda>a c. 10 * a + (of_char c - 48)) 0 s"

lemma digit_char_value: "d < 10 \<Longrightarrow> (of_char (digit_char d) :: nat) = 48 + d"
  by (simp add: digit_char_def)

lemma digits_value_decimal [simp]: "digits_value (decimal n) = n"
proof (induction n rule: decimal.induct)
  case (1 n)
  then show ?case
    by (cases "n < 10") (simp_all add: decimal.simps [of n] digits_value_def digit_char_value)
qed

section \<open>The header\<close>

text \<open>
  \<open>errors.As\<close> against \<open>RetryAfterError\<close>: of the refusals only the rate refusal knows its wait.
  \<open>math.Ceil(wait.Seconds())\<close> is exact for every wait the guards produce: they are at most one
  minute, where a \<open>float64\<close> separates multiples of a nanosecond.
\<close>

definition errors_As_RetryAfterError :: "guard_error \<Rightarrow> duration option" where
  "errors_As_RetryAfterError e =
     (case e of UpgradeRateExceeded k w \<Rightarrow> Some w | _ \<Rightarrow> None)"

definition ceil_Seconds :: "duration \<Rightarrow> int" where
  "ceil_Seconds wait = - ((- wait) div second)"

definition setRetryAfter :: "header \<Rightarrow> guard_error \<Rightarrow> header" where
  [handler_defs]: "setRetryAfter h e =
     (case errors_As_RetryAfterError e of
        None \<Rightarrow> h
      | Some wait \<Rightarrow>
          if wait \<le> 0 then h
          else (let seconds = ceil_Seconds wait;
                    seconds = (if seconds < 1 then 1 else seconds)
                in header_Set h ''Retry-After'' (strconv_Itoa seconds)))"

definition setRetryAfterHeader :: "header \<Rightarrow> guard_error \<Rightarrow> header" where
  [handler_defs]: "setRetryAfterHeader h e =
     (case errors_As_RetryAfterError e of
        None \<Rightarrow> h
      | Some wait \<Rightarrow>
          if wait \<le> 0 then h
          else (let seconds = ceil_Seconds wait;
                    seconds = (if seconds < 1 then 1 else seconds)
                in header_Set h ''Retry-After'' (strconv_Itoa seconds)))"

lemma setRetryAfterHeader_same: "setRetryAfterHeader = setRetryAfter"
  by (simp add: setRetryAfterHeader_def setRetryAfter_def fun_eq_iff)

lemma ceil_Seconds_bounds:
  "wait \<le> ceil_Seconds wait * second" "(ceil_Seconds wait - 1) * second < wait"
proof -
  define q r where "q = (- wait) div second" and "r = (- wait) mod second"
  then have "- wait = q * second + r" "0 \<le> r" "r < second" by simp_all
  moreover have "ceil_Seconds wait * second = - (q * second)"
    "(ceil_Seconds wait - 1) * second = - (q * second) - second"
    by (simp_all add: ceil_Seconds_def q_def algebra_simps)
  ultimately show "wait \<le> ceil_Seconds wait * second" "(ceil_Seconds wait - 1) * second < wait"
    by linarith+
qed

lemma ceil_Seconds_pos: "0 < wait \<Longrightarrow> 1 \<le> ceil_Seconds wait"
proof -
  assume "0 < wait"
  with ceil_Seconds_bounds(1) [of wait] have "0 < ceil_Seconds wait * second" by linarith
  then show ?thesis by (simp add: zero_less_mult_iff second_def)
qed

lemma ceil_Seconds_minute: "wait \<le> minute \<Longrightarrow> ceil_Seconds wait \<le> 60"
proof -
  assume "wait \<le> minute"
  with ceil_Seconds_bounds(2) [of wait] have "(ceil_Seconds wait - 1) * second < 60 * second"
    unfolding minute_def by linarith
  then show ?thesis by (simp add: second_def)
qed

lemma retry_after_value:
  assumes "0 < w"
  shows "header_Get (setRetryAfter h (UpgradeRateExceeded k w)) ''Retry-After'' =
    strconv_Itoa (ceil_Seconds w)"
  using assms ceil_Seconds_pos [OF assms]
  by (simp add: setRetryAfter_def errors_As_RetryAfterError_def header_Get_Set Let_def)

text \<open>
  C22. A client that obeys the header is never early. When the guard refuses an attempt at \<open>t\<close> for
  its rate, the header holds a decimal number of seconds between 1 and 60, and an attempt of that
  client any number of nanoseconds after that many seconds is not refused for its rate, whatever
  other clients did in between.
\<close>

theorem retry_after_obeyed:
  assumes "0 < MaxUpgradesPerClientPerMinute cfg" and "0 < T"
    and "clock_from T (before @ [Attempt r t])" and "clock_from t (between @ [Attempt r' t'])"
    and "reserveBridgeConnection
        (guard_after reserveBridgeConnection clearBridgeConnection (buildBridgeAbuseGuard cfg) before)
        r t = (g, Some e)"
    and "rate_refused (Some e)"
    and "slot_key (buildBridgeClientKey r') = slot_key (buildBridgeClientKey r)"
    and "\<forall>r'' t''. Attempt r'' t'' \<in> set between \<longrightarrow>
      slot_key (buildBridgeClientKey r'') \<noteq> slot_key (buildBridgeClientKey r)"
    and "seconds = int (digits_value (header_Get (setRetryAfter h e) ''Retry-After''))"
    and "t + seconds * second \<le> t'"
  shows "1 \<le> seconds \<and> seconds \<le> 60 \<and>
    \<not> rate_refused (snd (reserveBridgeConnection
        (guard_after reserveBridgeConnection clearBridgeConnection g between) r' t'))"
proof -
  from assms(6) obtain k w where e: "e = UpgradeRateExceeded k w" by (auto simp: rate_refused_def)
  have "tunnel_rate.limiter_ok (buildBridgeAbuseGuard cfg) T"
    using assms(1,2) unfolding tunnel_rate.limiter_ok_def by simp
  from tunnel_rate.limiter_ok_run [OF this assms(3)] assms(4,5,7,8) e
  have wait: "0 < w \<and> w \<le> minute \<and> (rate_refused (snd (reserveBridgeConnection
      (guard_after reserveBridgeConnection clearBridgeConnection g between) r' t')) \<longleftrightarrow> t' < t + w)"
    by (intro tunnel_rate.refusal_wait_exact [of _ t r g k w between r' t']) auto
  then have "seconds = ceil_Seconds w"
    using assms(9) e ceil_Seconds_pos [of w] by (simp add: retry_after_value strconv_Itoa_def)
  with wait assms(10) ceil_Seconds_pos [of w] ceil_Seconds_minute [of w] ceil_Seconds_bounds(1) [of w]
  show ?thesis by auto
qed

theorem retry_after_obeyed_witness:
  "\<not> rate_refused (snd (reserveBridgeConnection
     (fst (reserveBridgeConnection
        (guard_after reserveBridgeConnection clearBridgeConnection
           (buildBridgeAbuseGuard (capped_config 0 0 1)) [Attempt client_a minute])
        client_a (minute + 3))) client_a (2 * minute + 3)))"
proof -
  let ?g = "guard_after reserveBridgeConnection clearBridgeConnection
              (buildBridgeAbuseGuard (capped_config 0 0 1)) [Attempt client_a minute]"
  have res: "reserveBridgeConnection ?g client_a (minute + 3) =
    (fst (reserveBridgeConnection ?g client_a (minute + 3)),
     Some (UpgradeRateExceeded ''10.0.0.1'' (minute - 3)))"
    by (simp add: guard_run minute_def second_def time_Sub_def max_duration_def min_duration_def)
  have "ceil_Seconds (minute - 3) = 60" by (simp add: ceil_Seconds_def minute_def second_def)
  then have "header_Get (setRetryAfter [] (UpgradeRateExceeded ''10.0.0.1'' (minute - 3)))
      ''Retry-After'' = strconv_Itoa 60"
    by (simp add: retry_after_value minute_def second_def)
  then have "int (digits_value (header_Get (setRetryAfter []
      (UpgradeRateExceeded ''10.0.0.1'' (minute - 3))) ''Retry-After'')) = 60"
    by (simp add: strconv_Itoa_def)
  with retry_after_obeyed [OF _ _ _ _ res _ _ _ refl, of minute "[]" client_a "2 * minute + 3" "[]"]
  show ?thesis by (simp add: minute_def second_def)
qed

text \<open>
  Both packages write the header alike, and only where the wait is known: the refusals of the
  two connection caps leave the headers of the response as they were.
\<close>

theorem caps_carry_no_retry_after:
  "setRetryAfter h ActiveCapExceeded = h \<and> setRetryAfter h (ClientCapExceeded k) = h \<and>
   setRetryAfterHeader h e = setRetryAfter h e"
  by (simp add: setRetryAfterHeader_same setRetryAfter_def errors_As_RetryAfterError_def)

end
