(* ===== verification/Logging.thy ===== *)
theory Logging
  imports Go_Http
begin

text \<open>
  The structured log lines of both packages (\<open>logging.go\<close>): \<open>strconv.Quote\<close>, the fields of a
  request, the request identifier and the trace identifiers, and the two line builders. A reader
  that splits a line back into its fields shows that no header or address a client sends can forge
  a field or start a new line.
\<close>

section \<open>strconv.Quote\<close>

definition code :: "char \<Rightarrow> nat" where [simp]: "code c = of_char c"

definition cont_byte :: "char \<Rightarrow> bool" where
  "cont_byte c \<longleftrightarrow> 128 \<le> code c \<and> code c \<le> 191"

text \<open>
  \<open>utf8.DecodeRuneInString\<close> on a non-empty string: the rune and its width; an invalid encoding is
  U+FFFD of width one.
\<close>

definition decode_rune :: "string \<Rightarrow> nat \<times> nat" where
  "decode_rune s =
     (let b0 = code (s ! 0); b1 = s ! 1; b2 = s ! 2; b3 = s ! 3; n = length s in
      if b0 < 128 then (b0, 1)
      else if 194 \<le> b0 \<and> b0 \<le> 223 \<and> 2 \<le> n \<and> cont_byte b1
        then ((b0 - 192) * 64 + (code b1 - 128), 2)
      else if 224 \<le> b0 \<and> b0 \<le> 239 \<and> 3 \<le> n \<and> cont_byte b1 \<and> cont_byte b2 \<and>
              (b0 = 224 \<longrightarrow> 160 \<le> code b1) \<and> (b0 = 237 \<longrightarrow> code b1 \<le> 159)
        then ((b0 - 224) * 4096 + (code b1 - 128) * 64 + (code b2 - 128), 3)
      else if 240 \<le> b0 \<and> b0 \<le> 244 \<and> 4 \<le> n \<and> cont_byte b1 \<and> cont_byte b2 \<and> cont_byte b3 \<and>
              (b0 = 240 \<longrightarrow> 144 \<le> code b1) \<and> (b0 = 244 \<longrightarrow> code b1 \<le> 143)
        then ((b0 - 240) * 262144 + (code b1 - 128) * 4096 + (code b2 - 128) * 64 + (code b3 - 128), 4)
      else (65533, 1))"

definition hex_char :: "nat \<Rightarrow> char" where
  "hex_char d = (let n = d mod 16 in char_of (if n < 10 then 48 + n else 87 + n))"

fun hex_pad :: "nat \<Rightarrow> nat \<Rightarrow> string" where
  "hex_pad 0 x = []"
| "hex_pad (Suc n) x = hex_pad n (x div 16) @ [hex_char x]"

text \<open>
  \<open>strconv.IsPrint\<close> on ASCII is written out; on other runes it is a table of the library, the
  parameter \<open>printable\<close>.
\<close>

definition strconv_IsPrint :: "(nat \<Rightarrow> bool) \<Rightarrow> nat \<Rightarrow> bool" where
  "strconv_IsPrint printable r = (if r < 128 then 32 \<le> r \<and> r < 127 else printable r)"

definition escape_rune :: "(nat \<Rightarrow> bool) \<Rightarrow> nat \<Rightarrow> string \<Rightarrow> string" where
  "escape_rune printable r raw =
     (if r = 34 \<or> r = 92 then CHR 0x5C # raw
      else if strconv_IsPrint printable r then raw
      else if r = 7 then [CHR 0x5C, CHR ''a'']
      else if r = 8 then [CHR 0x5C, CHR ''b'']
      else if r = 12 then [CHR 0x5C, CHR ''f'']
      else if r = 10 then [CHR 0x5C, CHR ''n'']
      else if r = 13 then [CHR 0x5C, CHR ''r'']
      else if r = 9 then [CHR 0x5C, CHR ''t'']
      else if r = 11 then [CHR 0x5C, CHR ''v'']
      else if r < 32 \<or> r = 127 then [CHR 0x5C, CHR ''x''] @ hex_pad 2 r
      else if r < 65536 then [CHR 0x5C, CHR ''u''] @ hex_pad 4 r
      else [CHR 0x5C, CHR ''U''] @ hex_pad 8 r)"

lemma decode_rune_width: "0 < snd (decode_rune s)"
  by (simp add: decode_rune_def Let_def)

function quote_body :: "(nat \<Rightarrow> bool) \<Rightarrow> string \<Rightarrow> string" where
  "quote_body printable s =
     (if s = [] then []
      else case decode_rune s of
        (r, width) \<Rightarrow>
          (if width = 1 \<and> r = 65533 then [CHR 0x5C, CHR ''x''] @ hex_pad 2 (code (s ! 0))
           else escape_rune printable r (take width s)) @ quote_body printable (drop width s))"
  by auto
termination
proof (relation "measure (\<lambda>(p, s). length s)", goal_cases)
  case (2 printable s x r)
  with decode_rune_width [of s] show ?case by (cases "decode_rune s") auto
qed simp

declare quote_body.simps [simp del]

definition strconv_Quote :: "(nat \<Rightarrow> bool) \<Rightarrow> string \<Rightarrow> string" where
  "strconv_Quote printable s = CHR 0x22 # quote_body printable s @ [CHR 0x22]"

section \<open>Fields and lines\<close>

definition appendGrpctunnelLogField ::
    "(nat \<Rightarrow> bool) \<Rightarrow> string \<Rightarrow> string \<Rightarrow> string \<Rightarrow> string" where
  "appendGrpctunnelLogField printable b key val =
     (let key = strings_TrimSpace key; val = strings_TrimSpace val in
      if key = [] \<or> val = [] then b
      else b @ (if b \<noteq> [] then '' '' else []) @ key @ ''='' @ strconv_Quote printable val)"

definition appendBridgeLogField ::
    "(nat \<Rightarrow> bool) \<Rightarrow> string \<Rightarrow> string \<Rightarrow> string \<Rightarrow> string" where
  "appendBridgeLogField printable b key val =
     (let key = strings_TrimSpace key; val = strings_TrimSpace val in
      if key = [] \<or> val = [] then b
      else b @ '' '' @ key @ ''='' @ strconv_Quote printable val)"

primrec first_header :: "header \<Rightarrow> string list \<Rightarrow> string" where
  "first_header h [] = []"
| "first_header h (n # ns) =
     (let headerValue = strings_TrimSpace (header_Get h n) in
      if headerValue \<noteq> [] then headerValue else first_header h ns)"

definition getGrpctunnelRequestID :: "http_request option \<Rightarrow> string" where
  "getGrpctunnelRequestID r =
     (case r of
        None \<Rightarrow> []
      | Some r \<Rightarrow> first_header (Header r)
          [''X-Request-Id'', ''X-Request-ID'', ''X-Correlation-Id'', ''X-Correlation-ID''])"

definition getBridgeRequestID :: "http_request option \<Rightarrow> string" where
  "getBridgeRequestID r =
     (case r of
        None \<Rightarrow> []
      | Some r \<Rightarrow> first_header (Header r)
          [''X-Request-Id'', ''X-Request-ID'', ''X-Correlation-Id'', ''X-Correlation-ID''])"

definition getGrpctunnelTraceSpanIDs :: "span_context option \<Rightarrow> string \<times> string" where
  "getGrpctunnelTraceSpanIDs ctx =
     (case ctx of None \<Rightarrow> ([], []) | Some sc \<Rightarrow> (sc_TraceID sc, sc_SpanID sc))"

definition getBridgeTraceSpanIDs :: "span_context option \<Rightarrow> string \<times> string" where
  "getBridgeTraceSpanIDs ctx =
     (case ctx of None \<Rightarrow> ([], []) | Some sc \<Rightarrow> (sc_TraceID sc, sc_SpanID sc))"

text \<open>
  The fields a line is built from, in the order in which the builders append them; the error is
  the text of \<open>err.Error()\<close>.
\<close>

definition request_fields :: "string \<Rightarrow> string \<times> string \<Rightarrow> http_request \<Rightarrow> (string \<times> string) list" where
  "request_fields request_id ids r =
     [(''request_id'', request_id),
      (''remote_addr'', strings_TrimSpace (RemoteAddr r)),
      (''origin'', strings_TrimSpace (header_Get (Header r) ''Origin'')),
      (''method'', strings_TrimSpace (Method r))] @
     (case URLPath r of None \<Rightarrow> [] | Some p \<Rightarrow> [(''path'', strings_TrimSpace p)]) @
     [(''trace_id'', fst ids), (''span_id'', snd ids)]"

definition error_field :: "string option \<Rightarrow> (string \<times> string) list" where
  "error_field err = (case err of None \<Rightarrow> [] | Some e \<Rightarrow> [(''error'', strings_TrimSpace e)])"

definition trimmed_or :: "string \<Rightarrow> string \<Rightarrow> string" where
  "trimmed_or val dflt = (let v = strings_TrimSpace val in if v = [] then dflt else v)"

definition grpctunnel_log_fields ::
    "string \<Rightarrow> string \<Rightarrow> string \<Rightarrow> http_request option \<Rightarrow> string option \<Rightarrow> string \<Rightarrow> (string \<times> string) list" where
  "grpctunnel_log_fields component level event r err msg =
     [(''component'', trimmed_or component ''grpctunnel''),
      (''level'', trimmed_or level ''INFO''),
      (''event'', trimmed_or event ''grpctunnel_event''),
      (''msg'', msg)] @
     (case r of None \<Rightarrow> []
      | Some q \<Rightarrow> request_fields (getGrpctunnelRequestID r)
                    (getGrpctunnelTraceSpanIDs (SpanContext q)) q) @
     error_field err"

definition buildGrpctunnelLogLine ::
    "(nat \<Rightarrow> bool) \<Rightarrow> string \<Rightarrow> string \<Rightarrow> string \<Rightarrow> http_request option \<Rightarrow> string option \<Rightarrow> string \<Rightarrow> string" where
  "buildGrpctunnelLogLine printable component level event r err msg =
     fold (\<lambda>(k, v) b. appendGrpctunnelLogField printable b k v)
       (grpctunnel_log_fields component level event r err msg) []"

definition bridge_log_fields ::
    "string \<Rightarrow> string \<Rightarrow> http_request option \<Rightarrow> string option \<Rightarrow> string \<Rightarrow> (string \<times> string) list" where
  "bridge_log_fields level event r err msg =
     [(''level'', trimmed_or level ''INFO''),
      (''event'', trimmed_or event ''bridge_event''),
      (''msg'', msg)] @
     (case r of None \<Rightarrow> []
      | Some q \<Rightarrow> request_fields (getBridgeRequestID r)
                    (getBridgeTraceSpanIDs (SpanContext q)) q) @
     error_field err"

definition buildBridgeLogLine ::
    "(nat \<Rightarrow> bool) \<Rightarrow> string \<Rightarrow> string \<Rightarrow> http_request option \<Rightarrow> string option \<Rightarrow> string \<Rightarrow> string" where
  "buildBridgeLogLine printable level event r err msg =
     fold (\<lambda>(k, v) b. appendBridgeLogField printable b k v)
       (bridge_log_fields level event r err msg) ''component=bridge''"

section \<open>Reading a line back\<close>

text \<open>The part of a quoted value up to its closing quote, and what follows the quote.\<close>

fun scan_quoted :: "string \<Rightarrow> (string \<times> string) option" where
  "scan_quoted [] = None"
| "scan_quoted (c # s) =
     (if c = CHR 0x22 then Some ([], s)
      else if c = CHR 0x5C then
        (case s of [] \<Rightarrow> None
         | d # s' \<Rightarrow> map_option (map_prod (\<lambda>b. c # d # b) id) (scan_quoted s'))
      else map_option (map_prod ((#) c) id) (scan_quoted s))"

text \<open>Fields \<open>key="value"\<close> separated by single blanks; the fuel bounds their number.\<close>

fun read_fields :: "nat \<Rightarrow> string \<Rightarrow> (string \<times> string) list option" where
  "read_fields 0 s = None"
| "read_fields (Suc n) s =
     (case index_byte s (CHR ''='') of
        None \<Rightarrow> None
      | Some i \<Rightarrow>
          if take 1 (drop (Suc i) s) \<noteq> [CHR 0x22] then None
          else case scan_quoted (drop (i + 2) s) of
            None \<Rightarrow> None
          | Some (body, []) \<Rightarrow> Some [(take i s, body)]
          | Some (body, c # rest) \<Rightarrow>
              if c = CHR '' '' then map_option ((#) (take i s, body)) (read_fields n rest) else None)"

text \<open>
  A body is well formed if it is a concatenation of printable bytes other than quote and backslash
  and of escapes of a printable byte; every body \<open>Quote\<close> makes is.
\<close>

definition plain_byte :: "char \<Rightarrow> bool" where
  "plain_byte c \<longleftrightarrow> 32 \<le> code c \<and> code c \<noteq> 127 \<and> code c \<noteq> 34 \<and> code c \<noteq> 92"

inductive quoted_ok :: "string \<Rightarrow> bool" where
  ok_Nil: "quoted_ok []"
| ok_plain: "plain_byte c \<Longrightarrow> quoted_ok s \<Longrightarrow> quoted_ok (c # s)"
| ok_escape: "32 \<le> code d \<Longrightarrow> code d \<noteq> 127 \<Longrightarrow> quoted_ok s \<Longrightarrow> quoted_ok (CHR 0x5C # d # s)"

lemma quoted_ok_append: "quoted_ok s \<Longrightarrow> quoted_ok t \<Longrightarrow> quoted_ok (s @ t)"
  by (induction s rule: quoted_ok.induct) (auto intro: quoted_ok.intros)

lemma quoted_ok_plain: "list_all plain_byte s \<Longrightarrow> quoted_ok s"
  by (induction s) (auto intro: quoted_ok.intros)

lemma scan_quoted_ok: "quoted_ok s \<Longrightarrow> scan_quoted (s @ CHR 0x22 # rest) = Some (s, rest)"
  by (induction s rule: quoted_ok.induct) (auto simp: plain_byte_def)

lemma quoted_ok_bytes: "quoted_ok s \<Longrightarrow> c \<in> set s \<Longrightarrow> 32 \<le> code c \<and> code c \<noteq> 127"
  by (induction s rule: quoted_ok.induct) (auto simp: plain_byte_def)

lemma hex_char_plain [simp]: "plain_byte (hex_char d)"
proof -
  define n where "n = d mod 16"
  then have n: "n < 16" by simp
  then have "code (hex_char d) = (if n < 10 then 48 + n else 87 + n)"
    by (simp add: hex_char_def Let_def n_def)
  with n show ?thesis by (simp add: plain_byte_def split: if_splits)
qed

lemma hex_pad_plain [simp]: "list_all plain_byte (hex_pad n x)"
  by (induction n arbitrary: x) auto

text \<open>The bytes of an encoded rune of two or more bytes are printable as bytes.\<close>

lemma cont_plain: "cont_byte c \<Longrightarrow> plain_byte c"
  and lead_plain: "128 \<le> code c \<Longrightarrow> plain_byte c"
  by (simp_all add: cont_byte_def plain_byte_def)

lemma take_plain:
  "128 \<le> code (s ! 0) \<Longrightarrow> (\<And>i. 0 < i \<Longrightarrow> i < w \<Longrightarrow> cont_byte (s ! i)) \<Longrightarrow> list_all plain_byte (take w s)"
  unfolding list_all_length by (metis cont_plain lead_plain gr0I length_take min_less_iff_conj nth_take)

lemma multibyte_plain:
  assumes "decode_rune s = (r, width)" and "width \<noteq> 1"
  shows "128 \<le> r \<and> list_all plain_byte (take width s)"
proof -
  from assms have "128 \<le> code (s ! 0)" by (auto simp: decode_rune_def Let_def split: if_splits)
  moreover from assms have "cont_byte (s ! i)" if "0 < i" "i < width" for i
  proof -
    have "width = 2 \<or> width = 3 \<or> width = 4"
      using assms by (auto simp: decode_rune_def Let_def split: if_splits)
    with that have "i = 1 \<or> i = 2 \<and> width \<noteq> 2 \<or> i = 3 \<and> width = 4" by arith
    with assms show ?thesis by (auto simp: decode_rune_def Let_def split: if_splits)
  qed
  moreover have "128 \<le> r"
  proof -
    have c: "128 \<le> code (s ! 0)" by fact
    show ?thesis using assms
      by (auto simp: decode_rune_def Let_def split: if_splits)
  qed
  ultimately show ?thesis by (simp add: take_plain)
qed

lemma escape_text_ok:
  assumes "r = 34 \<or> r = 92 \<Longrightarrow> quoted_ok (CHR 0x5C # raw)"
    and "\<not> (r = 34 \<or> r = 92) \<Longrightarrow> strconv_IsPrint printable r \<Longrightarrow> quoted_ok raw"
  shows "quoted_ok (escape_rune printable r raw)"
proof -
  have esc: "quoted_ok [CHR 0x5C, CHR ''a'']" "quoted_ok [CHR 0x5C, CHR ''b'']"
      "quoted_ok [CHR 0x5C, CHR ''f'']" "quoted_ok [CHR 0x5C, CHR ''n'']"
      "quoted_ok [CHR 0x5C, CHR ''r'']" "quoted_ok [CHR 0x5C, CHR ''t'']"
      "quoted_ok [CHR 0x5C, CHR ''v'']" "quoted_ok ([CHR 0x5C, CHR ''x''] @ hex_pad n r)"
      "quoted_ok ([CHR 0x5C, CHR ''u''] @ hex_pad n r)" "quoted_ok ([CHR 0x5C, CHR ''U''] @ hex_pad n r)"
    for n by (simp_all add: ok_escape ok_Nil quoted_ok_plain)
  consider "r = 34 \<or> r = 92" | "\<not> (r = 34 \<or> r = 92)" "strconv_IsPrint printable r"
    | "\<not> (r = 34 \<or> r = 92)" "\<not> strconv_IsPrint printable r" by blast
  then show ?thesis
  proof cases
    case 1
    with assms(1) show ?thesis by (simp only: escape_rune_def if_True)
  next
    case 2
    from assms(2) [OF this] show ?thesis
      unfolding escape_rune_def if_not_P [OF 2(1)] if_P [OF 2(2)] .
  next
    case 3
    show ?thesis
      unfolding escape_rune_def if_not_P [OF 3(1)] if_not_P [OF 3(2)] by (simp only: esc split: if_split) simp
  qed
qed

lemma escape_rune_ok:
  assumes "decode_rune s = (r, width)" and "s \<noteq> []" and "\<not> (width = 1 \<and> r = 65533)"
  shows "quoted_ok (escape_rune printable r (take width s))"
proof (rule escape_text_ok)
  have single: "width = 1 \<Longrightarrow> r = code (s ! 0) \<and> r < 128 \<and> take width s = [s ! 0]"
    using assms by (auto simp: decode_rune_def Let_def take_Suc hd_conv_nth split: if_splits)
  note multi = multibyte_plain [OF assms(1)]
  { assume "r = 34 \<or> r = 92"
    then have "width = 1" using multi by fastforce
    with single \<open>r = 34 \<or> r = 92\<close> show "quoted_ok (CHR 0x5C # take width s)"
      by (auto intro!: ok_escape ok_Nil) }
  { assume "\<not> (r = 34 \<or> r = 92)" "strconv_IsPrint printable r"
    with single multi show "quoted_ok (take width s)"
      by (cases "width = 1") (auto simp: strconv_IsPrint_def plain_byte_def intro!: quoted_ok_plain) }
qed

lemma quote_body_ok: "quoted_ok (quote_body printable s)"
proof (induction printable s rule: quote_body.induct)
  case (1 printable s)
  show ?case
  proof (cases "s = []")
    case False
    obtain r width where d: "decode_rune s = (r, width)" by fastforce
    let ?one = "if width = 1 \<and> r = 65533 then [CHR 0x5C, CHR ''x''] @ hex_pad 2 (code (s ! 0))
                else escape_rune printable r (take width s)"
    have "quoted_ok ?one"
      using escape_rune_ok [OF d False] by (auto simp: ok_escape quoted_ok_plain)
    from quoted_ok_append [OF this] 1 [OF False d [symmetric]] False d show ?thesis
      by (simp add: quote_body.simps [of printable s])
  qed (simp add: quote_body.simps ok_Nil)
qed

section \<open>Lines and their fields\<close>

definition kept_fields :: "(string \<times> string) list \<Rightarrow> (string \<times> string) list" where
  "kept_fields fs =
     filter (\<lambda>(k, v). k \<noteq> [] \<and> v \<noteq> []) (map (map_prod strings_TrimSpace strings_TrimSpace) fs)"

definition field_text :: "(nat \<Rightarrow> bool) \<Rightarrow> string \<times> string \<Rightarrow> string" where
  "field_text printable f = fst f @ ''='' @ strconv_Quote printable (snd f)"

fun join_fields :: "string list \<Rightarrow> string" where
  "join_fields [] = []"
| "join_fields [x] = x"
| "join_fields (x # y # xs) = x @ '' '' @ join_fields (y # xs)"

lemma join_fields_Cons: "xs \<noteq> [] \<Longrightarrow> join_fields (x # xs) = x @ '' '' @ join_fields xs"
  by (cases xs) simp_all

lemma kept_fields_simps [simp]:
  "kept_fields [] = []"
  "kept_fields (f # fs) =
     (if strings_TrimSpace (fst f) = [] \<or> strings_TrimSpace (snd f) = [] then kept_fields fs
      else (strings_TrimSpace (fst f), strings_TrimSpace (snd f)) # kept_fields fs)"
  by (cases f; simp add: kept_fields_def)+

lemma field_text_nonempty [simp]: "field_text p f \<noteq> []"
  by (simp add: field_text_def)

lemma fold_grpctunnel_fields:
  "fold (\<lambda>(k, v) b. appendGrpctunnelLogField p b k v) fs b =
     (if kept_fields fs = [] then b
      else if b = [] then join_fields (map (field_text p) (kept_fields fs))
      else b @ '' '' @ join_fields (map (field_text p) (kept_fields fs)))"
proof (induction fs arbitrary: b)
  case (Cons f fs)
  then show ?case
    by (cases f) (auto simp: appendGrpctunnelLogField_def Let_def join_fields_Cons field_text_def)
qed simp

lemma fold_bridge_fields:
  "fold (\<lambda>(k, v) b. appendBridgeLogField p b k v) fs b =
     (if kept_fields fs = [] then b
      else b @ '' '' @ join_fields (map (field_text p) (kept_fields fs)))"
proof (induction fs arbitrary: b)
  case (Cons f fs)
  then show ?case
    by (cases f) (auto simp: appendBridgeLogField_def Let_def join_fields_Cons field_text_def)
qed simp

lemma field_text_pair:
  "field_text p (k, v) = k @ CHR ''='' # CHR 0x22 # quote_body p v @ [CHR 0x22]"
  by (simp add: field_text_def strconv_Quote_def)

lemma index_byte_first: "c \<notin> set k \<Longrightarrow> index_byte (k @ c # s) c = Some (length k)"
  by (induction k) auto

lemma read_join_fields:
  "fs \<noteq> [] \<Longrightarrow> length fs \<le> n \<Longrightarrow> (\<And>k v. (k, v) \<in> set fs \<Longrightarrow> CHR ''='' \<notin> set k) \<Longrightarrow>
   read_fields n (join_fields (map (field_text p) fs)) =
     Some (map (\<lambda>(k, v). (k, quote_body p v)) fs)"
proof (induction fs arbitrary: n)
  case (Cons f fs)
  obtain k v where f: "f = (k, v)" by fastforce
  obtain m where n: "n = Suc m" using Cons.prems(2) by (cases n) auto
  have k: "CHR ''='' \<notin> set k" using Cons.prems(3) f by auto
  show ?case
  proof (cases "fs = []")
    case True
    with f n k scan_quoted_ok [OF quote_body_ok, of p v "[]"] show ?thesis
      by (simp add: field_text_pair index_byte_first)
  next
    case False
    have "read_fields m (join_fields (map (field_text p) fs)) =
      Some (map (\<lambda>(k, v). (k, quote_body p v)) fs)"
    proof (rule Cons.IH [OF False])
      show "length fs \<le> m" using Cons.prems(2) n by simp
      show "CHR ''='' \<notin> set k" if "(k, v) \<in> set fs" for k v
        using Cons.prems(3) [of k v] that by simp
    qed
    with f n k False scan_quoted_ok [OF quote_body_ok, of p v "CHR '' '' # rest" for rest] show ?thesis
      by (simp add: join_fields_Cons field_text_pair index_byte_first)
  qed
qed simp

text \<open>The keys of the builders are literals without blanks or equality signs.\<close>

lemma plain_key:
  "list_all plain_end k \<Longrightarrow> CHR ''='' \<notin> set k \<Longrightarrow> CHR ''='' \<notin> set (strings_TrimSpace k)"
  by (simp add: TrimSpace_all_plain)

lemma kept_keys_subset:
  "(k, v) \<in> set (kept_fields fs) \<Longrightarrow> \<exists>k' v'. (k', v') \<in> set fs \<and> k = strings_TrimSpace k'"
  by (auto simp: kept_fields_def)

definition log_keys :: "string set" where
  "log_keys = {''component'', ''level'', ''event'', ''msg'', ''request_id'', ''remote_addr'',
     ''origin'', ''method'', ''path'', ''trace_id'', ''span_id'', ''error''}"

lemma log_keys_plain: "k \<in> log_keys \<Longrightarrow> CHR ''='' \<notin> set (strings_TrimSpace k) \<and> strings_TrimSpace k \<noteq> []"
  by (auto simp: log_keys_def TrimSpace_all_plain plain_end_def ascii_space_def is_ascii_def)

lemma log_fields_keys:
  "(k, v) \<in> set (grpctunnel_log_fields component level event r err msg) \<Longrightarrow> k \<in> log_keys"
  "(k, v) \<in> set (bridge_log_fields level event r err msg) \<Longrightarrow> k \<in> log_keys"
  by (auto simp: grpctunnel_log_fields_def bridge_log_fields_def request_fields_def error_field_def
      log_keys_def split: option.splits)

lemma log_fields_length:
  "length (grpctunnel_log_fields component level event r err msg) \<le> 12"
  "length (bridge_log_fields level event r err msg) \<le> 12"
  by (auto simp: grpctunnel_log_fields_def bridge_log_fields_def request_fields_def error_field_def
      split: option.split)

lemma kept_fields_length: "length (kept_fields fs) \<le> length fs"
  unfolding kept_fields_def by (rule order_trans [OF length_filter_le]) simp

lemma read_kept_fields:
  assumes "kept_fields fs \<noteq> []" and "length fs \<le> 12" and "\<And>k v. (k, v) \<in> set fs \<Longrightarrow> k \<in> log_keys"
  shows "read_fields 12 (join_fields (map (field_text p) (kept_fields fs))) =
    Some (map (\<lambda>(k, v). (k, quote_body p v)) (kept_fields fs))"
proof (rule read_join_fields [OF assms(1)])
  show "length (kept_fields fs) \<le> 12" using kept_fields_length [of fs] assms(2) by linarith
  show "CHR ''='' \<notin> set k" if "(k, v) \<in> set (kept_fields fs)" for k v
    using kept_keys_subset [OF that] assms(3) log_keys_plain by blast
qed

text \<open>No byte of a line is a control character.\<close>

definition clean :: "string \<Rightarrow> bool" where
  "clean s \<longleftrightarrow> (\<forall>c\<in>set s. 32 \<le> code c \<and> code c \<noteq> 127)"

lemma clean_simps [simp]:
  "clean []" "clean (c # s) \<longleftrightarrow> 32 \<le> code c \<and> code c \<noteq> 127 \<and> clean s"
  "clean (s @ t) \<longleftrightarrow> clean s \<and> clean t"
  by (auto simp: clean_def)

lemma clean_join: "list_all clean xs \<Longrightarrow> clean (join_fields xs)"
  by (induction xs rule: join_fields.induct) simp_all

lemma clean_quote_body: "clean (quote_body p v)"
  unfolding clean_def using quoted_ok_bytes [OF quote_body_ok] by blast

lemma clean_field: "clean k \<Longrightarrow> clean (field_text p (k, v))"
  by (simp add: field_text_pair clean_quote_body)

lemma log_keys_clean: "k \<in> log_keys \<Longrightarrow> clean (strings_TrimSpace k)"
  by (auto simp: log_keys_def TrimSpace_all_plain plain_end_def ascii_space_def is_ascii_def)

lemma clean_kept:
  "(\<And>k v. (k, v) \<in> set fs \<Longrightarrow> k \<in> log_keys) \<Longrightarrow>
   clean (join_fields (map (field_text p) (kept_fields fs)))"
  by (rule clean_join)
     (auto simp: list_all_iff dest!: kept_keys_subset intro!: clean_field log_keys_clean)

lemma first_field_kept:
  "strings_TrimSpace d \<noteq> [] \<Longrightarrow> strings_TrimSpace k \<noteq> [] \<Longrightarrow>
   kept_fields ((k, trimmed_or v d) # fs) \<noteq> []"
  by (auto simp: trimmed_or_def Let_def)

text \<open>
  A tunnel server's log line cannot be forged. Whatever the headers, the address, the method,
  the path and the error text contain, the line is free of control characters, so it is one line,
  and reading it back field by field yields exactly the fields the server wrote: no value can close
  its quotes and add a field of its own.
\<close>

theorem log_line_unforgeable:
  "clean (buildGrpctunnelLogLine printable component level event r err msg) \<and>
   read_fields 12 (buildGrpctunnelLogLine printable component level event r err msg) =
     Some (map (\<lambda>(k, v). (k, quote_body printable v))
       (kept_fields (grpctunnel_log_fields component level event r err msg)))"
proof -
  let ?fs = "grpctunnel_log_fields component level event r err msg"
  have "kept_fields ?fs \<noteq> []"
    unfolding grpctunnel_log_fields_def append_Cons
    by (rule first_field_kept)
       (simp_all add: TrimSpace_all_plain plain_end_def ascii_space_def is_ascii_def)
  then show ?thesis
    using read_kept_fields [of ?fs printable] clean_kept [of ?fs printable]
      log_fields_keys(1) [of _ _ component level event r err msg] log_fields_length(1)
    by (simp add: buildGrpctunnelLogLine_def fold_grpctunnel_fields)
qed

text \<open>
  The same for the stand-alone proxy, whose lines start with an unquoted component: behind it
  the reader finds exactly the fields the proxy wrote.
\<close>

theorem bridge_log_line_unforgeable:
  "\<exists>rest. buildBridgeLogLine printable level event r err msg = ''component=bridge '' @ rest \<and>
   clean rest \<and>
   read_fields 12 rest = Some (map (\<lambda>(k, v). (k, quote_body printable v))
     (kept_fields (bridge_log_fields level event r err msg)))"
proof -
  let ?fs = "bridge_log_fields level event r err msg"
  have ne: "kept_fields ?fs \<noteq> []"
    unfolding bridge_log_fields_def append_Cons
    by (rule first_field_kept)
       (simp_all add: TrimSpace_all_plain plain_end_def ascii_space_def is_ascii_def)
  let ?rest = "join_fields (map (field_text printable) (kept_fields ?fs))"
  have "buildBridgeLogLine printable level event r err msg = ''component=bridge '' @ ?rest"
    using ne by (simp add: buildBridgeLogLine_def fold_bridge_fields)
  moreover have "clean ?rest" using log_fields_keys(2) by (intro clean_kept) blast
  moreover have "read_fields 12 ?rest = Some (map (\<lambda>(k, v). (k, quote_body printable v)) (kept_fields ?fs))"
    using ne log_fields_keys(2) log_fields_length(2) by (intro read_kept_fields) blast+
  ultimately show ?thesis by blast
qed

end
