(* ===== verification/Forward_Headers.thy ===== *)
theory Forward_Headers
  imports Logging
begin

text \<open>
  Request metadata that the tunnel server forwards into tunneled requests (\<open>server.go\<close>): the set of
  headers it collects from the upgrade request and the span context, and the wrapper that injects
  them into each HTTP/2 request. Header names differ in case between HTTP/1 and gRPC metadata; both
  ends go through \<open>http.CanonicalHeaderKey\<close>.
\<close>

section \<open>The forwarded set\<close>

primrec resolveBridgeHeaderValue :: "header \<Rightarrow> string list \<Rightarrow> string" where
  "resolveBridgeHeaderValue h [] = []"
| "resolveBridgeHeaderValue h (headerName # names) =
     (let headerName = strings_TrimSpace headerName in
      if headerName = [] then resolveBridgeHeaderValue h names
      else let headerValue = strings_TrimSpace (header_Get h headerName) in
           if headerValue \<noteq> [] then headerValue else resolveBridgeHeaderValue h names)"

definition hex_byte :: "nat \<Rightarrow> string" where
  "hex_byte n = hex_pad 2 n"

definition buildBridgeTraceParentFromContext :: "span_context option \<Rightarrow> string" where
  "buildBridgeTraceParentFromContext ctx =
     (case ctx of
        None \<Rightarrow> []
      | Some sc \<Rightarrow> ''00-'' @ sc_TraceID sc @ ''-'' @ sc_SpanID sc @ ''-'' @ hex_byte (sc_TraceFlags sc))"

definition buildBridgeTraceStateFromContext :: "span_context option \<Rightarrow> string" where
  "buildBridgeTraceStateFromContext ctx =
     (case ctx of None \<Rightarrow> [] | Some sc \<Rightarrow> strings_TrimSpace (sc_TraceState sc))"

definition set_nonempty :: "string \<Rightarrow> string \<Rightarrow> header \<Rightarrow> header" where
  "set_nonempty k v h = (if v \<noteq> [] then header_Set h k v else h)"

text \<open>The headers taken from the upgrade request, and the fallback to the span context.\<close>

definition forward_request_headers :: "http_request \<Rightarrow> header" where
  "forward_request_headers q =
     (let requestID = strings_TrimSpace (getGrpctunnelRequestID (Some q));
          h = set_nonempty ''x-request-id'' requestID [];
          correlationID =
            resolveBridgeHeaderValue (Header q) [''X-Correlation-Id'', ''X-Correlation-ID''];
          correlationID = (if correlationID = [] then requestID else correlationID);
          h = set_nonempty ''x-correlation-id'' correlationID h;
          h = set_nonempty ''traceparent'' (resolveBridgeHeaderValue (Header q) [''traceparent'']) h
      in set_nonempty ''tracestate'' (resolveBridgeHeaderValue (Header q) [''tracestate'']) h)"

definition fill_blank :: "string \<Rightarrow> string \<Rightarrow> header \<Rightarrow> header" where
  "fill_blank k v h = (if strings_TrimSpace (header_Get h k) = [] then set_nonempty k v h else h)"

definition buildBridgeForwardHeaders :: "http_request option \<Rightarrow> span_context option \<Rightarrow> header" where
  "buildBridgeForwardHeaders r ctx =
     (let h = (case r of None \<Rightarrow> [] | Some q \<Rightarrow> forward_request_headers q);
          h = fill_blank ''traceparent'' (buildBridgeTraceParentFromContext ctx) h
      in fill_blank ''tracestate'' (buildBridgeTraceStateFromContext ctx) h)"

section \<open>Injection\<close>

text \<open>
  The snapshot of the forwarded set: entries without values are left out, keys are canonical.
\<close>

definition forward_entries :: "header \<Rightarrow> header" where
  "forward_entries forwardHeaders =
     map (\<lambda>(k, vs). (http_CanonicalHeaderKey k, vs)) (filter (\<lambda>(k, vs). vs \<noteq> []) forwardHeaders)"

definition lacks_header :: "header \<Rightarrow> string \<Rightarrow> bool" where
  "lacks_header h k \<longleftrightarrow> strings_TrimSpace (header_Get h k) = []"

definition inject_entry :: "string \<times> string list \<Rightarrow> header \<Rightarrow> header" where
  "inject_entry e h = (if lacks_header h (fst e) then AList.update (fst e) (snd e) h else h)"

text \<open>
  The wrapped handler is described by the request it passes on and whether it cloned it; a nil
  handler is replaced by one that does nothing.
\<close>

datatype forwarded = Untouched "http_request option" | Cloned http_request | Ignored

definition wrapBridgeForwardMetadataHandler ::
    "bool \<Rightarrow> header \<Rightarrow> http_request option \<Rightarrow> forwarded" where
  "wrapBridgeForwardMetadataHandler handler_nil forwardHeaders r =
     (if handler_nil then Ignored
      else let forwardEntries = forward_entries forwardHeaders in
        if forwardEntries = [] then Untouched r
        else case r of
          None \<Rightarrow> Untouched None
        | Some q \<Rightarrow>
            if \<not> list_ex (\<lambda>e. lacks_header (Header q) (fst e)) forwardEntries then Untouched r
            else Cloned (q\<lparr>Header := fold inject_entry forwardEntries (Header q)\<rparr>))"

definition forwarded_header :: "forwarded \<Rightarrow> header" where
  "forwarded_header f =
     (case f of Untouched (Some q) \<Rightarrow> Header q | Cloned q \<Rightarrow> Header q | _ \<Rightarrow> [])"

section \<open>What injection does\<close>

lemma header_Get_update:
  "header_Get (AList.update k vs h) k' =
     (if http_CanonicalHeaderKey k' = k then (case vs of [] \<Rightarrow> [] | v # _ \<Rightarrow> v) else header_Get h k')"
  by (simp add: header_Get_def update_conv' split: list.split)

text \<open>Entries of a snapshot: canonical keys, each once, with values.\<close>

definition entries_ok :: "header \<Rightarrow> bool" where
  "entries_ok es \<longleftrightarrow> distinct (map fst es) \<and>
     (\<forall>(k, vs) \<in> set es. http_CanonicalHeaderKey k = k \<and> vs \<noteq> [])"

lemma entries_ok_Cons [simp]:
  "entries_ok ((k, vs) # es) \<longleftrightarrow>
     http_CanonicalHeaderKey k = k \<and> vs \<noteq> [] \<and> k \<notin> fst ` set es \<and> entries_ok es"
  by (auto simp: entries_ok_def)

text \<open>
  The wrapper walks the entries in the order of a map iteration; the headers that come out are, key
  by key, the old value where there is one and the forwarded one where there is none.
\<close>

lemma map_of_inject_entry:
  "map_of (inject_entry (k', vs) h) k =
     (if k = k' \<and> lacks_header h k' then Some vs else map_of h k)"
  by (simp add: inject_entry_def update_conv')

lemma map_of_inject:
  "entries_ok es \<Longrightarrow>
   map_of (fold inject_entry es h) k =
     (case map_of es k of
        None \<Rightarrow> map_of h k
      | Some vs \<Rightarrow> if lacks_header h k then Some vs else map_of h k)"
proof (induction es arbitrary: h)
  case (Cons e es)
  obtain k' vs where e: "e = (k', vs)" by fastforce
  with Cons.prems have k': "http_CanonicalHeaderKey k' = k'" and notin: "map_of es k' = None"
    by (auto simp: map_of_eq_None_iff)
  have IH: "map_of (fold inject_entry es (inject_entry e h)) k =
     (case map_of es k of
        None \<Rightarrow> map_of (inject_entry e h) k
      | Some vs \<Rightarrow> if lacks_header (inject_entry e h) k then Some vs else map_of (inject_entry e h) k)"
    using Cons e by auto
  show ?case
  proof (cases "k = k'")
    case True
    with IH e notin show ?thesis by (simp add: map_of_inject_entry)
  next
    case False
    have "lacks_header (inject_entry e h) k = lacks_header h k" if "map_of es k \<noteq> None"
    proof -
      from that Cons.prems e have "http_CanonicalHeaderKey k = k"
        by (auto simp: entries_ok_def dest: map_of_SomeD)
      with e False show ?thesis
        by (simp add: inject_entry_def lacks_header_def header_Get_update)
    qed
    with IH e False show ?thesis by (auto simp: map_of_inject_entry split: option.split)
  qed
qed (simp split: option.split)

definition canonical_header :: "header \<Rightarrow> bool" where
  "canonical_header h \<longleftrightarrow> distinct (map fst h) \<and> (\<forall>(k, vs) \<in> set h. http_CanonicalHeaderKey k = k)"

lemma forward_entries_canonical:
  "canonical_header hs \<Longrightarrow> forward_entries hs = filter (\<lambda>(k, vs). vs \<noteq> []) hs"
  unfolding forward_entries_def by (rule map_idI) (auto simp: canonical_header_def)

lemma forward_entries_ok: "canonical_header hs \<Longrightarrow> entries_ok (forward_entries hs)"
  by (simp add: forward_entries_canonical entries_ok_def distinct_map_filter)
     (auto simp: canonical_header_def distinct_map_filter)

text \<open>What the bridge collects is such a header set.\<close>

lemma canonical_Nil [simp]: "canonical_header []"
  by (simp add: canonical_header_def)

lemma set_AList_update: "set (AList.update k v h) \<subseteq> insert (k, v) (set h)"
  by (induction h) auto

lemma canonical_Set [simp]: "canonical_header h \<Longrightarrow> canonical_header (header_Set h k v)"
  using set_AList_update [of "http_CanonicalHeaderKey k" "[v]" h]
  by (auto simp: canonical_header_def header_Set_def distinct_update)

lemma canonical_set_nonempty [simp]: "canonical_header h \<Longrightarrow> canonical_header (set_nonempty k v h)"
  by (simp add: set_nonempty_def)

lemma canonical_fill_blank [simp]: "canonical_header h \<Longrightarrow> canonical_header (fill_blank k v h)"
  by (simp add: fill_blank_def)

lemma forward_headers_canonical: "canonical_header (buildBridgeForwardHeaders r ctx)"
  by (simp add: buildBridgeForwardHeaders_def forward_request_headers_def Let_def split: option.split)

lemma lacks_header_canonical: "lacks_header h (http_CanonicalHeaderKey k) = lacks_header h k"
  by (simp add: lacks_header_def header_Get_def)

text \<open>
  Injection never overwrites: whatever the bridge collected from the upgrade request, a
  tunneled request reaches the gRPC server with its own value of every header it carries
  (non-blank), gains the forwarded value of each forwarded header it lacks, and is otherwise
  unchanged; the request is cloned only if it lacks a forwarded header.
\<close>

theorem forwarding_fills_gaps_only:
  "let forward = buildBridgeForwardHeaders r ctx;
       out = wrapBridgeForwardMetadataHandler False forward (Some q)
   in map_of (forwarded_header out) k =
        (case map_of (forward_entries forward) k of
           None \<Rightarrow> map_of (Header q) k
         | Some vs \<Rightarrow> if lacks_header (Header q) k then Some vs else map_of (Header q) k) \<and>
      ((\<exists>q'. out = Cloned q') \<longleftrightarrow>
         (\<exists>(k, vs) \<in> set (forward_entries forward). lacks_header (Header q) k))"
proof -
  let ?es = "forward_entries (buildBridgeForwardHeaders r ctx)"
  have "entries_ok ?es"
    by (rule forward_entries_ok [OF forward_headers_canonical])
  note inject = map_of_inject [OF this, of "Header q" k]
  show ?thesis
  proof (cases "\<exists>(k, vs) \<in> set ?es. lacks_header (Header q) k")
    case True
    then obtain k' vs where "(k', vs) \<in> set ?es" "lacks_header (Header q) k'" by blast
    then have "?es \<noteq> []" and "list_ex (\<lambda>e. lacks_header (Header q) (fst e)) ?es"
      by (auto simp: list_ex_iff intro: bexI [of _ "(k', vs)"])
    with inject True show ?thesis
      by (simp add: wrapBridgeForwardMetadataHandler_def forwarded_header_def Let_def)
  next
    case False
    then have "\<not> list_ex (\<lambda>e. lacks_header (Header q) (fst e)) ?es"
      and "map_of ?es k = Some vs \<Longrightarrow> \<not> lacks_header (Header q) k" for vs
      by (auto simp: list_ex_iff dest: map_of_SomeD)
    with False show ?thesis
      by (auto simp: wrapBridgeForwardMetadataHandler_def forwarded_header_def Let_def
          split: option.split)
  qed
qed

lemma header_Get_set_nonempty:
  "header_Get (set_nonempty k v h) k' =
     (if http_CanonicalHeaderKey k' = http_CanonicalHeaderKey k \<and> v \<noteq> [] then v else header_Get h k')"
  by (simp add: set_nonempty_def header_Get_Set)

lemma header_Get_fill_blank:
  "header_Get (fill_blank k v h) k' =
     (if http_CanonicalHeaderKey k' = http_CanonicalHeaderKey k \<and>
         strings_TrimSpace (header_Get h k) = [] \<and> v \<noteq> []
      then v else header_Get h k')"
  by (simp add: fill_blank_def header_Get_set_nonempty)

lemma resolve_trimmed [simp]:
  "strings_TrimSpace (resolveBridgeHeaderValue h ns) = resolveBridgeHeaderValue h ns"
  by (induction ns) (simp_all add: Let_def)

lemma first_header_trimmed [simp]: "strings_TrimSpace (first_header h ns) = first_header h ns"
  by (induction ns) (simp_all add: Let_def)

lemma forward_keys [simp]:
  "http_CanonicalHeaderKey ''x-request-id'' = ''X-Request-Id''"
  "http_CanonicalHeaderKey ''x-correlation-id'' = ''X-Correlation-Id''"
  "http_CanonicalHeaderKey ''traceparent'' = ''Traceparent''"
  "http_CanonicalHeaderKey ''tracestate'' = ''Tracestate''"
  by (simp_all add: http_CanonicalHeaderKey_def token_byte_def is_lower_def is_upper_def is_num_def
      Let_def)

text \<open>
  What is forwarded: the request identifier of the upgrade request; its correlation
  identifier or else the request identifier; its trace headers or else those of the span the bridge
  started, so that a client's own trace context is never replaced.
\<close>

theorem forward_headers_values:
  "let h = buildBridgeForwardHeaders (Some q) ctx;
       rid = getGrpctunnelRequestID (Some q);
       cid = resolveBridgeHeaderValue (Header q) [''X-Correlation-Id'', ''X-Correlation-ID''];
       tp = resolveBridgeHeaderValue (Header q) [''traceparent''];
       ts = resolveBridgeHeaderValue (Header q) [''tracestate'']
   in header_Get h ''x-request-id'' = rid \<and>
      header_Get h ''x-correlation-id'' = (if cid \<noteq> [] then cid else rid) \<and>
      header_Get h ''traceparent'' =
        (if tp \<noteq> [] then tp else buildBridgeTraceParentFromContext ctx) \<and>
      header_Get h ''tracestate'' = (if ts \<noteq> [] then ts else buildBridgeTraceStateFromContext ctx)"
proof -
  have "strings_TrimSpace (getGrpctunnelRequestID (Some q)) = getGrpctunnelRequestID (Some q)"
    unfolding getGrpctunnelRequestID_def option.case by (rule first_header_trimmed)
  then show ?thesis
    unfolding buildBridgeForwardHeaders_def forward_request_headers_def Let_def option.case
    by (simp add: header_Get_set_nonempty header_Get_fill_blank del: resolveBridgeHeaderValue.simps)
qed

text \<open>A session that forwards trace context and identifier into a request that has neither.\<close>

lemma forwarding_example:
  "wrapBridgeForwardMetadataHandler False
     (buildBridgeForwardHeaders (Some (get_request [] [(''X-Request-Id'', [''r1''])])) None)
     (Some (get_request [] [(''X-Request-Id'', [''own''])])) =
   Cloned (get_request [] [(''X-Request-Id'', [''own'']), (''X-Correlation-Id'', [''r1''])])"
  by (simp add: wrapBridgeForwardMetadataHandler_def buildBridgeForwardHeaders_def
      forward_request_headers_def fill_blank_def set_nonempty_def getGrpctunnelRequestID_def
      forward_entries_def inject_entry_def lacks_header_def header_Set_def header_eval
      buildBridgeTraceParentFromContext_def buildBridgeTraceStateFromContext_def
      TrimSpace_all_plain plain_end_def ascii_space_def is_ascii_def)

end
