(* ===== verification/Bridge_Handler.thy ===== *)
theory Bridge_Handler
  imports Handler_Trace Bridge_Keepalive Retry_After Forward_Headers
begin

text \<open>
  The tunnel server's upgrade handler (\<open>BuildBridgeHandler\<close> in \<open>pkg/grpctunnel/server.go\<close>) and what
  is built around it: \<open>HandleBridgeMux\<close>, \<open>Wrap\<close>, \<open>NewServer\<close>. The handler is a function from what its
  environment does to the sequence of its effects; every \<open>defer\<close> of the code is a \<open>deferring\<close> here.
\<close>

section \<open>The handler\<close>

record Upgrader =
  up_ReadBufferSize :: int
  up_WriteBufferSize :: int
  up_CheckOrigin :: "(http_request option \<Rightarrow> bool) option"
  up_EnableCompression :: bool

text \<open>
  What the environment of one request does: the verdict of the guard, whether gorilla's \<open>Upgrade\<close>
  succeeds (a function of the upgrader and the request), whether the read deadline can be set and
  the clock readings of the set-up, whether a callback or the HTTP/2 server panics, whether the
  lifetime timer fires during the session, whether the native listener takes the session, and the
  span context of the session.
\<close>

record bridge_env =
  env_reserve :: "guard_error option"
  env_upgrade :: "Upgrader \<Rightarrow> http_request \<Rightarrow> bool"
  env_deadline_ok :: bool
  env_setup_at :: instant
  env_authorize_panics :: bool
  env_connect_panics :: bool
  env_serve_panics :: bool
  env_disconnect_panics :: bool
  env_lifetime_fires :: bool
  env_deliver_ok :: bool
  env_span :: "span_context option"

definition buildUpgrader :: "BridgeConfig \<Rightarrow> Upgrader" where
  "buildUpgrader cfg =
     (let readBufferSize = (if ReadBufferSize cfg = 0 then defaultWebSocketBufferSize
                            else ReadBufferSize cfg);
          writeBufferSize = (if WriteBufferSize cfg = 0 then defaultWebSocketBufferSize
                             else WriteBufferSize cfg)
      in \<lparr>up_ReadBufferSize = readBufferSize, up_WriteBufferSize = writeBufferSize,
          up_CheckOrigin = CheckOrigin cfg, up_EnableCompression = ShouldEnableCompression cfg\<rparr>)"

text \<open>From the wrapped connection to the end of the session.\<close>

definition serve_session :: "BridgeConfig \<Rightarrow> bridge_env \<Rightarrow> http_request \<Rightarrow> h_event list" where
  [handler_defs]: "serve_session cfg env r =
     (let lifetime = (if SessionMaxLifetime cfg > 0 \<and> env_lifetime_fires env
                      then [LogEvent ''INFO'' ''session_max_lifetime_reached'', ConnClose] else [])
      in if ShouldUseNativeGRPCTransport cfg
         then Delivered (env_deliver_ok env) #
                (if env_deliver_ok env then lifetime @ [SessionAwaited]
                 else [LogEvent ''WARN'' ''native_serve_unavailable''])
         else ServedConn (buildBridgeForwardHeaders (Some r) (env_span env)) #
                lifetime @ (if env_serve_panics env then [Panicked] else []))"

definition run_connected :: "BridgeConfig \<Rightarrow> bridge_env \<Rightarrow> http_request \<Rightarrow> h_event list" where
  [handler_defs]: "run_connected cfg env r =
     LogEvent ''INFO'' ''tunnel_connect'' #
     deferring
       (LogEvent ''INFO'' ''tunnel_disconnect'' #
        (case OnDisconnect cfg of
           None \<Rightarrow> []
         | Some h \<Rightarrow> OnDisconnectCalled h # (if env_disconnect_panics env then [Panicked] else [])))
       (deferring [ConnClose]
          (if SessionMaxLifetime cfg > 0
           then LifetimeTimerStart (SessionMaxLifetime cfg) #
                  deferring [LifetimeTimerStop] (serve_session cfg env r)
           else serve_session cfg env r))"

definition run_upgraded :: "BridgeConfig \<Rightarrow> bridge_env \<Rightarrow> http_request \<Rightarrow> h_event list" where
  [handler_defs]: "run_upgraded cfg env r =
     [MetricSuccess, MetricDelta 1] @
     deferring [MetricDelta (- 1)]
       (SessionSpanStart #
        deferring [SessionSpanEnd]
          (LogEvent ''INFO'' ''ws_upgrade_succeeded'' #
           deferring [WsClose]
             (let t = env_setup_at env;
                  ok = (applyBridgeConnectionSettings cfg (env_deadline_ok env) t t t \<noteq> None)
              in SettingsApplied ok #
                 (if \<not> ok then [LogEvent ''WARN'' ''ws_connection_setup_failed'']
                  else deferring [StopKeepaliveCalled]
                    (case OnConnect cfg of
                       None \<Rightarrow> run_connected cfg env r
                     | Some h \<Rightarrow> OnConnectCalled h #
                         (if env_connect_panics env then [Panicked] else run_connected cfg env r))))))"

definition run_authorized :: "BridgeConfig \<Rightarrow> bridge_env \<Rightarrow> http_request \<Rightarrow> h_event list" where
  [handler_defs]: "run_authorized cfg env r =
     ReserveSlot (env_reserve env) #
     (case env_reserve env of
        Some e \<Rightarrow> [MetricFailure, LogEvent ''WARN'' ''ws_upgrade_rejected_abuse_control'',
                   ResponseHeader (setRetryAfter [] e), WriteStatus StatusTooManyRequests]
      | None \<Rightarrow>
          deferring [ReleaseSlot]
            (let upgraded = env_upgrade env (buildUpgrader cfg) r in
             UpgradeTried upgraded #
             (if upgraded then run_upgraded cfg env r
              else [MetricFailure, LogEvent ''WARN'' ''ws_upgrade_failed''])))"

definition bridgeHandler :: "BridgeConfig \<Rightarrow> bridge_env \<Rightarrow> http_request \<Rightarrow> h_event list" where
  [handler_defs]: "bridgeHandler cfg env r =
     RequestSpanStart #
     deferring [RequestSpanEnd]
       (case Authorize cfg of
          None \<Rightarrow> run_authorized cfg env r
        | Some authorize \<Rightarrow>
            AuthorizeCalled #
            (if env_authorize_panics env then [Panicked]
             else case authorize r of
               Some err \<Rightarrow> [MetricFailure, LogEvent ''WARN'' ''ws_upgrade_rejected_unauthorized'',
                            WriteStatus StatusForbidden]
             | None \<Rightarrow> run_authorized cfg env r))"

text \<open>An environment in which everything succeeds, for examples.\<close>

abbreviation ok_env :: bridge_env where
  "ok_env \<equiv>
     \<lparr>env_reserve = None, env_upgrade = (\<lambda>u r. case up_CheckOrigin u of None \<Rightarrow> True | Some f \<Rightarrow> f (Some r)),
      env_deadline_ok = True, env_setup_at = 0,
      env_authorize_panics = False, env_connect_panics = False, env_serve_panics = False,
      env_disconnect_panics = False, env_lifetime_fires = False, env_deliver_ok = True,
      env_span = None\<rparr>"

section \<open>Building and registering the handler\<close>

datatype build_error =
    GrpcServerRequired | InvalidConfig config_error | MuxRequired | BridgePathRequired

type_synonym upgrade_handler = "bridge_env \<Rightarrow> http_request \<Rightarrow> h_event list"

definition BuildBridgeHandler :: "bool \<Rightarrow> BridgeConfig \<Rightarrow> build_error + upgrade_handler" where
  "BuildBridgeHandler grpcServer_nil cfg =
     (if grpcServer_nil then Inl GrpcServerRequired
      else case GetBridgeConfigError cfg of
        Some err \<Rightarrow> Inl (InvalidConfig err)
      | None \<Rightarrow> Inr (bridgeHandler (applyBridgeKeepaliveDefaults cfg)))"

text \<open>A mux is the list of its registrations; a nil mux is \<open>None\<close>.\<close>

type_synonym serve_mux = "(string \<times> upgrade_handler) list"

definition HandleBridgeMux ::
    "serve_mux option \<Rightarrow> string \<Rightarrow> bool \<Rightarrow> BridgeConfig \<Rightarrow> build_error + serve_mux" where
  "HandleBridgeMux mux bridgePath grpcServer_nil cfg =
     (case mux of
        None \<Rightarrow> Inl MuxRequired
      | Some m \<Rightarrow>
          if bridgePath = [] then Inl BridgePathRequired
          else case BuildBridgeHandler grpcServer_nil cfg of
            Inl err \<Rightarrow> Inl err
          | Inr handler \<Rightarrow> Inr (m @ [(bridgePath, handler)]))"

definition Wrap :: "bool \<Rightarrow> ServerOption list \<Rightarrow> upgrade_handler" where
  "Wrap grpcServer_nil opts =
     (case BuildBridgeHandler grpcServer_nil (buildBridgeConfig (buildServerOptions opts)) of
        Inl err \<Rightarrow> (\<lambda>env r. [LogEvent ''ERROR'' ''bridge_handler_init_failed'',
                           WriteStatus StatusInternalServerError])
      | Inr handler \<Rightarrow> handler)"

record http_server =
  hs_Addr :: string
  hs_Handler :: upgrade_handler
  hs_ReadTimeout :: duration
  hs_WriteTimeout :: duration
  hs_IdleTimeout :: duration

definition NewServer :: "string \<Rightarrow> bool \<Rightarrow> ServerOption list \<Rightarrow> http_server" where
  "NewServer addr grpcServer_nil opts =
     \<lparr>hs_Addr = addr, hs_Handler = Wrap grpcServer_nil opts, hs_ReadTimeout = 15 * second,
      hs_WriteTimeout = 15 * second, hs_IdleTimeout = 60 * second\<rparr>"

section \<open>The slot protocol\<close>

lemma no_slots_session [simp]:
  "slot_events (serve_session cfg env r) = []"
  by (simp add: serve_session_def Let_def)

lemma no_slots_connected [simp]: "slot_events (run_connected cfg env r) = []"
  by (simp add: run_connected_def split: option.split)

lemma no_slots_upgraded [simp]: "slot_events (run_upgraded cfg env r) = []"
  by (simp add: run_upgraded_def Let_def split: option.split)

lemma slots_authorized:
  "slot_events (run_authorized cfg env r) =
     (case env_reserve env of None \<Rightarrow> [ReserveSlot None, ReleaseSlot] | Some e \<Rightarrow> [ReserveSlot (Some e)])"
  by (simp add: run_authorized_def Let_def split: option.split)

lemma bridge_slot_protocol: "slot_protocol (bridgeHandler cfg env r)"
  by (auto simp: bridgeHandler_def slot_protocol_def slots_authorized split: option.split)

text \<open>The handler as a trace of its (possibly missing) request.\<close>

definition bridge_trace :: "BridgeConfig \<Rightarrow> http_request option \<Rightarrow> bridge_env \<Rightarrow> h_event list" where
  "bridge_trace cfg r env = (case r of None \<Rightarrow> [] | Some q \<Rightarrow> bridgeHandler cfg env q)"

interpretation bridge_server: concurrent_handlers reserveBridgeConnection clearBridgeConnection
  "\<lambda>g. g \<noteq> None" guard_active guard_held guard_max_active guard_max_client "bridge_trace cfg"
  for cfg
proof (unfold_locales, goal_cases)
  case (1 r env)
  show ?case using bridge_slot_protocol by (cases r) (simp_all add: bridge_trace_def slot_protocol_def)
qed

text \<open>
  C1. The caps hold for the server as a whole: in every interleaving of any number of upgrade
  handlers, whichever of their callbacks panic and wherever their upgrades fail, the handlers
  between their reservation and their release are counted exactly by the guard, in total and per
  client, and never exceed a configured cap.
\<close>

theorem concurrent_sessions_respect_caps:
  assumes "handlers_run reserveBridgeConnection clearBridgeConnection (bridge_trace cfg) req
      (buildBridgeAbuseGuard cfg) g log"
  shows "guard_active g = int (length (slot_holders log [])) \<and>
    guard_held g k = sessions_of k (map req (slot_holders log [])) \<and>
    (0 < MaxActiveConnections cfg \<longrightarrow> int (length (slot_holders log [])) \<le> MaxActiveConnections cfg) \<and>
    (0 < MaxConnectionsPerClient cfg \<longrightarrow>
       sessions_of k (map req (slot_holders log [])) \<le> MaxConnectionsPerClient cfg)"
  using bridge_server.concurrent_caps [OF assms] by simp

section \<open>Resources\<close>

text \<open>
  The effects that acquire a resource or give it back: spans, the slot, the socket, the
  active-connections gauge and the keepalive goroutine. \<open>resource_trace\<close> keeps only those.
\<close>

fun resource_event :: "h_event \<Rightarrow> bool" where
  "resource_event RequestSpanStart = True"
| "resource_event RequestSpanEnd = True"
| "resource_event (ReserveSlot e) = (e = None)"
| "resource_event ReleaseSlot = True"
| "resource_event (UpgradeTried ok) = ok"
| "resource_event WsClose = True"
| "resource_event (MetricDelta d) = True"
| "resource_event SessionSpanStart = True"
| "resource_event SessionSpanEnd = True"
| "resource_event (SettingsApplied ok) = ok"
| "resource_event StopKeepaliveCalled = True"
| "resource_event _ = False"

definition resource_trace :: "h_event list \<Rightarrow> h_event list" where
  "resource_trace tr = filter resource_event tr"

lemma resource_trace_simps [simp]:
  "resource_trace [] = []"
  "resource_trace (e # tr) = (if resource_event e then e # resource_trace tr else resource_trace tr)"
  "resource_trace (tr @ tr') = resource_trace tr @ resource_trace tr'"
  "resource_trace (deferring d tr) = resource_trace tr @ resource_trace d"
  by (simp_all add: resource_trace_def)

lemma session_no_resources [simp]: "resource_trace (serve_session cfg env r) = []"
  by (simp add: serve_session_def Let_def)

lemma connected_no_resources [simp]: "resource_trace (run_connected cfg env r) = []"
  by (simp add: run_connected_def split: option.split)

definition settings_ok :: "BridgeConfig \<Rightarrow> bridge_env \<Rightarrow> bool" where
  "settings_ok cfg env \<longleftrightarrow> \<not> (0 < IdleTimeout cfg \<and> \<not> env_deadline_ok env)"

lemma apply_settings_ok [simp]:
  "applyBridgeConnectionSettings cfg (env_deadline_ok env) t t t = None \<longleftrightarrow> \<not> settings_ok cfg env"
  by (simp add: applyBridgeConnectionSettings_def settings_ok_def Let_def)

lemma upgraded_resources:
  "resource_trace (run_upgraded cfg env r) =
     [MetricDelta 1, SessionSpanStart] @
     (if settings_ok cfg env then [SettingsApplied True, StopKeepaliveCalled] else []) @
     [WsClose, SessionSpanEnd, MetricDelta (- 1)]"
  by (simp add: run_upgraded_def Let_def split: option.split)

lemma authorized_resources:
  "resource_trace (run_authorized cfg env r) =
     (if env_reserve env \<noteq> None then []
      else ReserveSlot None #
        (if env_upgrade env (buildUpgrader cfg) r
         then UpgradeTried True # resource_trace (run_upgraded cfg env r) else []) @ [ReleaseSlot])"
  by (simp add: run_authorized_def Let_def split: option.split)


section \<open>Refusals and hooks\<close>

text \<open>
  A refused upgrade allocates nothing and says why: an authorization error answers 403 before
  the guard, the upgrader or any session resource is touched; a guard refusal answers 429, with
  the \<open>Retry-After\<close> header set before the status is written; both count as upgrade failures.
\<close>

theorem refusals_allocate_nothing:
  "(Authorize cfg = Some f \<longrightarrow> f r = Some err \<longrightarrow> \<not> env_authorize_panics env \<longrightarrow>
      bridgeHandler cfg env r =
        [RequestSpanStart, AuthorizeCalled, MetricFailure,
         LogEvent ''WARN'' ''ws_upgrade_rejected_unauthorized'', WriteStatus 403, RequestSpanEnd]) \<and>
   (Authorize cfg = None \<longrightarrow> env_reserve env = Some e \<longrightarrow>
      bridgeHandler cfg env r =
        [RequestSpanStart, ReserveSlot (Some e), MetricFailure,
         LogEvent ''WARN'' ''ws_upgrade_rejected_abuse_control'',
         ResponseHeader (setRetryAfter [] e), WriteStatus 429, RequestSpanEnd])"
  by (simp add: bridgeHandler_def run_authorized_def deferring_def StatusForbidden_def
      StatusTooManyRequests_def)

theorem refusals_allocate_nothing_witness:
  "bridgeHandler ((capped_config 1 0 0)\<lparr>Authorize := Some (\<lambda>r. Some ''no token'')\<rparr>)
     ok_env (get_request ''10.0.0.1:1'' []) =
   [RequestSpanStart, AuthorizeCalled, MetricFailure,
    LogEvent ''WARN'' ''ws_upgrade_rejected_unauthorized'', WriteStatus 403, RequestSpanEnd]"
  by (rule refusals_allocate_nothing [THEN conjunct1, rule_format]) simp_all

fun hook_event :: "h_event \<Rightarrow> bool" where
  "hook_event (OnConnectCalled h) = True"
| "hook_event (OnDisconnectCalled h) = True"
| "hook_event (LogEvent l e) = (e = ''tunnel_connect'' \<or> e = ''tunnel_disconnect'')"
| "hook_event (ServedConn h) = True"
| "hook_event (Delivered ok) = True"
| "hook_event ConnClose = True"
| "hook_event _ = False"

definition hook_trace :: "h_event list \<Rightarrow> h_event list" where
  "hook_trace tr = filter hook_event tr"

lemma hook_trace_simps [simp]:
  "hook_trace [] = []"
  "hook_trace (e # tr) = (if hook_event e then e # hook_trace tr else hook_trace tr)"
  "hook_trace (tr @ tr') = hook_trace tr @ hook_trace tr'"
  "hook_trace (deferring d tr) = hook_trace tr @ hook_trace d"
  by (simp_all add: hook_trace_def)

text \<open>How far a request gets: past authorization, guard, upgrade and set-up.\<close>

definition reaches_hooks :: "BridgeConfig \<Rightarrow> bridge_env \<Rightarrow> http_request \<Rightarrow> bool" where
  "reaches_hooks cfg env r \<longleftrightarrow>
     (case Authorize cfg of None \<Rightarrow> True | Some f \<Rightarrow> \<not> env_authorize_panics env \<and> f r = None) \<and>
     env_reserve env = None \<and> env_upgrade env (buildUpgrader cfg) r \<and> settings_ok cfg env"

definition connect_calls :: "BridgeConfig \<Rightarrow> h_event list" where
  "connect_calls cfg = (case OnConnect cfg of None \<Rightarrow> [] | Some h \<Rightarrow> [OnConnectCalled h])"

definition disconnect_calls :: "BridgeConfig \<Rightarrow> h_event list" where
  "disconnect_calls cfg = (case OnDisconnect cfg of None \<Rightarrow> [] | Some h \<Rightarrow> [OnDisconnectCalled h])"

lemma hooks_outside: "\<not> reaches_hooks cfg env r \<Longrightarrow> hook_trace (bridgeHandler cfg env r) = []"
  by (auto simp: reaches_hooks_def bridgeHandler_def run_authorized_def run_upgraded_def Let_def
      split: option.splits)

lemma hooks_inside:
  "reaches_hooks cfg env r \<Longrightarrow>
   hook_trace (bridgeHandler cfg env r) =
     connect_calls cfg @
     (if OnConnect cfg \<noteq> None \<and> env_connect_panics env then []
      else hook_trace (run_connected cfg env r))"
  by (auto simp: reaches_hooks_def bridgeHandler_def run_authorized_def run_upgraded_def Let_def
      connect_calls_def split: option.splits)

text \<open>
  The lifecycle hooks pair up: a request that is refused or whose upgrade fails calls neither;
  otherwise \<open>OnConnect\<close> runs before the session is served, and unless it panics the session is
  served, its connection is closed, and then \<open>OnDisconnect\<close> runs, each at most once per request.
\<close>

theorem lifecycle_hooks_pair:
  "(\<not> reaches_hooks cfg env r \<longrightarrow> hook_trace (bridgeHandler cfg env r) = []) \<and>
   (reaches_hooks cfg env r \<longrightarrow> \<not> (OnConnect cfg \<noteq> None \<and> env_connect_panics env) \<longrightarrow>
      (\<exists>served. hook_trace (bridgeHandler cfg env r) =
         connect_calls cfg @ [LogEvent ''INFO'' ''tunnel_connect''] @ served @ [ConnClose] @
         [LogEvent ''INFO'' ''tunnel_disconnect''] @ disconnect_calls cfg \<and>
         set served \<subseteq> {ConnClose, Delivered (env_deliver_ok env),
                        ServedConn (buildBridgeForwardHeaders (Some r) (env_span env))} \<and>
         served \<noteq> []))"
proof -
  have "hook_trace (run_connected cfg env r) =
      [LogEvent ''INFO'' ''tunnel_connect''] @ hook_trace (serve_session cfg env r) @ [ConnClose] @
      [LogEvent ''INFO'' ''tunnel_disconnect''] @ disconnect_calls cfg"
    by (simp add: run_connected_def disconnect_calls_def split: option.split)
  moreover have "set (hook_trace (serve_session cfg env r)) \<subseteq> {ConnClose, Delivered (env_deliver_ok env),
      ServedConn (buildBridgeForwardHeaders (Some r) (env_span env))}"
    and "hook_trace (serve_session cfg env r) \<noteq> []"
    by (auto simp: serve_session_def Let_def)
  ultimately show ?thesis using hooks_outside hooks_inside by (auto simp del: append.simps)
qed

theorem lifecycle_hooks_pair_witness:
  "\<exists>served. hook_trace (bridgeHandler ((capped_config 0 0 0)\<lparr>OnConnect := Some ''c'', OnDisconnect := Some ''d''\<rparr>)
       ok_env (get_request ''10.0.0.1:1'' [])) =
     [OnConnectCalled ''c'', LogEvent ''INFO'' ''tunnel_connect''] @ served @
     [ConnClose, LogEvent ''INFO'' ''tunnel_disconnect'', OnDisconnectCalled ''d''] \<and> served \<noteq> []"
proof -
  let ?cfg = "(capped_config 0 0 0)\<lparr>OnConnect := Some ''c'', OnDisconnect := Some ''d''\<rparr>"
  have "reaches_hooks ?cfg ok_env (get_request ''10.0.0.1:1'' [])"
    by (simp add: reaches_hooks_def settings_ok_def buildUpgrader_def config_defs
        buildServerOptions_def defaultServerOptions_def Let_def)
  with lifecycle_hooks_pair [of ?cfg ok_env "get_request ''10.0.0.1:1'' []"] show ?thesis
    by (simp add: connect_calls_def disconnect_calls_def) blast
qed

text \<open>
  C9. An origin the policy refuses is never served. Given that gorilla's upgrader refuses a request
  its \<open>CheckOrigin\<close> refuses, a handler built with an origin check neither upgrades, nor calls
  \<open>OnConnect\<close>, nor serves a request the check refuses, and its slot is returned.
\<close>

theorem refused_origin_never_served:
  assumes "BuildBridgeHandler grpcServer_nil cfg = Inr handler"
    and "CheckOrigin cfg = Some check" and "\<not> check (Some r)"
    and gorilla: "\<And>u q f. up_CheckOrigin u = Some f \<Longrightarrow> \<not> f (Some q) \<Longrightarrow> \<not> env_upgrade env u q"
  shows "hook_trace (handler env r) = [] \<and>
    resource_trace (handler env r) \<in>
      {[RequestSpanStart, RequestSpanEnd],
       [RequestSpanStart, ReserveSlot None, ReleaseSlot, RequestSpanEnd]}"
proof -
  from assms(1) have h: "handler = bridgeHandler (applyBridgeKeepaliveDefaults cfg)"
    by (auto simp: BuildBridgeHandler_def split: if_splits option.splits)
  have "\<not> env_upgrade env (buildUpgrader (applyBridgeKeepaliveDefaults cfg)) r"
    using assms(2,3) by (intro gorilla [of _ check]) (simp_all add: buildUpgrader_def Let_def)
  with h show ?thesis
    using hooks_outside [of "applyBridgeKeepaliveDefaults cfg" env r]
    by (simp add: reaches_hooks_def bridgeHandler_def authorized_resources split: option.split)
qed

theorem refused_origin_never_served_witness:
  "hook_trace (bridgeHandler (applyBridgeKeepaliveDefaults (buildBridgeConfig (buildServerOptions
       [WithAllowedOrigins (\<lambda>s. s) [''https://a.io'']])))
     ok_env (get_request ''10.0.0.1:1'' [(''Origin'', [''https://b.io''])])) = []"
proof -
  let ?cfg = "buildBridgeConfig (buildServerOptions [WithAllowedOrigins (\<lambda>s. s) [''https://a.io'']])"
  have "\<not> BuildOriginAllowlistCheck (\<lambda>s. s) [''https://a.io'']
      (Some (get_request ''10.0.0.1:1'' [(''Origin'', [''https://b.io''])]))"
    by (simp add: BuildOriginAllowlistCheck_def normalize_origin_def
        splitOriginWildcard_def strings_TrimSuffix_def strings_ToLower_def TrimSpace_all_plain
        plain_end_def ascii_space_def is_ascii_def header_eval strings_Cut_def strings_HasPrefix_def
        strings_HasSuffix_def suffix_to_prefix)
  moreover have "BuildBridgeHandler False ?cfg = Inr (bridgeHandler (applyBridgeKeepaliveDefaults ?cfg))"
    and "CheckOrigin ?cfg = Some (BuildOriginAllowlistCheck (\<lambda>s. s) [''https://a.io''])"
    by (simp_all add: BuildBridgeHandler_def config_defs buildServerOptions_def
        defaultServerOptions_def defaultWebSocketBufferSize_def)
  ultimately show ?thesis
    using refused_origin_never_served [of False ?cfg _ _
        "get_request ''10.0.0.1:1'' [(''Origin'', [''https://b.io''])]" ok_env] by simp
qed

text \<open>
  Construction validates first: a handler is built exactly for a gRPC server and a valid
  configuration, registration on a mux adds exactly one route and otherwise leaves no mux behind,
  and \<open>Wrap\<close> with an unusable configuration fails closed, answering every request with 500 and
  touching neither the guard nor the upgrader.
\<close>

theorem construction_validates:
  "((\<exists>h. BuildBridgeHandler grpcServer_nil cfg = Inr h) \<longleftrightarrow>
      \<not> grpcServer_nil \<and> GetBridgeConfigError cfg = None) \<and>
   (\<forall>m'. HandleBridgeMux mux path grpcServer_nil cfg = Inr m' \<longrightarrow>
      (\<exists>m h. mux = Some m \<and> path \<noteq> [] \<and> BuildBridgeHandler grpcServer_nil cfg = Inr h \<and>
             m' = m @ [(path, h)])) \<and>
   ((\<exists>e. BuildBridgeHandler grpcServer_nil (buildBridgeConfig (buildServerOptions opts)) = Inl e) \<longrightarrow>
      Wrap grpcServer_nil opts env r =
        [LogEvent ''ERROR'' ''bridge_handler_init_failed'', WriteStatus 500])"
  by (auto simp: BuildBridgeHandler_def HandleBridgeMux_def Wrap_def StatusInternalServerError_def
      split: option.splits if_splits sum.splits)

theorem construction_validates_witness:
  "Wrap False [WithMaxActiveConnections (- 1)] ok_env (get_request [] []) =
     [LogEvent ''ERROR'' ''bridge_handler_init_failed'', WriteStatus 500]"
  by (rule construction_validates [THEN conjunct2, THEN conjunct2, rule_format])
     (simp add: BuildBridgeHandler_def config_defs buildServerOptions_def defaultServerOptions_def
        defaultWebSocketBufferSize_def)

theorem concurrent_sessions_respect_caps_witness:
  "guard_active (fst (reserveBridgeConnection (buildBridgeAbuseGuard (capped_config 2 1 0)) client_a minute)) = 1"
proof -
  let ?start = "buildBridgeAbuseGuard (capped_config 2 1 0)"
  let ?g = "fst (reserveBridgeConnection ?start client_a minute)"
  let ?tr = "bridge_trace (capped_config 2 1 0)"
  have "?tr client_a ok_env = RequestSpanStart # ReserveSlot None # drop 2 (?tr client_a ok_env)"
    by (simp add: bridge_trace_def bridgeHandler_def run_authorized_def deferring_def config_defs
        buildServerOptions_def defaultServerOptions_def Let_def)
  then obtain rest where "?tr client_a ok_env = RequestSpanStart # ReserveSlot None # rest" by blast
  then have pre: "prefix [RequestSpanStart] (?tr client_a ok_env)"
      "prefix [RequestSpanStart, ReserveSlot None] (?tr client_a ok_env)"
    by simp_all
  have res: "reserveBridgeConnection ?start client_a minute = (?g, None)" by (simp add: guard_run)
  let ?run = "handlers_run reserveBridgeConnection clearBridgeConnection ?tr (\<lambda>i. client_a) ?start"
  have "?run ?start ([] @ [(0, RequestSpanStart)])"
    using pre by (intro run_step [OF run_start]) (auto simp: events_of_def intro: effect_none)
  then have "?run ?g (([] @ [(0, RequestSpanStart)]) @ [(0, ReserveSlot None)])"
    using pre by (elim run_step [where env = ok_env]) (auto simp: events_of_def intro: effect_reserve res)
  from concurrent_sessions_respect_caps [OF this, of "''10.0.0.1''"] show ?thesis by simp
qed

end
