(* ===== verification/Go_Url.thy ===== *)
theory Go_Url
  imports Go_Net Go_Http
begin

text \<open>
  The part of Go's \<open>net/url\<close> package the targets go through: \<open>Parse\<close>, \<open>URL.String\<close> and
  \<open>URL.Hostname\<close>, on byte strings. The rules are those of the Go release the module requires:
  colons in a host without brackets and bracketed hosts that are not IPv6 addresses are refused.
\<close>

section \<open>Escaping\<close>

datatype url_mode = M_Path | M_Host | M_Zone | M_UserPassword | M_Fragment

definition url_alnum :: "char \<Rightarrow> bool" where
  "url_alnum c \<longleftrightarrow> is_lower c \<or> is_upper c \<or> is_num c"

definition should_escape :: "url_mode \<Rightarrow> char \<Rightarrow> bool" where
  "should_escape mode c =
     (if url_alnum c then False
      else if (mode = M_Host \<or> mode = M_Zone) \<and> c \<in> set (CHR 0x22 # CHR 0x27 # ''!$&()*+,;=:[]<>'')
      then False
      else if c \<in> set ''-_.~'' then False
      else if c \<in> set ''$&+,/:;=?@'' then
        (case mode of
           M_Path \<Rightarrow> c = CHR ''?''
         | M_UserPassword \<Rightarrow> c \<in> set ''@/?:''
         | M_Fragment \<Rightarrow> False
         | _ \<Rightarrow> True)
      else if mode = M_Fragment \<and> c \<in> set ''!()*'' then False
      else True)"

definition hex_digit :: "nat \<Rightarrow> char" where
  "hex_digit n = (if n < 10 then char_of (48 + n) else char_of (55 + n))"

definition url_escape :: "url_mode \<Rightarrow> string \<Rightarrow> string" where
  "url_escape mode s =
     concat (map (\<lambda>c. if should_escape mode c
                      then CHR 0x25 # [hex_digit (of_char c div 16), hex_digit (of_char c mod 16)]
                      else [c]) s)"

text \<open>
  \<open>unescape\<close>: a percent sign needs two hexadecimal digits; in a host it may only encode a percent
  sign or a non-ASCII byte, in a zone also a byte a host may contain, or a space; a host may not
  contain a raw byte that would have to be escaped.
\<close>

fun url_unescape :: "url_mode \<Rightarrow> string \<Rightarrow> string option" where
  "url_unescape mode [] = Some []"
| "url_unescape mode (c # s) =
     (if c = CHR 0x25 then
        (case s of
           a # b # s' \<Rightarrow>
             (case (hex_val a, hex_val b) of
                (Some x, Some y) \<Rightarrow>
                  if a = CHR ''2'' \<and> b = CHR ''5'' then map_option ((#) c) (url_unescape mode s')
                  else if mode = M_Host \<and> x < 8 then None
                  else if mode = M_Zone \<and> 16 * x + y \<noteq> 32 \<and> should_escape M_Host (char_of (16 * x + y))
                  then None
                  else map_option ((#) (char_of (16 * x + y))) (url_unescape mode s')
              | _ \<Rightarrow> None)
         | _ \<Rightarrow> None)
      else if (mode = M_Host \<or> mode = M_Zone) \<and> is_ascii c \<and> should_escape mode c then None
      else map_option ((#) c) (url_unescape mode s))"

section \<open>Parsing\<close>

datatype url_error =
    ControlCharacter | MissingScheme | ColonInFirstSegment | MissingBracket | InvalidPort
  | InvalidHost | InvalidUserinfo | BadEscape

record URL =
  u_Scheme :: string
  u_Opaque :: string
  u_User :: "(string \<times> string option) option"
  u_Host :: string
  u_Path :: string
  u_RawPath :: string
  u_RawQuery :: string
  u_Fragment :: string
  u_RawFragment :: string
  u_ForceQuery :: bool
  u_OmitHost :: bool

definition empty_URL :: URL where
  "empty_URL = \<lparr>u_Scheme = [], u_Opaque = [], u_User = None, u_Host = [], u_Path = [], u_RawPath = [],
     u_RawQuery = [], u_Fragment = [], u_RawFragment = [], u_ForceQuery = False, u_OmitHost = False\<rparr>"

text \<open>\<open>getScheme\<close>: the result is the scheme, empty if there is none, and the rest.\<close>

fun get_scheme_at :: "nat \<Rightarrow> string \<Rightarrow> string \<Rightarrow> url_error + string \<times> string" where
  "get_scheme_at i raw [] = Inr ([], raw)"
| "get_scheme_at i raw (c # s) =
     (if is_lower c \<or> is_upper c then get_scheme_at (Suc i) raw s
      else if is_num c \<or> c \<in> set ''+-.'' then (if i = 0 then Inr ([], raw) else get_scheme_at (Suc i) raw s)
      else if c = CHR '':'' then (if i = 0 then Inl MissingScheme else Inr (take i raw, s))
      else Inr ([], raw))"

definition get_scheme :: "string \<Rightarrow> url_error + string \<times> string" where
  "get_scheme raw = get_scheme_at 0 raw raw"

definition valid_optional_port :: "string \<Rightarrow> bool" where
  "valid_optional_port p \<longleftrightarrow> p = [] \<or> (take 1 p = '':'' \<and> list_all is_digit (drop 1 p))"

text \<open>An IPv6 address, or one with a zone behind a percent sign (\<open>netip.ParseAddr\<close>).\<close>

definition ipv6_literal :: "string \<Rightarrow> bool" where
  "ipv6_literal s =
     (case index_byte s (CHR 0x25) of
        None \<Rightarrow> first_separator s = Some (CHR '':'') \<and> parse_ipv6 s \<noteq> None
      | Some i \<Rightarrow> first_separator s = Some (CHR '':'') \<and> parse_ipv6 (take i s) \<noteq> None \<and> drop (Suc i) s \<noteq> [])"

definition or_error :: "url_error \<Rightarrow> 'a option \<Rightarrow> url_error + 'a" where
  "or_error e o1 = (case o1 of None \<Rightarrow> Inl e | Some x \<Rightarrow> Inr x)"

definition parse_host :: "string \<Rightarrow> url_error + string" where
  "parse_host host =
     (case last_index_byte host (CHR ''['') of
        Some openAt \<Rightarrow>
          (case last_index_byte host (CHR '']'') of
             None \<Rightarrow> Inl MissingBracket
           | Some closeAt \<Rightarrow>
               (let colonPort = drop (Suc closeAt) host;
                    name = drop (Suc openAt) (take closeAt host)
                in if openAt \<noteq> 0 then Inl InvalidHost
                   else if \<not> valid_optional_port colonPort then Inl InvalidPort
                   else case (case strings_Index name [CHR 0x25, CHR ''2'', CHR ''5''] of
                                None \<Rightarrow> url_unescape M_Host name
                              | Some z \<Rightarrow>
                                  (case (url_unescape M_Host (take z name), url_unescape M_Zone (drop z name)) of
                                     (Some h, Some zone) \<Rightarrow> Some (h @ zone)
                                   | _ \<Rightarrow> None)) of
                     None \<Rightarrow> Inl BadEscape
                   | Some plain \<Rightarrow>
                       if ipv6_literal plain then Inr (''['' @ plain @ '']'' @ colonPort) else Inl InvalidHost))
      | None \<Rightarrow>
          (case last_index_byte host (CHR '':'') of
             None \<Rightarrow> or_error BadEscape (url_unescape M_Host host)
           | Some i \<Rightarrow>
               if \<not> valid_optional_port (drop i host) then Inl InvalidPort
               else if CHR '':'' \<in> set (take i host) then Inl InvalidHost
               else or_error BadEscape (url_unescape M_Host host)))"

definition valid_userinfo :: "string \<Rightarrow> bool" where
  "valid_userinfo s = list_all (\<lambda>c. url_alnum c \<or> c \<in> set (CHR 0x25 # CHR 0x27 # ''-._:~!$&()*+,;=@'')) s"

definition parse_userinfo :: "string \<Rightarrow> url_error + string \<times> string option" where
  "parse_userinfo ui =
     (if \<not> valid_userinfo ui then Inl InvalidUserinfo
      else case strings_Cut ui '':'' of
        (name, pass, found) \<Rightarrow>
          (case (url_unescape M_UserPassword name, url_unescape M_UserPassword pass) of
             (Some n, Some p) \<Rightarrow> Inr (n, if found then Some p else None)
           | _ \<Rightarrow> Inl BadEscape))"

definition parse_authority :: "string \<Rightarrow> url_error + (string \<times> string option) option \<times> string" where
  "parse_authority authority =
     (case last_index_byte authority (CHR ''@'') of
        None \<Rightarrow> (case parse_host authority of Inl e \<Rightarrow> Inl e | Inr h \<Rightarrow> Inr (None, h))
      | Some i \<Rightarrow>
          (case parse_host (drop (Suc i) authority) of
             Inl e \<Rightarrow> Inl e
           | Inr h \<Rightarrow>
               (case parse_userinfo (take i authority) of
                  Inl e \<Rightarrow> Inl e
                | Inr u \<Rightarrow> Inr (Some u, h))))"

definition set_path :: "string \<Rightarrow> URL \<Rightarrow> url_error + URL" where
  "set_path p u =
     (case url_unescape M_Path p of
        None \<Rightarrow> Inl BadEscape
      | Some path \<Rightarrow>
          Inr (u\<lparr>u_Path := path, u_RawPath := (if p = url_escape M_Path path then [] else p)\<rparr>))"

definition set_fragment :: "string \<Rightarrow> URL \<Rightarrow> url_error + URL" where
  "set_fragment f u =
     (case url_unescape M_Fragment f of
        None \<Rightarrow> Inl BadEscape
      | Some frag \<Rightarrow>
          Inr (u\<lparr>u_Fragment := frag, u_RawFragment := (if f = url_escape M_Fragment frag then [] else f)\<rparr>))"

definition is_control :: "char \<Rightarrow> bool" where
  "is_control c \<longleftrightarrow> (of_char c :: nat) < 32 \<or> of_char c = (127 :: nat)"

text \<open>From the end of the scheme on, the query already split off.\<close>

definition parse_rest :: "string \<Rightarrow> URL \<Rightarrow> url_error + URL" where
  "parse_rest rest u =
     (if \<not> prefix ''/'' rest \<and> u_Scheme u \<noteq> [] then Inr (u\<lparr>u_Opaque := rest\<rparr>)
      else if \<not> prefix ''/'' rest \<and> CHR '':'' \<in> set (fst (strings_Cut rest ''/'')) then Inl ColonInFirstSegment
      else if (u_Scheme u \<noteq> [] \<or> \<not> prefix ''///'' rest) \<and> prefix ''//'' rest then
        (let after = drop 2 rest;
             i = (case index_byte after (CHR ''/'') of None \<Rightarrow> length after | Some i \<Rightarrow> i)
         in case parse_authority (take i after) of
              Inl e \<Rightarrow> Inl e
            | Inr (user, host) \<Rightarrow> set_path (drop i after) (u\<lparr>u_User := user, u_Host := host\<rparr>))
      else set_path rest (if u_Scheme u \<noteq> [] \<and> prefix ''/'' rest then u\<lparr>u_OmitHost := True\<rparr> else u))"

definition parse_no_fragment :: "string \<Rightarrow> url_error + URL" where
  "parse_no_fragment raw =
     (if list_ex is_control raw then Inl ControlCharacter
      else if raw = ''*'' then Inr (empty_URL\<lparr>u_Path := ''*''\<rparr>)
      else case get_scheme raw of
        Inl e \<Rightarrow> Inl e
      | Inr (scheme, rest) \<Rightarrow>
          (let u = empty_URL\<lparr>u_Scheme := map lower_byte scheme\<rparr> in
           if suffix ''?'' rest \<and> count_list rest (CHR ''?'') = 1
           then parse_rest (butlast rest) (u\<lparr>u_ForceQuery := True\<rparr>)
           else case strings_Cut rest ''?'' of
             (rest, query, found) \<Rightarrow> parse_rest rest (u\<lparr>u_RawQuery := query\<rparr>)))"

definition url_Parse :: "string \<Rightarrow> url_error + URL" where
  "url_Parse raw =
     (case strings_Cut raw ''#'' of
        (u, frag, found) \<Rightarrow>
          (case parse_no_fragment u of
             Inl e \<Rightarrow> Inl e
           | Inr url \<Rightarrow> if frag = [] then Inr url else set_fragment frag url))"

section \<open>Hostname and String\<close>

definition url_Hostname :: "URL \<Rightarrow> string" where
  "url_Hostname u =
     (let host = u_Host u;
          host = (case last_index_byte host (CHR '':'') of
                    None \<Rightarrow> host
                  | Some i \<Rightarrow> if valid_optional_port (drop i host) then take i host else host)
      in if prefix ''['' host \<and> suffix '']'' host then butlast (tl host) else host)"

definition valid_encoded :: "url_mode \<Rightarrow> string \<Rightarrow> bool" where
  "valid_encoded mode s =
     list_all (\<lambda>c. c \<in> set (CHR 0x25 # CHR 0x27 # ''!$&()*+,;=:@[]'') \<or> \<not> should_escape mode c) s"

definition escaped_path :: "URL \<Rightarrow> string" where
  "escaped_path u =
     (if u_RawPath u \<noteq> [] \<and> valid_encoded M_Path (u_RawPath u) \<and>
         url_unescape M_Path (u_RawPath u) = Some (u_Path u) then u_RawPath u
      else if u_Path u = ''*'' then ''*''
      else url_escape M_Path (u_Path u))"

definition escaped_fragment :: "URL \<Rightarrow> string" where
  "escaped_fragment u =
     (if u_RawFragment u \<noteq> [] \<and> valid_encoded M_Fragment (u_RawFragment u) \<and>
         url_unescape M_Fragment (u_RawFragment u) = Some (u_Fragment u) then u_RawFragment u
      else url_escape M_Fragment (u_Fragment u))"

definition userinfo_String :: "string \<times> string option \<Rightarrow> string" where
  "userinfo_String ui =
     url_escape M_UserPassword (fst ui) @
     (case snd ui of None \<Rightarrow> [] | Some p \<Rightarrow> '':'' @ url_escape M_UserPassword p)"

text \<open>What \<open>String\<close> writes before the path.\<close>

definition url_front :: "URL \<Rightarrow> string" where
  "url_front u =
     (if u_Scheme u \<noteq> [] then u_Scheme u @ '':'' else []) @
     (if (u_Scheme u \<noteq> [] \<or> u_Host u \<noteq> [] \<or> u_User u \<noteq> None) \<and>
         \<not> (u_OmitHost u \<and> u_Host u = [] \<and> u_User u = None)
      then (if u_Host u \<noteq> [] \<or> u_Path u \<noteq> [] \<or> u_User u \<noteq> None then ''//'' else []) @
           (case u_User u of None \<Rightarrow> [] | Some ui \<Rightarrow> userinfo_String ui @ ''@'') @
           url_escape M_Host (u_Host u)
      else [])"

definition url_String :: "URL \<Rightarrow> string" where
  "url_String u =
     (if u_Opaque u \<noteq> [] then (if u_Scheme u \<noteq> [] then u_Scheme u @ '':'' else []) @ u_Opaque u
      else
        (let path = escaped_path u; front = url_front u in
         front @
         (if path \<noteq> [] \<and> hd path \<noteq> CHR ''/'' \<and> u_Host u \<noteq> [] then ''/'' else []) @
         (if front = [] \<and> CHR '':'' \<in> set (fst (strings_Cut path ''/'')) then ''./'' else []) @
         path)) @
     (if u_ForceQuery u \<or> u_RawQuery u \<noteq> [] then ''?'' @ u_RawQuery u else []) @
     (if u_Fragment u \<noteq> [] then ''#'' @ escaped_fragment u else [])"

section \<open>Facts about parsing\<close>

lemma set_path_frame:
  "set_path p u = Inr u' \<Longrightarrow>
   u_Scheme u' = u_Scheme u \<and> u_Opaque u' = u_Opaque u \<and> u_Host u' = u_Host u \<and> u_User u' = u_User u \<and>
   u_RawQuery u' = u_RawQuery u \<and> u_Fragment u' = u_Fragment u"
  by (auto simp: set_path_def split: option.splits)

lemma set_fragment_frame:
  "set_fragment f u = Inr u' \<Longrightarrow>
   u_Scheme u' = u_Scheme u \<and> u_Opaque u' = u_Opaque u \<and> u_Host u' = u_Host u \<and> u_User u' = u_User u"
  by (auto simp: set_fragment_def split: option.splits)

lemma parse_rest_frame:
  "parse_rest rest u = Inr u' \<Longrightarrow> u_Scheme u' = u_Scheme u \<and> u_RawQuery u' = u_RawQuery u"
  by (fastforce simp: parse_rest_def Let_def dest: set_path_frame
      split: if_splits sum.splits prod.splits option.splits)

lemma strings_Index_skip:
  "c \<notin> set p \<Longrightarrow> strings_Index (p @ s) [c] = map_option ((+) (length p)) (strings_Index s [c])"
  by (induction p) (auto simp: option.map_comp comp_def map_option_case split: option.splits)

lemma strings_Cut_skip:
  "c \<notin> set p \<Longrightarrow> strings_Cut (p @ s) [c] =
     (case strings_Cut s [c] of (before, after, found) \<Rightarrow> (p @ before, after, found))"
  by (auto simp: strings_Cut_def strings_Index_skip split: option.splits)

text \<open>A URL that is written with a scheme of letters and two slashes has that scheme.\<close>

definition letters :: "string \<Rightarrow> bool" where
  "letters s = list_all (\<lambda>c. is_lower c) s"

lemma get_scheme_at_letters:
  "letters s \<Longrightarrow> get_scheme_at i raw (s @ t) = get_scheme_at (i + length s) raw t"
  by (induction s arbitrary: i) (simp_all add: letters_def)

lemma colon_kind: "\<not> is_lower (CHR '':'')" "\<not> is_upper (CHR '':'')" "\<not> is_num (CHR '':'')"
  by (simp_all add: is_lower_def is_upper_def is_num_def)

lemma get_scheme_letters:
  "letters s \<Longrightarrow> s \<noteq> [] \<Longrightarrow> get_scheme (s @ '':'' @ t) = Inr (s, t)"
  by (simp add: get_scheme_def get_scheme_at_letters colon_kind)

lemma letters_lower: "letters s \<Longrightarrow> map lower_byte s = s"
  by (induction s) (auto simp: letters_def lower_byte_id not_both_cases)

lemma letters_plain: "letters s \<Longrightarrow> c \<in> set ''#?:/'' \<Longrightarrow> c \<notin> set s"
  by (auto simp: letters_def list_all_iff is_lower_def)

lemma parse_no_fragment_scheme:
  assumes "letters s" and "s \<noteq> []" and "parse_no_fragment (s @ '':'' @ t) = Inr u"
  shows "u_Scheme u = s"
proof -
  have "s @ '':'' @ t \<noteq> ''*''" using assms(2) by (cases s) auto
  with assms get_scheme_letters [OF assms(1,2), of t] show ?thesis
  by (auto simp: parse_no_fragment_def Let_def letters_lower empty_URL_def dest: parse_rest_frame
      split: if_splits prod.splits sum.splits)
qed

lemma url_Parse_scheme:
  assumes "letters s" and "s \<noteq> []" and "url_Parse (s @ ''://'' @ x) = Inr u"
  shows "u_Scheme u = s"
proof -
  let ?p = "s @ ''://''"
  obtain before frag found where cut: "strings_Cut x ''#'' = (before, frag, found)" by (metis prod_cases3)
  have "CHR ''#'' \<notin> set ?p" using letters_plain [OF assms(1)] by auto
  from strings_Cut_skip [OF this, of x] cut
  have "strings_Cut (s @ ''://'' @ x) ''#'' = (?p @ before, frag, found)" by simp
  with assms(3) obtain v where v: "parse_no_fragment (s @ '':'' @ (''//'' @ before)) = Inr v"
    and u: "u = v \<or> set_fragment frag v = Inr u"
    by (auto simp: url_Parse_def split: sum.splits if_splits)
  from parse_no_fragment_scheme [OF assms(1,2) v] u show ?thesis
    by (auto dest: set_fragment_frame)
qed

text \<open>The written form of a URL with a host starts with its scheme and two slashes.\<close>

lemma url_String_front:
  assumes "u_Opaque u = []" and "u_Scheme u \<noteq> []" and "u_Host u \<noteq> []"
  shows "prefix (u_Scheme u @ ''://'') (url_String u)"
  using assms by (simp add: url_String_def url_front_def Let_def)

text \<open>A URL with a host has no opaque part.\<close>

lemma parse_rest_opaque:
  "parse_rest rest u = Inr u' \<Longrightarrow> u_Opaque u = [] \<Longrightarrow> u_Host u = [] \<Longrightarrow> u_Opaque u' = [] \<or> u_Host u' = []"
  by (fastforce simp: parse_rest_def Let_def dest: set_path_frame
      split: if_splits sum.splits prod.splits option.splits)

lemma url_Parse_opaque:
  assumes "url_Parse raw = Inr u" and "u_Host u \<noteq> []"
  shows "u_Opaque u = []"
proof -
  from assms obtain before frag v where "parse_no_fragment before = Inr v" "u = v \<or> set_fragment frag v = Inr u"
    by (auto simp: url_Parse_def split: sum.splits if_splits prod.splits)
  then have "u_Opaque u = u_Opaque v" "u_Host u = u_Host v" by (auto dest: set_fragment_frame)
  moreover from \<open>parse_no_fragment before = Inr v\<close> have "u_Opaque v = [] \<or> u_Host v = []"
    by (auto simp: parse_no_fragment_def Let_def empty_URL_def dest!: parse_rest_opaque
        split: if_splits prod.splits sum.splits)
  ultimately show ?thesis using assms(2) by auto
qed

text \<open>Facts for evaluating the parser on a concrete URL.\<close>

lemmas url_eval =
  url_Parse_def parse_no_fragment_def parse_rest_def parse_authority_def parse_host_def set_path_def
  set_fragment_def get_scheme_def or_error_def valid_optional_port_def is_control_def empty_URL_def
  strings_Cut_def should_escape_def url_alnum_def is_lower_def is_upper_def is_num_def is_ascii_def
  url_escape_def hex_val_def is_digit_def url_Hostname_def

end
