(* ===== verification/Bridge_Target.thy ===== *)
theory Bridge_Target
  imports Go_Url Handler_Config
begin

text \<open>
  The backend address of the stand-alone proxy (\<open>pkg/bridge/bridge.go\<close>): how a target address is
  read, when a plaintext hop to it is warned about, and the policy that refuses such a hop.
\<close>

section \<open>The code\<close>

datatype target_error =
    TargetRequired
  | InvalidTarget url_error
  | UnsupportedScheme string
  | TargetWithoutHost
  | TargetHasPath

definition has_extras :: "URL \<Rightarrow> bool" where
  "has_extras u \<longleftrightarrow>
     (u_Path u \<noteq> [] \<and> u_Path u \<noteq> ''/'') \<or> u_RawQuery u \<noteq> [] \<or> u_Fragment u \<noteq> []"

definition parseBridgeTargetURL :: "string \<Rightarrow> target_error + URL" where
  "parseBridgeTargetURL address =
     (let address = strings_TrimSpace address in
      if address = [] then Inl TargetRequired
      else
        case (if strings_Contains address ''://'' then
                (case url_Parse address of
                   Inl e \<Rightarrow> Inl (InvalidTarget e)
                 | Inr u \<Rightarrow>
                     if u_Scheme u \<noteq> ''http'' then Inl (UnsupportedScheme (u_Scheme u))
                     else if u_Host u = [] then Inl TargetWithoutHost
                     else if has_extras u then Inl TargetHasPath
                     else Inr (u_Host u))
              else Inr address) of
          Inl e \<Rightarrow> Inl e
        | Inr address \<Rightarrow>
            (case url_Parse (''http://'' @ address) of
               Inl e \<Rightarrow> Inl (InvalidTarget e)
             | Inr u \<Rightarrow>
                 if u_Host u = [] then Inl TargetWithoutHost
                 else if has_extras u then Inl TargetHasPath
                 else Inr u))"

definition shouldWarnBridgePlaintextBackend :: "string \<Rightarrow> bool" where
  "shouldWarnBridgePlaintextBackend host =
     (let host = strings_TrimSpace host in
      if host = [] then True
      else if strings_EqualFold_ascii host ''localhost'' then False
      else case net_ParseIP host of
        Some ip \<Rightarrow> \<not> ip_IsLoopback ip
      | None \<Rightarrow> True)"

definition getBridgeBackendTransportPolicyError :: "HandlerConfig \<Rightarrow> URL option \<Rightarrow> bool" where
  "getBridgeBackendTransportPolicyError cfg target =
     (case target of
        None \<Rightarrow> False
      | Some u \<Rightarrow>
          hc_ShouldRequireLoopbackBackend cfg \<and> shouldWarnBridgePlaintextBackend (url_Hostname u))"

section \<open>What is accepted\<close>

lemma parseBridgeTarget_scheme:
  assumes "parseBridgeTargetURL address = Inr u"
  shows "u_Scheme u = ''http''"
proof -
  from assms obtain a where a: "url_Parse (''http'' @ ''://'' @ a) = Inr u"
    by (auto simp: parseBridgeTargetURL_def Let_def split: sum.splits if_splits)
  show ?thesis by (rule url_Parse_scheme [OF _ _ a]) (simp_all add: letters_def is_lower_def)
qed

text \<open>
  The warning spares exactly the local machine: \<open>localhost\<close> in any case and the loopback addresses;
  every other name warns, also one that resolves to a loopback address.
\<close>

lemma plaintext_warning_cases:
  "\<not> shouldWarnBridgePlaintextBackend host \<longleftrightarrow>
     fold_bytes (strings_TrimSpace host) = ''localhost'' \<or>
     (\<exists>ip. net_ParseIP (strings_TrimSpace host) = Some ip \<and> ip_IsLoopback ip)"
proof -
  have "map lower_byte ''localhost'' = ''localhost''" by code_simp
  moreover have "fold_bytes [] \<noteq> ''localhost''" "net_ParseIP [] = None"
    by (simp_all add: net_ParseIP_def)
  ultimately show ?thesis
    by (auto simp: shouldWarnBridgePlaintextBackend_def Let_def strings_EqualFold_ascii_def
        split: option.split)
qed

text \<open>
  An accepted target is a plain \<open>http\<close> URL of a host: it has a host, no opaque part, no path but
  \<open>/\<close>, no query and no fragment, however the address was written.
\<close>

theorem accepted_target_is_host_only:
  assumes "parseBridgeTargetURL address = Inr u"
  shows "u_Scheme u = ''http'' \<and> u_Host u \<noteq> [] \<and> u_Opaque u = [] \<and>
    u_Path u \<in> {[], ''/''} \<and> u_RawQuery u = [] \<and> u_Fragment u = []"
proof -
  from assms obtain a where a: "url_Parse (''http'' @ ''://'' @ a) = Inr u" "u_Host u \<noteq> []" "\<not> has_extras u"
    by (auto simp: parseBridgeTargetURL_def Let_def split: sum.splits if_splits)
  with url_Parse_opaque [OF a(1)] parseBridgeTarget_scheme [OF assms] show ?thesis by (auto simp: has_extras_def)
qed

abbreviation api_target :: URL where
  "api_target \<equiv> empty_URL\<lparr>u_Scheme := ''http'', u_Host := ''api:9''\<rparr>"

lemma parse_api_target: "parseBridgeTargetURL ''http://api:9/'' = Inr api_target"
  by (simp add: parseBridgeTargetURL_def has_extras_def strings_Contains_def url_eval
      TrimSpace_all_plain plain_end_def ascii_space_def)

theorem accepted_target_is_host_only_witness:
  "u_Host api_target \<noteq> [] \<and> u_RawQuery api_target = []"
  using accepted_target_is_host_only [OF parse_api_target] by simp

end
