(* ===== verification/Proxy_Handler.thy ===== *)
theory Proxy_Handler
  imports Bridge_Handler Handler_Abuse Bridge_Target
begin

text \<open>
  The stand-alone proxy (\<open>Handler\<close> of \<open>pkg/bridge/bridge.go\<close>): what \<open>NewHandler\<close> builds from a
  configuration, the effects of \<open>ServeHTTP\<close> on one upgrade request, and what the reverse proxy does
  with the requests of a session.
\<close>

section \<open>NewHandler\<close>

datatype init_error =
    ConfigInvalid config_error
  | TargetInvalid target_error
  | TransportPolicy

text \<open>
  \<open>ph_target\<close> is the backend of the reverse proxy, \<open>ph_pool\<close> the write-buffer pool of the upgrader,
  \<open>ph_dialTimeout\<close> the timeout of the backend dialer. A handler with an \<open>initErr\<close> has no proxy.
\<close>

record proxy_handler =
  ph_config :: HandlerConfig
  ph_upgrader :: Upgrader
  ph_pool :: nat
  ph_target :: "URL option"
  ph_dialTimeout :: duration
  ph_abuseGuard :: "handlerAbuseGuard option"
  ph_initErr :: "init_error option"

definition NewHandler ::
    "pool_cache \<Rightarrow> HandlerConfig \<Rightarrow> pool_cache \<times> proxy_handler \<times> h_event list" where
  [handler_defs]: "NewHandler pools cfg =
     (let cfg = applyHandlerDefaults cfg;
          made = buildWebSocketWriteBufferPool pools (hc_WriteBufferSize cfg);
          h = \<lparr>ph_config = cfg,
               ph_upgrader = \<lparr>up_ReadBufferSize = hc_ReadBufferSize cfg,
                              up_WriteBufferSize = hc_WriteBufferSize cfg,
                              up_CheckOrigin = hc_CheckOrigin cfg,
                              up_EnableCompression = hc_ShouldEnableCompression cfg\<rparr>,
               ph_pool = snd made, ph_target = None, ph_dialTimeout = 0,
               ph_abuseGuard = buildHandlerAbuseGuard cfg, ph_initErr = None\<rparr>;
          invalid = (\<lambda>level event e. (fst made, h\<lparr>ph_initErr := Some e\<rparr>, [LogEvent level event]))
      in case getHandlerConfigError cfg of
           Some e \<Rightarrow> invalid ''WARN'' ''bridge_config_invalid'' (ConfigInvalid e)
         | None \<Rightarrow>
             (case parseBridgeTargetURL (hc_TargetAddress cfg) of
                Inl e \<Rightarrow> invalid ''WARN'' ''bridge_config_invalid'' (TargetInvalid e)
              | Inr target \<Rightarrow>
                  if getBridgeBackendTransportPolicyError cfg (Some target)
                  then invalid ''ERROR'' ''backend_transport_policy_violation'' TransportPolicy
                  else
                    (fst made,
                     h\<lparr>ph_target := Some target, ph_dialTimeout := hc_BackendDialTimeout cfg\<rparr>,
                     if shouldWarnBridgePlaintextBackend (url_Hostname target)
                     then [LogEvent ''WARN'' ''backend_plaintext_non_loopback''] else [])))"

text \<open>
  The reverse proxy's hooks on a request: its URL and its host header are pointed at the backend,
  and an error of the backend answers 502.
\<close>

definition director :: "URL \<Rightarrow> URL \<times> string \<Rightarrow> URL \<times> string" where
  "director target req =
     ((fst req)\<lparr>u_Scheme := u_Scheme target, u_Host := u_Host target\<rparr>, u_Host target)"

definition proxy_ErrorHandler :: "h_event list" where
  "proxy_ErrorHandler = [LogEvent ''ERROR'' ''backend_proxy_error'', WriteStatus StatusBadGateway]"

section \<open>ServeHTTP\<close>

record proxy_env =
  pe_reserve :: "guard_error option"
  pe_upgrade :: "Upgrader \<Rightarrow> http_request \<Rightarrow> bool"
  pe_deadline_ok :: bool
  pe_setup_at :: instant
  pe_connect_panics :: bool
  pe_serve_panics :: bool
  pe_disconnect_panics :: bool

definition proxy_connected :: "HandlerConfig \<Rightarrow> proxy_env \<Rightarrow> h_event list" where
  [handler_defs]: "proxy_connected cfg env =
     LogEvent ''INFO'' ''tunnel_connect'' #
     deferring
       (LogEvent ''INFO'' ''tunnel_disconnect'' #
        (case hc_OnDisconnect cfg of
           None \<Rightarrow> []
         | Some h \<Rightarrow> OnDisconnectCalled h # (if pe_disconnect_panics env then [Panicked] else [])))
       (deferring [ConnClose]
          (ServedConn [] # (if pe_serve_panics env then [Panicked] else [])))"

definition proxy_upgraded :: "HandlerConfig \<Rightarrow> proxy_env \<Rightarrow> h_event list" where
  [handler_defs]: "proxy_upgraded cfg env =
     LogEvent ''INFO'' ''ws_upgrade_succeeded'' #
     deferring [WsClose]
       (let ok = (applyHandlerConnectionSettings cfg (pe_deadline_ok env) (pe_setup_at env) \<noteq> None) in
        SettingsApplied ok #
        (if \<not> ok then [LogEvent ''WARN'' ''ws_connection_setup_failed'']
         else deferring [StopKeepaliveCalled]
           (case hc_OnConnect cfg of
              None \<Rightarrow> proxy_connected cfg env
            | Some h \<Rightarrow> OnConnectCalled h #
                (if pe_connect_panics env then [Panicked] else proxy_connected cfg env))))"

definition ServeHTTP :: "proxy_handler \<Rightarrow> proxy_env \<Rightarrow> http_request \<Rightarrow> h_event list" where
  [handler_defs]: "ServeHTTP h env r =
     (if ph_initErr h \<noteq> None
      then [LogEvent ''ERROR'' ''bridge_request_rejected'', WriteStatus StatusInternalServerError]
      else
        ReserveSlot (pe_reserve env) #
        (case pe_reserve env of
           Some e \<Rightarrow> [LogEvent ''WARN'' ''ws_upgrade_rejected_abuse_control'',
                      ResponseHeader (setRetryAfterHeader [] e), WriteStatus StatusTooManyRequests]
         | None \<Rightarrow>
             deferring [ReleaseSlot]
               (let upgraded = pe_upgrade env (ph_upgrader h) r in
                UpgradeTried upgraded #
                (if upgraded then proxy_upgraded (ph_config h) env
                 else [LogEvent ''WARN'' ''ws_upgrade_failed'']))))"

section \<open>Construction\<close>

lemma NewHandler_initErr:
  "ph_initErr (fst (snd (NewHandler pools cfg))) =
     (case getHandlerConfigError cfg of
        Some e \<Rightarrow> Some (ConfigInvalid e)
      | None \<Rightarrow>
          (case parseBridgeTargetURL (hc_TargetAddress cfg) of
             Inl e \<Rightarrow> Some (TargetInvalid e)
           | Inr target \<Rightarrow>
               if getBridgeBackendTransportPolicyError cfg (Some target) then Some TransportPolicy
               else None))"
  by (cases "getHandlerConfigError cfg"; cases "parseBridgeTargetURL (hc_TargetAddress cfg)")
    (simp_all add: NewHandler_def Let_def getBridgeBackendTransportPolicyError_def)

lemma NewHandler_target:
  assumes "ph_initErr (fst (snd (NewHandler pools cfg))) = None"
  shows "\<exists>target. parseBridgeTargetURL (hc_TargetAddress cfg) = Inr target \<and>
    ph_target (fst (snd (NewHandler pools cfg))) = Some target \<and>
    \<not> getBridgeBackendTransportPolicyError cfg (Some target)"
  using assms
  by (cases "getHandlerConfigError cfg"; cases "parseBridgeTargetURL (hc_TargetAddress cfg)")
    (auto simp: NewHandler_def Let_def getBridgeBackendTransportPolicyError_def split: if_splits)

text \<open>
  A proxy fails closed: unless its configuration is valid, its target is an accepted host and the
  transport policy allows the hop, every request is answered with 500, and neither the guard nor
  the upgrader nor a hook is touched; otherwise every request starts with a reservation.
\<close>

theorem proxy_fails_closed:
  fixes pools cfg
  defines "h \<equiv> fst (snd (NewHandler pools cfg))"
  shows "(if getHandlerConfigError cfg = None \<and>
        (case parseBridgeTargetURL (hc_TargetAddress cfg) of
           Inl e \<Rightarrow> False
         | Inr target \<Rightarrow> \<not> (hc_ShouldRequireLoopbackBackend cfg \<and>
             shouldWarnBridgePlaintextBackend (url_Hostname target)))
     then ph_initErr h = None \<and> hd (ServeHTTP h env r) = ReserveSlot (pe_reserve env)
     else ServeHTTP h env r = [LogEvent ''ERROR'' ''bridge_request_rejected'', WriteStatus 500])"
  unfolding h_def
  by (cases "getHandlerConfigError cfg"; cases "parseBridgeTargetURL (hc_TargetAddress cfg)")
    (simp_all add: ServeHTTP_def NewHandler_initErr getBridgeBackendTransportPolicyError_def
      StatusInternalServerError_def)

text \<open>
  C12. With \<open>ShouldRequireLoopbackBackend\<close>, plaintext never leaves the machine: every request a working
  proxy forwards goes to the configured target, over \<open>http\<close>, to a host that is \<open>localhost\<close> or a
  loopback address; path, query and user of the request are kept.
\<close>

theorem strict_backend_is_loopback:
  assumes "ph_initErr (fst (snd (NewHandler pools cfg))) = None"
    and "hc_ShouldRequireLoopbackBackend cfg"
  shows "\<exists>target. ph_target (fst (snd (NewHandler pools cfg))) = Some target \<and>
    (\<forall>req. u_Scheme (fst (director target req)) = ''http'' \<and>
       u_Host (fst (director target req)) = u_Host target \<and> snd (director target req) = u_Host target \<and>
       u_Path (fst (director target req)) = u_Path (fst req) \<and>
       u_RawQuery (fst (director target req)) = u_RawQuery (fst req)) \<and>
    (fold_bytes (strings_TrimSpace (url_Hostname target)) = ''localhost'' \<or>
     (\<exists>ip. net_ParseIP (strings_TrimSpace (url_Hostname target)) = Some ip \<and> ip_IsLoopback ip))"
proof -
  from NewHandler_target [OF assms(1)] obtain target where
    t: "parseBridgeTargetURL (hc_TargetAddress cfg) = Inr target"
       "ph_target (fst (snd (NewHandler pools cfg))) = Some target"
       "\<not> getBridgeBackendTransportPolicyError cfg (Some target)" by blast
  from t(3) assms(2) have "\<not> shouldWarnBridgePlaintextBackend (url_Hostname target)"
    by (simp add: getBridgeBackendTransportPolicyError_def)
  with t(2) plaintext_warning_cases [of "url_Hostname target"] parseBridgeTarget_scheme [OF t(1)]
  show ?thesis by (auto simp: director_def)
qed

definition strict_config :: HandlerConfig where
  "strict_config = (small_handler_config 0)\<lparr>hc_TargetAddress := ''localhost'',
     hc_ShouldRequireLoopbackBackend := True\<rparr>"

lemma parse_localhost:
  "parseBridgeTargetURL ''localhost'' = Inr (empty_URL\<lparr>u_Scheme := ''http'', u_Host := ''localhost''\<rparr>)"
  by (simp add: parseBridgeTargetURL_def has_extras_def strings_Contains_def url_eval
      TrimSpace_all_plain plain_end_def ascii_space_def)

lemma strict_config_works:
  "ph_initErr (fst (snd (NewHandler \<lparr>cached_pools = Map.empty, pools_made = 0\<rparr> strict_config))) = None"
proof -
  have "\<not> shouldWarnBridgePlaintextBackend ''localhost''" by code_simp
  moreover have "url_Hostname (empty_URL\<lparr>u_Scheme := ''http'', u_Host := ''localhost''\<rparr>) = ''localhost''"
    by (simp add: url_Hostname_def Let_def)
  ultimately show ?thesis
    by (simp add: NewHandler_initErr strict_config_def small_handler_config_def parse_localhost
        getHandlerConfigError_def getBridgeBackendTransportPolicyError_def)
qed

theorem strict_backend_is_loopback_witness:
  "\<exists>target. ph_target (fst (snd (NewHandler \<lparr>cached_pools = Map.empty, pools_made = 0\<rparr> strict_config))) =
     Some target"
  using strict_backend_is_loopback [OF strict_config_works] by (auto simp: strict_config_def)

section \<open>The slot protocol and the resources\<close>

lemma proxy_connected_slots [simp]: "slot_events (proxy_connected cfg env) = []"
  by (simp add: proxy_connected_def split: option.split)

lemma proxy_upgraded_slots [simp]: "slot_events (proxy_upgraded cfg env) = []"
  by (simp add: proxy_upgraded_def Let_def split: option.split)

lemma proxy_slot_protocol: "slot_protocol (ServeHTTP h env r)"
  by (auto simp: ServeHTTP_def slot_protocol_def Let_def split: option.split)

definition proxy_trace :: "proxy_handler \<Rightarrow> http_request option \<Rightarrow> proxy_env \<Rightarrow> h_event list" where
  "proxy_trace h r env = (case r of None \<Rightarrow> [] | Some q \<Rightarrow> ServeHTTP h env q)"

interpretation proxy_server: concurrent_handlers reserveHandlerConnection clearHandlerConnection
  "\<lambda>g. g \<noteq> None" ha_active ha_held ha_max_active ha_max_client "proxy_trace h"
  for h
proof (unfold_locales, goal_cases)
  case (1 r env)
  show ?case using proxy_slot_protocol by (cases r) (simp_all add: proxy_trace_def slot_protocol_def)
qed

definition the_list :: "'a option \<Rightarrow> 'a list" where
  "the_list o1 = (case o1 of None \<Rightarrow> [] | Some x \<Rightarrow> [x])"

lemma the_list_simps [simp]: "the_list None = []" "the_list (Some x) = [x]"
  by (simp_all add: the_list_def)

lemma NewHandler_guard [simp]:
  "ph_abuseGuard (fst (snd (NewHandler pools cfg))) = buildHandlerAbuseGuard (applyHandlerDefaults cfg)"
  by (simp add: NewHandler_def Let_def split: option.split sum.split)

lemma handler_guard_start [simp]:
  "buildHandlerAbuseGuard cfg \<noteq> None" "ha_active (buildHandlerAbuseGuard cfg) = 0"
  "ha_held (buildHandlerAbuseGuard cfg) k = 0"
  "ha_max_active (buildHandlerAbuseGuard cfg) = hc_MaxActiveConnections cfg"
  "ha_max_client (buildHandlerAbuseGuard cfg) = hc_MaxConnectionsPerClient cfg"
  by (simp_all add: buildHandlerAbuseGuard_def ha_active_def ha_held_def ha_max_active_def
      ha_max_client_def)



lemma proxy_connected_resources [simp]: "resource_trace (proxy_connected cfg env) = []"
  by (simp add: proxy_connected_def split: option.split)

lemma proxy_connected_hooks [simp]:
  "hook_trace (proxy_connected cfg env) =
     [LogEvent ''INFO'' ''tunnel_connect'', ServedConn [], ConnClose,
      LogEvent ''INFO'' ''tunnel_disconnect''] @
     (case hc_OnDisconnect cfg of None \<Rightarrow> [] | Some h \<Rightarrow> [OnDisconnectCalled h])"
  by (simp add: proxy_connected_def split: option.split)

text \<open>
  Nothing leaks from the proxy either, and its hooks pair: on every path slot, socket and ping
  goroutine are given back in the reverse order of their acquisition, each once; and whenever the
  session is served, it is served after \<open>OnConnect\<close> and closed before \<open>OnDisconnect\<close>.
\<close>

theorem proxy_resources_nest:
  "resource_trace (ServeHTTP h env r) \<in>
     {[],
      [ReserveSlot None, ReleaseSlot],
      [ReserveSlot None, UpgradeTried True, WsClose, ReleaseSlot],
      [ReserveSlot None, UpgradeTried True, SettingsApplied True, StopKeepaliveCalled, WsClose, ReleaseSlot]} \<and>
   hook_trace (ServeHTTP h env r) \<in>
     {[],
      map OnConnectCalled (the_list (hc_OnConnect (ph_config h))),
      map OnConnectCalled (the_list (hc_OnConnect (ph_config h))) @
        [LogEvent ''INFO'' ''tunnel_connect'', ServedConn [], ConnClose,
         LogEvent ''INFO'' ''tunnel_disconnect''] @
        map OnDisconnectCalled (the_list (hc_OnDisconnect (ph_config h)))}"
  by (simp add: ServeHTTP_def proxy_upgraded_def Let_def split: option.split)

end
