(* ===== verification/Stream_Interface.thy ===== *)
theory Stream_Interface
  imports Prelude
begin

text \<open>
  What gRPC relies on when it reads from a tunneled connection, as a locale: whatever the frames of
  the websocket, the bytes a reader gets, in order, are the bytes that arrived. The three
  connection adapters of the repository are interpreted in their own theories; the browser adapter
  also satisfies the extension in which frames arrive while the reader runs.
\<close>

type_synonym bytes = string

text \<open>The errors the adapters return; the last two carry an error of the websocket library.\<close>

datatype 'e conn_error =
    IO_EOF
  | NetErrClosed
  | ErrClosedPipe
  | UnexpectedMessageType nat
  | WsError 'e

datatype 'e read_outcome = Got bytes | Failed "'e conn_error" | Blocked

text \<open>
  A sequence of successful reads: the bytes of all of them, in order. \<open>reads c n c' o\<close> says that a
  read with a buffer of \<open>n\<close> bytes in state \<open>c\<close> can end in \<open>c'\<close> with outcome \<open>o\<close>.
\<close>

inductive read_run ::
    "('c \<Rightarrow> nat \<Rightarrow> 'c \<Rightarrow> 'e read_outcome \<Rightarrow> bool) \<Rightarrow> 'c \<Rightarrow> bytes \<Rightarrow> 'c \<Rightarrow> bool"
  for reads where
  run_refl: "read_run reads c [] c"
| run_read: "reads c n c' (Got bs) \<Longrightarrow> read_run reads c' bs' c'' \<Longrightarrow> read_run reads c (bs @ bs') c''"

locale stream_reader =
  fixes reads :: "'c \<Rightarrow> nat \<Rightarrow> 'c \<Rightarrow> 'e read_outcome \<Rightarrow> bool"
    and unread :: "'c \<Rightarrow> bytes"
    and sound :: "'c \<Rightarrow> bool"
  assumes reads_sound: "sound c \<Longrightarrow> reads c n c' out \<Longrightarrow> sound c'"
    and reads_got: "sound c \<Longrightarrow> reads c n c' (Got bs) \<Longrightarrow> unread c = bs @ unread c' \<and> length bs \<le> n"
begin

lemma run_delivers:
  "read_run reads c bs c' \<Longrightarrow> sound c \<Longrightarrow> sound c' \<and> unread c = bs @ unread c'"
proof (induction rule: read_run.induct)
  case (run_read c n c' bs bs' c'')
  then show ?case using reads_sound reads_got by (metis append_assoc)
qed simp

lemma run_prefix: "read_run reads c bs c' \<Longrightarrow> sound c \<Longrightarrow> prefix bs (unread c)"
  using run_delivers by (auto simp: prefix_def)

end

text \<open>Frames that arrive between reads, and a run that mixes both.\<close>

inductive live_run ::
    "('c \<Rightarrow> nat \<Rightarrow> 'c \<Rightarrow> 'e read_outcome \<Rightarrow> bool) \<Rightarrow> ('c \<Rightarrow> bytes \<Rightarrow> 'c) \<Rightarrow> ('c \<Rightarrow> bool) \<Rightarrow>
     'c \<Rightarrow> bytes list \<Rightarrow> bytes \<Rightarrow> 'c \<Rightarrow> bool"
  for reads arrive is_open c0 where
  live_start: "live_run reads arrive is_open c0 [] [] c0"
| live_read: "live_run reads arrive is_open c0 ms bs c \<Longrightarrow> reads c n c' (Got b) \<Longrightarrow>
     live_run reads arrive is_open c0 ms (bs @ b) c'"
| live_block: "live_run reads arrive is_open c0 ms bs c \<Longrightarrow> reads c n c' Blocked \<Longrightarrow>
     live_run reads arrive is_open c0 ms bs c'"
| live_arrive: "live_run reads arrive is_open c0 ms bs c \<Longrightarrow> is_open (arrive c m) \<Longrightarrow>
     live_run reads arrive is_open c0 (ms @ [m]) bs (arrive c m)"

locale live_stream = stream_reader reads unread sound
  for reads :: "'c \<Rightarrow> nat \<Rightarrow> 'c \<Rightarrow> 'e read_outcome \<Rightarrow> bool"
    and unread :: "'c \<Rightarrow> bytes"
    and sound :: "'c \<Rightarrow> bool" +
  fixes arrive :: "'c \<Rightarrow> bytes \<Rightarrow> 'c" and is_open :: "'c \<Rightarrow> bool"
  assumes arrive_sound: "sound c \<Longrightarrow> sound (arrive c m)"
    and arrive_unread: "sound c \<Longrightarrow> is_open (arrive c m) \<Longrightarrow> unread (arrive c m) = unread c @ m"
    and blocked_unread: "sound c \<Longrightarrow> reads c n c' Blocked \<Longrightarrow> unread c = [] \<and> unread c' = []"
begin

lemma live_delivers:
  "live_run reads arrive is_open c0 ms bs c \<Longrightarrow> sound c0 \<Longrightarrow>
   sound c \<and> unread c0 @ concat ms = bs @ unread c"
proof (induction rule: live_run.induct)
  case (live_read ms bs c n c' b)
  then show ?case using reads_sound reads_got by (metis append_assoc)
next
  case (live_block ms bs c n c')
  then show ?case using reads_sound blocked_unread by metis
next
  case (live_arrive ms bs c m)
  then show ?case using arrive_sound arrive_unread by simp
qed simp

text \<open>A reader that blocks has received everything that arrived.\<close>

lemma blocked_has_all:
  assumes "live_run reads arrive is_open c0 ms bs c" and "sound c0" and "reads c n c' Blocked"
  shows "bs = unread c0 @ concat ms"
  using live_delivers [OF assms(1,2)] blocked_unread [of c n c'] assms(3) by simp

end

end
