(* ===== verification/Ws_Conn.thy ===== *)
theory Ws_Conn
  imports Stream_Interface
begin

text \<open>
  The two adapters that turn a gorilla websocket into a \<open>net.Conn\<close>: \<open>webSocketConn\<close> of
  \<open>pkg/grpctunnel/conn.go\<close> and of \<open>pkg/bridge/conn.go\<close>. The websocket library is a parameter:
  \<open>next_reader\<close> opens the next message, \<open>reader_read\<close> reads from the open one, \<open>write_message\<close>
  sends one. What the adapters rely on is \<open>gorilla_reads\<close>.
\<close>

section \<open>The library\<close>

datatype 'e read_status = Read_ok | Read_eof | Read_err 'e

type_synonym ('w, 'e) next_reader = "'w \<Rightarrow> 'w \<times> ('e + nat)"
type_synonym ('w, 'e) reader_read = "'w \<Rightarrow> nat \<Rightarrow> 'w \<times> bytes \<times> 'e read_status"
type_synonym ('w, 'e) write_message = "'w \<Rightarrow> nat \<Rightarrow> bytes \<Rightarrow> 'w \<times> 'e option"

definition BinaryMessage :: nat where "BinaryMessage = 2"

text \<open>
  \<open>current w\<close> is the rest of the open message, \<open>future w\<close> the messages after it, each with its
  type. \<open>NextReader\<close> skips the rest of the open message and opens the next; a reader hands out the
  open message in order and reports the end only when nothing is left.
\<close>

definition gorilla_reads ::
    "('w, 'e) next_reader \<Rightarrow> ('w, 'e) reader_read \<Rightarrow> ('w \<Rightarrow> bytes) \<Rightarrow> ('w \<Rightarrow> (nat \<times> bytes) list) \<Rightarrow> bool"
where
  "gorilla_reads next_reader reader_read current future \<longleftrightarrow>
     (\<forall>w w' ty. next_reader w = (w', Inr ty) \<longrightarrow> future w = (ty, current w') # future w') \<and>
     (\<forall>w n w' bs st. reader_read w n = (w', bs, st) \<longrightarrow>
        current w = bs @ current w' \<and> future w' = future w \<and> length bs \<le> n \<and>
        (st = Read_eof \<longrightarrow> current w' = []))"

lemma gorilla_next:
  "gorilla_reads nr rr current future \<Longrightarrow> nr w = (w', Inr ty) \<Longrightarrow>
   future w = (ty, current w') # future w'"
  by (auto simp: gorilla_reads_def)

lemma gorilla_read:
  "gorilla_reads nr rr current future \<Longrightarrow> rr w n = (w', bs, st) \<Longrightarrow>
   current w = bs @ current w' \<and> future w' = future w \<and> length bs \<le> n \<and>
   (st = Read_eof \<longrightarrow> current w' = [])"
  unfolding gorilla_reads_def by blast

section \<open>The adapters\<close>

text \<open>
  \<open>wc_ws\<close> is nil or the websocket, \<open>wc_reader\<close> whether a reader is kept from an earlier call,
  \<open>wc_closes\<close> counts the calls to the websocket's \<open>Close\<close>. The deadline fields are those of
  \<open>pkg/bridge\<close>, which mirrors the deadlines it sets.
\<close>

record 'w webSocketConn =
  wc_ws :: "'w option"
  wc_reader :: bool
  wc_isClosed :: bool
  wc_closeOnce :: bool
  wc_closes :: nat
  wc_readDeadline :: int
  wc_writeDeadline :: int

definition newWebSocketConn :: "'w option \<Rightarrow> 'w webSocketConn" where
  "newWebSocketConn ws =
     \<lparr>wc_ws = ws, wc_reader = False, wc_isClosed = False, wc_closeOnce = False, wc_closes = 0, wc_readDeadline = 0,
      wc_writeDeadline = 0\<rparr>"

definition bridge_NewWebSocketConn :: "'w option \<Rightarrow> 'w webSocketConn" where
  "bridge_NewWebSocketConn ws = (newWebSocketConn ws)\<lparr>wc_isClosed := (ws = None)\<rparr>"

text \<open>
  The first half of the loop of \<open>Read\<close>: keep the reader or open the next message, which must be
  binary. \<open>wrong_type\<close> is the error of each package for another type.
\<close>

definition acquire_reader ::
    "('w, 'e) next_reader \<Rightarrow> (nat \<Rightarrow> 'e conn_error) \<Rightarrow> bool \<Rightarrow> 'w \<Rightarrow> 'w \<times> 'e conn_error option" where
  "acquire_reader next_reader wrong_type active w =
     (if active then (w, None)
      else case next_reader w of
        (w', Inl e) \<Rightarrow> (w', Some (WsError e))
      | (w', Inr messageType) \<Rightarrow>
          (w', if messageType \<noteq> BinaryMessage then Some (wrong_type messageType) else None))"

text \<open>
  The loop, which goes on over empty messages; the result is the websocket, whether the reader is
  kept, the bytes read and the error returned with them.
\<close>

partial_function (option) read_frames ::
    "('w, 'e) next_reader \<Rightarrow> ('w, 'e) reader_read \<Rightarrow> (nat \<Rightarrow> 'e conn_error) \<Rightarrow> bool \<Rightarrow> 'w \<Rightarrow> nat \<Rightarrow>
     ('w \<times> bool \<times> bytes \<times> 'e conn_error option) option"
where
  "read_frames next_reader reader_read wrong_type active w n =
     (case acquire_reader next_reader wrong_type active w of
        (w, Some err) \<Rightarrow> Some (w, False, [], Some err)
      | (w, None) \<Rightarrow>
          (case reader_read w n of
             (w, bs, Read_eof) \<Rightarrow>
               if bs \<noteq> [] then Some (w, False, bs, None)
               else read_frames next_reader reader_read wrong_type False w n
           | (w, bs, Read_ok) \<Rightarrow> Some (w, True, bs, None)
           | (w, bs, Read_err e) \<Rightarrow> Some (w, True, bs, Some (WsError e))))"

definition adapter_Read ::
    "('w, 'e) next_reader \<Rightarrow> ('w, 'e) reader_read \<Rightarrow> (nat \<Rightarrow> 'e conn_error) \<Rightarrow> 'e conn_error \<Rightarrow>
     'w webSocketConn \<Rightarrow> nat \<Rightarrow> ('w webSocketConn \<times> bytes \<times> 'e conn_error option) option"
where
  "adapter_Read next_reader reader_read wrong_type closed c n =
     (if wc_isClosed c then Some (c, [], Some closed)
      else case wc_ws c of
        None \<Rightarrow> Some (c, [], Some closed)
      | Some w \<Rightarrow> map_option (\<lambda>(w', active, bs, err). (c\<lparr>wc_ws := Some w', wc_reader := active\<rparr>, bs, err))
          (read_frames next_reader reader_read wrong_type (wc_reader c) w n))"

definition webSocketConn_Read ::
    "('w, 'e) next_reader \<Rightarrow> ('w, 'e) reader_read \<Rightarrow>
     'w webSocketConn \<Rightarrow> nat \<Rightarrow> ('w webSocketConn \<times> bytes \<times> 'e conn_error option) option" where
  "webSocketConn_Read next_reader reader_read =
     adapter_Read next_reader reader_read UnexpectedMessageType IO_EOF"

definition bridge_Read ::
    "('w, 'e) next_reader \<Rightarrow> ('w, 'e) reader_read \<Rightarrow>
     'w webSocketConn \<Rightarrow> nat \<Rightarrow> ('w webSocketConn \<times> bytes \<times> 'e conn_error option) option" where
  "bridge_Read next_reader reader_read =
     adapter_Read next_reader reader_read (\<lambda>_. NetErrClosed) NetErrClosed"

definition adapter_Write ::
    "('w, 'e) write_message \<Rightarrow> 'e conn_error \<Rightarrow> 'w webSocketConn \<Rightarrow> bytes \<Rightarrow>
     'w webSocketConn \<times> nat \<times> 'e conn_error option" where
  "adapter_Write write_message closed c p =
     (if wc_isClosed c then (c, 0, Some closed)
      else case wc_ws c of
        None \<Rightarrow> (c, 0, Some closed)
      | Some w \<Rightarrow>
          (case write_message w BinaryMessage p of
             (w', Some e) \<Rightarrow> (c\<lparr>wc_ws := Some w'\<rparr>, 0, Some (WsError e))
           | (w', None) \<Rightarrow> (c\<lparr>wc_ws := Some w'\<rparr>, length p, None)))"

definition webSocketConn_Write ::
    "('w, 'e) write_message \<Rightarrow> 'w webSocketConn \<Rightarrow> bytes \<Rightarrow> 'w webSocketConn \<times> nat \<times> 'e conn_error option"
where "webSocketConn_Write write_message = adapter_Write write_message ErrClosedPipe"

definition bridge_Write ::
    "('w, 'e) write_message \<Rightarrow> 'w webSocketConn \<Rightarrow> bytes \<Rightarrow> 'w webSocketConn \<times> nat \<times> 'e conn_error option"
where "bridge_Write write_message = adapter_Write write_message NetErrClosed"

text \<open>\<open>Close\<close> of both: the flag is set and the websocket closed by the first call only.\<close>

definition webSocketConn_Close ::
    "('w \<Rightarrow> 'e option) \<Rightarrow> 'w webSocketConn \<Rightarrow> 'w webSocketConn \<times> 'e option" where
  "webSocketConn_Close ws_close c =
     (if wc_closeOnce c then (c, None)
      else
        (let c = c\<lparr>wc_closeOnce := True, wc_isClosed := True\<rparr>
         in case wc_ws c of
              None \<Rightarrow> (c, None)
            | Some w \<Rightarrow> (c\<lparr>wc_closes := Suc (wc_closes c)\<rparr>, ws_close w)))"

definition bridge_Close ::
    "('w \<Rightarrow> 'e option) \<Rightarrow> 'w webSocketConn \<Rightarrow> 'w webSocketConn \<times> 'e option" where
  "bridge_Close ws_close c =
     (if wc_closeOnce c then (c, None)
      else
        (let c = c\<lparr>wc_closeOnce := True, wc_isClosed := True\<rparr>
         in case wc_ws c of
              None \<Rightarrow> (c, None)
            | Some w \<Rightarrow> (c\<lparr>wc_closes := Suc (wc_closes c)\<rparr>, ws_close w)))"

lemma bridge_Close_same: "bridge_Close = webSocketConn_Close"
  by (simp add: bridge_Close_def webSocketConn_Close_def fun_eq_iff)

definition conn_LocalAddr :: "('w \<Rightarrow> 'addr) \<Rightarrow> 'w webSocketConn \<Rightarrow> 'addr option" where
  "conn_LocalAddr local_addr c = map_option local_addr (wc_ws c)"

definition conn_RemoteAddr :: "('w \<Rightarrow> 'addr) \<Rightarrow> 'w webSocketConn \<Rightarrow> 'addr option" where
  "conn_RemoteAddr remote_addr c = map_option remote_addr (wc_ws c)"

text \<open>The proxy's copy.\<close>

definition bridge_LocalAddr :: "('w \<Rightarrow> 'addr) \<Rightarrow> 'w webSocketConn \<Rightarrow> 'addr option" where
  "bridge_LocalAddr local_addr c = map_option local_addr (wc_ws c)"

definition bridge_RemoteAddr :: "('w \<Rightarrow> 'addr) \<Rightarrow> 'w webSocketConn \<Rightarrow> 'addr option" where
  "bridge_RemoteAddr remote_addr c = map_option remote_addr (wc_ws c)"

section \<open>Reading\<close>

text \<open>The bytes of the messages that are delivered: those before the first that is not binary.\<close>

definition binary_prefix :: "(nat \<times> bytes) list \<Rightarrow> bytes" where
  "binary_prefix fs = concat (map snd (takeWhile (\<lambda>f. fst f = BinaryMessage) fs))"

lemma binary_prefix_simps [simp]:
  "binary_prefix [] = []"
  "binary_prefix ((ty, m) # fs) = (if ty = BinaryMessage then m @ binary_prefix fs else [])"
  by (simp_all add: binary_prefix_def)

abbreviation rest_of ::
    "('w \<Rightarrow> bytes) \<Rightarrow> ('w \<Rightarrow> (nat \<times> bytes) list) \<Rightarrow> bool \<Rightarrow> 'w \<Rightarrow> bytes" where
  "rest_of current future active w \<equiv> (if active then current w else []) @ binary_prefix (future w)"

text \<open>One run of the loop: it returns, and the bytes it returns are the next ones.\<close>

definition frames_result where
  "frames_result wrong_type current future active w n r \<longleftrightarrow>
     (case r of (w', active', bs, err) \<Rightarrow>
        length bs \<le> n \<and>
        (err = None \<or> bs \<noteq> [] \<longrightarrow>
           rest_of current future active w = bs @ rest_of current future active' w') \<and>
        (err = None \<or> (\<exists>e. err = Some (WsError e)) \<or>
           (\<exists>ty. err = Some (wrong_type ty) \<and> ty \<noteq> BinaryMessage \<and> bs = [] \<and>
                 rest_of current future active w = [])))"

lemma acquire_failed:
  assumes "gorilla_reads nr rr current future" and "acquire_reader nr wt active w = (w', Some err)"
  shows "frames_result wt current future active w n (w', False, [], Some err)"
  using assms(2) gorilla_next [OF assms(1), of w]
  by (fastforce simp: acquire_reader_def frames_result_def split: if_splits prod.splits sum.splits)

lemma acquire_done:
  assumes "gorilla_reads nr rr current future" and "acquire_reader nr wt active w = (w', None)"
  shows "rest_of current future active w = current w' @ binary_prefix (future w') \<and>
    (if active then w' = w else length (future w') < length (future w))"
  using assms(2) gorilla_next [OF assms(1), of w]
  by (fastforce simp: acquire_reader_def split: if_splits prod.splits sum.splits)

text \<open>
  The loop returns, and a property that holds for its three exits and passes over empty messages
  holds for what it returns.
\<close>

lemma read_frames_rule:
  assumes contract: "gorilla_reads nr rr current future"
    and failed: "\<And>active w w1 err. acquire_reader nr wt active w = (w1, Some err) \<Longrightarrow>
      P active w (w1, False, [], Some err)"
    and exit: "\<And>active w w1 w2 bs st. acquire_reader nr wt active w = (w1, None) \<Longrightarrow>
      rr w1 n = (w2, bs, st) \<Longrightarrow> bs = [] \<longrightarrow> st \<noteq> Read_eof \<Longrightarrow>
      P active w (w2, st \<noteq> Read_eof, bs, case st of Read_err e \<Rightarrow> Some (WsError e) | _ \<Rightarrow> None)"
    and skip: "\<And>active w w1 w2 r. acquire_reader nr wt active w = (w1, None) \<Longrightarrow>
      rr w1 n = (w2, [], Read_eof) \<Longrightarrow> P False w2 r \<Longrightarrow> P active w r"
  shows "\<exists>r. read_frames nr rr wt active w n = Some r \<and> P active w r"
proof (induction "2 * length (future w) + (if active then 1 else 0)" arbitrary: active w rule: less_induct)
  case less
  obtain w1 o1 where acq: "acquire_reader nr wt active w = (w1, o1)" by fastforce
  show ?case
  proof (cases o1)
    case (Some err)
    with acq failed [of active w w1 err] show ?thesis by (subst read_frames.simps) simp
  next
    case None
    with acq have acq: "acquire_reader nr wt active w = (w1, None)" by simp
    obtain w2 bs st where rd: "rr w1 n = (w2, bs, st)" by (metis prod_cases3)
    show ?thesis
    proof (cases "st = Read_eof \<and> bs = []")
      case True
      have "2 * length (future w2) + (if False then 1 else 0) < 2 * length (future w) + (if active then 1 else 0)"
        using acquire_done [OF contract acq] gorilla_read [OF contract rd] by (auto split: if_splits)
      from less [OF this] obtain r where "read_frames nr rr wt False w2 n = Some r" "P False w2 r" by auto
      moreover from True rd have "rr w1 n = (w2, [], Read_eof)" by simp
      ultimately show ?thesis using acq rd True skip [OF acq] by (subst read_frames.simps) simp
    next
      case False
      with exit [OF acq rd] acq rd show ?thesis by (subst read_frames.simps) (cases st; auto)
    qed
  qed
qed

lemma read_frames_returns:
  assumes contract: "gorilla_reads nr rr current future"
  shows "\<exists>r. read_frames nr rr wt active w n = Some r \<and> frames_result wt current future active w n r"
proof (rule read_frames_rule [OF contract])
  fix active w w1 w2 bs st
  assume "acquire_reader nr wt active w = (w1, None)" and "rr w1 n = (w2, bs, st)"
  from acquire_done [OF contract this(1)] gorilla_read [OF contract this(2)]
  show "frames_result wt current future active w n
      (w2, st \<noteq> Read_eof, bs, case st of Read_err e \<Rightarrow> Some (WsError e) | _ \<Rightarrow> None)"
    by (cases st) (auto simp: frames_result_def)
next
  fix active w w1 w2 r
  assume "acquire_reader nr wt active w = (w1, None)" and "rr w1 n = (w2, [], Read_eof)"
    and "frames_result wt current future False w2 n r"
  with acquire_done [OF contract this(1)] gorilla_read [OF contract this(2)]
  show "frames_result wt current future active w n r" by (auto simp: frames_result_def)
qed (rule acquire_failed [OF contract])

definition adapter_unread ::
    "('w \<Rightarrow> bytes) \<Rightarrow> ('w \<Rightarrow> (nat \<times> bytes) list) \<Rightarrow> 'w webSocketConn \<Rightarrow> bytes" where
  "adapter_unread current future c =
     (case wc_ws c of None \<Rightarrow> [] | Some w \<Rightarrow> rest_of current future (wc_reader c) w)"

text \<open>The reads of an adapter that hand out bytes, alone or along with an error.\<close>

definition adapter_reads ::
    "('w webSocketConn \<Rightarrow> nat \<Rightarrow> ('w webSocketConn \<times> bytes \<times> 'e conn_error option) option) \<Rightarrow>
     'w webSocketConn \<Rightarrow> nat \<Rightarrow> 'w webSocketConn \<Rightarrow> 'e read_outcome \<Rightarrow> bool" where
  "adapter_reads rd c n c' out \<longleftrightarrow>
     (case rd c n of
        None \<Rightarrow> False
      | Some (d, bs, err) \<Rightarrow> d = c' \<and>
          (case out of
             Got b \<Rightarrow> b = bs \<and> (err = None \<or> bs \<noteq> [])
           | Failed e \<Rightarrow> err = Some e
           | Blocked \<Rightarrow> False))"

text \<open>
  The outcome of a read on an adapter whose packages use \<open>wt\<close> for a message of the wrong type and
  \<open>cl\<close> for a closed connection.
\<close>

definition read_result where
  "read_result wt cl current future c n r \<longleftrightarrow>
     (case r of (c', bs, err) \<Rightarrow>
        length bs \<le> n \<and>
        (err = None \<or> bs \<noteq> [] \<longrightarrow>
           adapter_unread current future c = bs @ adapter_unread current future c') \<and>
        (if wc_isClosed c \<or> wc_ws c = None then err = Some cl \<and> bs = []
         else err = None \<or> (\<exists>e. err = Some (WsError e)) \<or>
           (\<exists>ty. err = Some (wt ty) \<and> ty \<noteq> BinaryMessage \<and> bs = [] \<and>
                 adapter_unread current future c = [])))"

lemma adapter_Read_returns:
  assumes contract: "gorilla_reads nr rr current future"
  shows "\<exists>r. adapter_Read nr rr wt cl c n = Some r \<and> read_result wt cl current future c n r"
proof (cases "wc_isClosed c \<or> wc_ws c = None")
  case True
  then show ?thesis by (auto simp: adapter_Read_def read_result_def)
next
  case False
  then obtain w where w: "wc_ws c = Some w" "\<not> wc_isClosed c" by auto
  from read_frames_returns [OF contract] obtain r where
    r: "read_frames nr rr wt (wc_reader c) w n = Some r"
       "frames_result wt current future (wc_reader c) w n r" by blast
  obtain w' a bs err where "r = (w', a, bs, err)" by (metis prod_cases4)
  with r w show ?thesis
    by (simp add: adapter_Read_def frames_result_def adapter_unread_def read_result_def)
qed

lemma adapter_Read_got:
  assumes contract: "gorilla_reads nr rr current future"
    and got: "adapter_reads (adapter_Read nr rr wt cl) c n c' (Got bs)"
  shows "adapter_unread current future c = bs @ adapter_unread current future c' \<and> length bs \<le> n"
proof -
  from adapter_Read_returns [OF contract] obtain r where
    r: "adapter_Read nr rr wt cl c n = Some r" "read_result wt cl current future c n r" by blast
  from got r(1) obtain err where "r = (c', bs, err)" "err = None \<or> bs \<noteq> []"
    by (cases r) (simp add: adapter_reads_def)
  with r(2) show ?thesis by (auto simp: read_result_def)
qed

interpretation tunnel_conn: stream_reader "adapter_reads (webSocketConn_Read nr rr)"
    "adapter_unread current future" "\<lambda>_. gorilla_reads nr rr current future"
  for nr :: "('w, 'e) next_reader" and rr and current and future
  by unfold_locales (simp_all add: webSocketConn_Read_def adapter_Read_got)

interpretation bridge_conn: stream_reader "adapter_reads (bridge_Read nr rr)"
    "adapter_unread current future" "\<lambda>_. gorilla_reads nr rr current future"
  for nr :: "('w, 'e) next_reader" and rr and current and future
  by unfold_locales (simp_all add: bridge_Read_def adapter_Read_got)

text \<open>
  A library that satisfies the contract, for the witnesses: the messages still to come and the rest
  of the open one.
\<close>

fun list_next :: "((nat \<times> bytes) list \<times> bytes) \<Rightarrow> ((nat \<times> bytes) list \<times> bytes) \<times> (unit + nat)" where
  "list_next ([], cur) = (([], cur), Inl ())"
| "list_next ((ty, m) # fs, cur) = ((fs, m), Inr ty)"

fun list_read :: "((nat \<times> bytes) list \<times> bytes) \<Rightarrow> nat \<Rightarrow>
    ((nat \<times> bytes) list \<times> bytes) \<times> bytes \<times> unit read_status" where
  "list_read (fs, cur) n =
     (if cur = [] then ((fs, []), [], Read_eof) else ((fs, drop n cur), take n cur, Read_ok))"

lemma list_contract: "gorilla_reads list_next list_read snd fst"
proof -
  have "fst w = (ty, snd w') # fst w'" if "list_next w = (w', Inr ty)" for w w' ty
    using that by (cases w rule: list_next.cases) auto
  moreover have "snd w = bs @ snd w' \<and> fst w' = fst w \<and> length bs \<le> n \<and> (st = Read_eof \<longrightarrow> snd w' = [])"
    if "list_read w n = (w', bs, st)" for w n w' bs st
    using that by (cases w) (auto split: if_splits)
  ultimately show ?thesis unfolding gorilla_reads_def by blast
qed

text \<open>
  C11. Both adapters turn messages into a byte stream: the bytes of any sequence of reads, whatever the
  buffer sizes, followed by those not yet read, are the concatenated binary messages.
\<close>

theorem adapters_read_a_stream:
  assumes "gorilla_reads nr rr current future"
    and "rd = webSocketConn_Read nr rr \<or> rd = bridge_Read nr rr"
    and "read_run (adapter_reads rd) c bs c'"
  shows "adapter_unread current future c = bs @ adapter_unread current future c'"
  using assms tunnel_conn.run_delivers [of nr rr c bs c' current future]
    bridge_conn.run_delivers [of nr rr c bs c' current future]
  by blast

definition list_conn :: "((nat \<times> bytes) list \<times> bytes) webSocketConn" where
  "list_conn = newWebSocketConn (Some ([(2, ''ab''), (2, []), (2, ''c''), (1, ''text''), (2, ''d'')], []))"

lemma list_conn_run:
  "read_run (adapter_reads (webSocketConn_Read list_next list_read)) list_conn ''ab''
     (list_conn\<lparr>wc_ws := Some ([(2, []), (2, ''c''), (1, ''text''), (2, ''d'')], []), wc_reader := True\<rparr>)"
proof -
  have "webSocketConn_Read list_next list_read list_conn 2 =
    Some (list_conn\<lparr>wc_ws := Some ([(2, []), (2, ''c''), (1, ''text''), (2, ''d'')], []), wc_reader := True\<rparr>,
      ''ab'', None)"
    by (simp add: webSocketConn_Read_def adapter_Read_def list_conn_def newWebSocketConn_def
        acquire_reader_def BinaryMessage_def read_frames.simps)
  then have "adapter_reads (webSocketConn_Read list_next list_read) list_conn 2
    (list_conn\<lparr>wc_ws := Some ([(2, []), (2, ''c''), (1, ''text''), (2, ''d'')], []), wc_reader := True\<rparr>)
    (Got ''ab'')"
    by (simp add: adapter_reads_def)
  then have "read_run (adapter_reads (webSocketConn_Read list_next list_read)) list_conn (''ab'' @ [])
    (list_conn\<lparr>wc_ws := Some ([(2, []), (2, ''c''), (1, ''text''), (2, ''d'')], []), wc_reader := True\<rparr>)"
    by (rule run_read) (rule run_refl)
  then show ?thesis by simp
qed

theorem adapters_read_a_stream_witness:
  "adapter_unread snd fst list_conn = ''ab'' @ adapter_unread snd fst
     (list_conn\<lparr>wc_ws := Some ([(2, []), (2, ''c''), (1, ''text''), (2, ''d'')], []), wc_reader := True\<rparr>)"
  by (rule adapters_read_a_stream [OF list_contract _ list_conn_run]) simp

text \<open>
  C13. A read always returns. On a closed adapter it reports the end of the stream in \<open>pkg/grpctunnel\<close> and
  a closed connection in \<open>pkg/bridge\<close>; on an open one it returns bytes that fit the buffer, an error
  of the websocket, or, once every byte before it has been delivered, the protocol violation of a
  message that is not binary, whose payload is never handed out.
\<close>

theorem reads_return:
  assumes "gorilla_reads nr rr current future"
  shows "(case webSocketConn_Read nr rr c n of
      None \<Rightarrow> False
    | Some (c', bs, err) \<Rightarrow> length bs \<le> n \<and>
        (if wc_isClosed c \<or> wc_ws c = None then err = Some IO_EOF \<and> bs = []
         else err = None \<or> (\<exists>e. err = Some (WsError e)) \<or>
           (\<exists>ty. err = Some (UnexpectedMessageType ty) \<and> ty \<noteq> 2 \<and> bs = [] \<and>
                 adapter_unread current future c = []))) \<and>
    (case bridge_Read nr rr c n of
      None \<Rightarrow> False
    | Some (c', bs, err) \<Rightarrow> length bs \<le> n \<and>
        (if wc_isClosed c \<or> wc_ws c = None then err = Some NetErrClosed \<and> bs = []
         else err = None \<or> (\<exists>e. err = Some (WsError e)) \<or>
           (err = Some NetErrClosed \<and> bs = [] \<and> adapter_unread current future c = [])))"
proof -
  obtain r where "webSocketConn_Read nr rr c n = Some r"
    "read_result UnexpectedMessageType IO_EOF current future c n r"
    using adapter_Read_returns [OF assms] unfolding webSocketConn_Read_def by blast
  moreover obtain r' where "bridge_Read nr rr c n = Some r'"
    "read_result (\<lambda>_. NetErrClosed) NetErrClosed current future c n r'"
    using adapter_Read_returns [OF assms] unfolding bridge_Read_def by blast
  ultimately show ?thesis
    by (cases r; cases r') (simp add: read_result_def BinaryMessage_def split: if_splits; (blast | force))
qed

theorem reads_return_witness:
  "(case webSocketConn_Read list_next list_read list_conn 4 of
      None \<Rightarrow> False | Some (c', bs, err) \<Rightarrow> length bs \<le> 4)"
  using reads_return [OF list_contract, where c = list_conn and n = 4] by (simp split: option.splits prod.splits)

section \<open>Writing and closing\<close>

text \<open>A library that records the messages written, for the statements below.\<close>

definition recording :: "('w \<Rightarrow> (nat \<times> bytes) list) \<Rightarrow> ('w, 'e) write_message \<Rightarrow> bool" where
  "recording sent write_message \<longleftrightarrow>
     (\<forall>w ty p w'. write_message w ty p = (w', None) \<longrightarrow> sent w' = sent w @ [(ty, p)])"

fun write_all ::
    "('w webSocketConn \<Rightarrow> bytes \<Rightarrow> 'w webSocketConn \<times> nat \<times> 'e conn_error option) \<Rightarrow>
     bytes list \<Rightarrow> 'w webSocketConn \<Rightarrow> 'w webSocketConn \<times> 'e conn_error option" where
  "write_all wr [] c = (c, None)"
| "write_all wr (p # ps) c =
     (case wr c p of
        (c, k, Some err) \<Rightarrow> (c, Some err)
      | (c, k, None) \<Rightarrow> write_all wr ps c)"

definition sent_by :: "('w \<Rightarrow> (nat \<times> bytes) list) \<Rightarrow> 'w webSocketConn \<Rightarrow> (nat \<times> bytes) list" where
  "sent_by sent c = (case wc_ws c of None \<Rightarrow> [] | Some w \<Rightarrow> sent w)"

lemma adapter_Write_sent:
  assumes "recording sent wm" and "adapter_Write wm cl c p = (c', k, None)"
  shows "sent_by sent c' = sent_by sent c @ [(BinaryMessage, p)] \<and> k = length p"
  using assms unfolding recording_def adapter_Write_def sent_by_def
  by (auto split: if_splits option.splits prod.splits)

lemma write_all_sent:
  "recording sent wm \<Longrightarrow> write_all (adapter_Write wm cl) ps c = (c', None) \<Longrightarrow>
   sent_by sent c' = sent_by sent c @ map (\<lambda>p. (BinaryMessage, p)) ps"
proof (induction ps arbitrary: c)
  case (Cons p ps)
  obtain c1 k o1 where w: "adapter_Write wm cl c p = (c1, k, o1)" by (metis prod_cases3)
  with Cons.prems(2) have "o1 = None" and rest: "write_all (adapter_Write wm cl) ps c1 = (c', None)"
    by (auto split: option.splits)
  with adapter_Write_sent [OF Cons.prems(1)] w
  have "sent_by sent c1 = sent_by sent c @ [(BinaryMessage, p)]" by blast
  with Cons.IH [OF Cons.prems(1) rest] show ?case by simp
qed simp

text \<open>
  What one adapter writes the adapter at the other end reads: each write is one binary message with
  the bytes given, so the bytes a reader of those messages can get are the bytes written, in order.
\<close>

theorem writes_read_back:
  assumes "recording sent write_message" and "wr = webSocketConn_Write write_message \<or> wr = bridge_Write write_message"
    and "write_all wr ps c = (c', None)" and "sent_by sent c = []"
    and "gorilla_reads nr rr current future"
    and "future w = sent_by sent c'"
  shows "map fst (sent_by sent c') = replicate (length ps) 2 \<and>
    adapter_unread current future (newWebSocketConn (Some w)) = concat ps"
proof -
  have "sent_by sent c' = map (\<lambda>p. (BinaryMessage, p)) ps"
    using assms(2,3,4) write_all_sent [OF assms(1)]
    unfolding webSocketConn_Write_def bridge_Write_def by fastforce
  moreover have "binary_prefix (map (\<lambda>p. (BinaryMessage, p)) ps) = concat ps" for ps
    by (induction ps) simp_all
  ultimately show ?thesis
    by (simp add: assms(6) adapter_unread_def newWebSocketConn_def comp_def map_replicate_const
        BinaryMessage_def)
qed

definition list_write :: "((nat \<times> bytes) list, unit) write_message" where
  "list_write w ty p = (w @ [(ty, p)], None)"

theorem writes_read_back_witness:
  "adapter_unread snd fst (newWebSocketConn (Some ([(2, ''ab''), (2, ''c'')], []))) = ''abc''"
proof -
  have "write_all (webSocketConn_Write list_write) [''ab'', ''c''] (newWebSocketConn (Some [])) =
      ((newWebSocketConn (Some []))\<lparr>wc_ws := Some [(2, ''ab''), (2, ''c'')]\<rparr>, None)"
    by (simp add: webSocketConn_Write_def adapter_Write_def list_write_def newWebSocketConn_def
        BinaryMessage_def)
  from writes_read_back [of id list_write, OF _ _ this _ list_contract, of "([(2, ''ab''), (2, ''c'')], [])"]
  show ?thesis by (simp add: recording_def list_write_def sent_by_def newWebSocketConn_def)
qed

text \<open>
  Closing is idempotent: however often an adapter is closed, the websocket is closed once, later
  calls report no error, and every later write is refused without a message being sent.
\<close>

fun close_times :: "('w \<Rightarrow> 'e option) \<Rightarrow> nat \<Rightarrow> 'w webSocketConn \<Rightarrow> 'w webSocketConn" where
  "close_times ws_close 0 c = c"
| "close_times ws_close (Suc k) c = close_times ws_close k (fst (webSocketConn_Close ws_close c))"

lemma close_again:
  "wc_closeOnce c \<Longrightarrow> webSocketConn_Close ws_close c = (c, None)"
  "wc_closeOnce (fst (webSocketConn_Close ws_close c))"
  by (auto simp: webSocketConn_Close_def Let_def split: option.splits)

lemma close_times_again: "wc_closeOnce c \<Longrightarrow> close_times ws_close k c = c"
  by (induction k) (simp_all add: close_again)

theorem close_is_idempotent:
  fixes ws_close w k
  defines "c \<equiv> close_times ws_close (Suc k) (newWebSocketConn (Some w))"
  shows "wc_closes c = 1 \<and> webSocketConn_Close ws_close c = (c, None) \<and>
    webSocketConn_Write write_message c p = (c, 0, Some ErrClosedPipe) \<and>
    bridge_Write write_message c p = (c, 0, Some NetErrClosed) \<and>
    webSocketConn_Read nr rr c n = Some (c, [], Some IO_EOF) \<and>
    bridge_Read nr rr c n = Some (c, [], Some NetErrClosed)"
proof -
  have "c = fst (webSocketConn_Close ws_close (newWebSocketConn (Some w)))"
    by (simp add: c_def close_times_again close_again)
  then have "wc_isClosed c" "wc_closes c = 1" "wc_closeOnce c"
    by (simp_all add: webSocketConn_Close_def newWebSocketConn_def)
  then show ?thesis
    by (simp add: close_again webSocketConn_Write_def bridge_Write_def adapter_Write_def
        webSocketConn_Read_def bridge_Read_def adapter_Read_def)
qed

section \<open>Deadlines\<close>

text \<open>
  What the deadline methods do to the library: \<open>Gorilla_Write t\<close> stores into gorilla's plain field,
  \<open>Net_Write t\<close> and \<open>Gorilla_Read t\<close> act on the network connection. \<open>set_read\<close> is the result of
  gorilla's read setter, \<open>has_net\<close> whether \<open>NetConn\<close> is not nil, \<open>write_busy\<close> whether the write
  lock is held. The last component is the error.
\<close>

datatype dl_effect = Gorilla_Read int | Gorilla_Write int | Net_Write int

definition SetReadDeadline ::
    "'e option \<Rightarrow> 'w webSocketConn \<Rightarrow> int \<Rightarrow> dl_effect list \<times> 'e conn_error option" where
  "SetReadDeadline set_read c t =
     (case wc_ws c of
        None \<Rightarrow> ([], Some NetErrClosed)
      | Some _ \<Rightarrow> ([Gorilla_Read t], map_option WsError set_read))"

definition SetWriteDeadline ::
    "bool \<Rightarrow> bool \<Rightarrow> 'w webSocketConn \<Rightarrow> int \<Rightarrow> dl_effect list \<times> 'e conn_error option" where
  "SetWriteDeadline write_busy has_net c t =
     (case wc_ws c of
        None \<Rightarrow> ([], Some NetErrClosed)
      | Some _ \<Rightarrow>
          (if \<not> write_busy then ([Gorilla_Write t], None)
           else if has_net then ([Net_Write t], None)
           else ([], Some NetErrClosed)))"

definition SetDeadline ::
    "'e option \<Rightarrow> bool \<Rightarrow> bool \<Rightarrow> 'w webSocketConn \<Rightarrow> int \<Rightarrow> dl_effect list \<times> 'e conn_error option" where
  "SetDeadline set_read write_busy has_net c t =
     (case SetReadDeadline set_read c t of
        (es, Some err) \<Rightarrow> (es, Some err)
      | (es, None) \<Rightarrow>
          (case SetWriteDeadline write_busy has_net c t of (es', err) \<Rightarrow> (es @ es', err)))"

definition bridge_SetReadDeadline ::
    "'e option \<Rightarrow> 'w webSocketConn \<Rightarrow> int \<Rightarrow> 'w webSocketConn \<times> dl_effect list \<times> 'e conn_error option"
where
  "bridge_SetReadDeadline set_read c t =
     (let c = c\<lparr>wc_readDeadline := t\<rparr>
      in case wc_ws c of
           None \<Rightarrow> (c, [], Some NetErrClosed)
         | Some _ \<Rightarrow> (c, [Gorilla_Read t], map_option WsError set_read))"

definition bridge_SetWriteDeadline ::
    "'w webSocketConn \<Rightarrow> int \<Rightarrow> 'w webSocketConn \<times> dl_effect list \<times> 'e conn_error option" where
  "bridge_SetWriteDeadline c t =
     (let c = c\<lparr>wc_writeDeadline := t\<rparr>
      in case wc_ws c of
           None \<Rightarrow> (c, [], Some NetErrClosed)
         | Some _ \<Rightarrow> (c, [Gorilla_Write t], None))"

definition bridge_SetDeadline ::
    "'e option \<Rightarrow> 'w webSocketConn \<Rightarrow> int \<Rightarrow> 'w webSocketConn \<times> dl_effect list \<times> 'e conn_error option"
where
  "bridge_SetDeadline set_read c t =
     (let c = c\<lparr>wc_readDeadline := t, wc_writeDeadline := t\<rparr>
      in case wc_ws c of
           None \<Rightarrow> (c, [], Some NetErrClosed)
         | Some _ \<Rightarrow>
             (case set_read of
                Some e \<Rightarrow> (c, [Gorilla_Read t], Some (WsError e))
              | None \<Rightarrow> (c, [Gorilla_Read t, Gorilla_Write t], None)))"

section \<open>The write path under concurrency\<close>

text \<open>
  Gorilla permits one goroutine at a time in its write path, \<open>WriteMessage\<close> and \<open>SetWriteDeadline\<close>
  both included. The steps of the goroutines that call \<open>Write\<close> and \<open>SetWriteDeadline\<close> of an adapter:
  take the mutex, enter the library, leave it, release the mutex. The tunnel's setter tries the
  write lock and goes to the network connection when it is held; the proxy's setter takes a mutex of
  its own.
\<close>

datatype call = Write_Call | Set_Call
datatype mutex = WriteMu | DeadlineMu
datatype phase = Idle | Holding call | In_Gorilla call | Leaving call | In_Net
datatype action = Acquire call | Divert | Enter | Leave | Release | Net_Done

record write_path =
  wp_owner :: "mutex \<Rightarrow> nat option"
  wp_phase :: "nat \<Rightarrow> phase"

definition quiet :: write_path where
  "quiet = \<lparr>wp_owner = (\<lambda>_. None), wp_phase = (\<lambda>_. Idle)\<rparr>"

definition path_step ::
    "(call \<Rightarrow> mutex) \<Rightarrow> (call \<Rightarrow> bool) \<Rightarrow> nat \<Rightarrow> action \<Rightarrow> write_path \<Rightarrow> write_path option" where
  "path_step lock_of tries i a s =
     (let go = (\<lambda>ph. s\<lparr>wp_phase := (wp_phase s)(i := ph)\<rparr>) in
      case (a, wp_phase s i) of
        (Acquire k, Idle) \<Rightarrow>
          if wp_owner s (lock_of k) = None
          then Some ((go (Holding k))\<lparr>wp_owner := (wp_owner s)(lock_of k := Some i)\<rparr>) else None
      | (Divert, Idle) \<Rightarrow>
          if tries Set_Call \<and> wp_owner s (lock_of Set_Call) \<noteq> None then Some (go In_Net) else None
      | (Enter, Holding k) \<Rightarrow> Some (go (In_Gorilla k))
      | (Leave, In_Gorilla k) \<Rightarrow> Some (go (Leaving k))
      | (Release, Leaving k) \<Rightarrow> Some ((go Idle)\<lparr>wp_owner := (wp_owner s)(lock_of k := None)\<rparr>)
      | (Net_Done, In_Net) \<Rightarrow> Some (go Idle)
      | _ \<Rightarrow> None)"

definition tunnel_path_step :: "nat \<Rightarrow> action \<Rightarrow> write_path \<Rightarrow> write_path option" where
  "tunnel_path_step = path_step (\<lambda>_. WriteMu) (\<lambda>k. k = Set_Call)"

definition bridge_path_step :: "nat \<Rightarrow> action \<Rightarrow> write_path \<Rightarrow> write_path option" where
  "bridge_path_step =
     path_step (\<lambda>k. case k of Write_Call \<Rightarrow> WriteMu | Set_Call \<Rightarrow> DeadlineMu) (\<lambda>_. False)"

fun path_run ::
    "(nat \<Rightarrow> action \<Rightarrow> write_path \<Rightarrow> write_path option) \<Rightarrow> (nat \<times> action) list \<Rightarrow> write_path \<Rightarrow>
     write_path option" where
  "path_run step [] s = Some s"
| "path_run step ((i, a) # as) s = (case step i a s of None \<Rightarrow> None | Some s' \<Rightarrow> path_run step as s')"

definition busy :: "phase \<Rightarrow> bool" where
  "busy ph \<longleftrightarrow> (case ph of Idle \<Rightarrow> False | In_Net \<Rightarrow> False | _ \<Rightarrow> True)"

lemma busy_simps [simp]:
  "\<not> busy Idle" "\<not> busy In_Net" "busy (Holding k)" "busy (In_Gorilla k)" "busy (Leaving k)"
  by (simp_all add: busy_def)

text \<open>With one lock for both calls, a goroutine past the lock is its owner.\<close>

definition owned :: "write_path \<Rightarrow> bool" where
  "owned s \<longleftrightarrow> (\<forall>i. busy (wp_phase s i) \<longleftrightarrow> wp_owner s WriteMu = Some i)"

lemma owned_step:
  assumes "owned s" and "tunnel_path_step i a s = Some s'"
  shows "owned s'"
proof -
  have "busy (wp_phase s' j) \<longleftrightarrow> wp_owner s' WriteMu = Some j" for j
  proof -
    from assms(1) have "busy (wp_phase s i) \<longleftrightarrow> wp_owner s WriteMu = Some i"
      and "busy (wp_phase s j) \<longleftrightarrow> wp_owner s WriteMu = Some j" by (simp_all add: owned_def)
    with assms(2) show ?thesis unfolding tunnel_path_step_def path_step_def Let_def
      by (cases a; cases "wp_phase s i"; cases "j = i") (auto split: if_splits)
  qed
  then show ?thesis by (simp add: owned_def)
qed

lemma owned_run:
  "path_run tunnel_path_step as s = Some s' \<Longrightarrow> owned s \<Longrightarrow> owned s'"
  by (induction tunnel_path_step as s rule: path_run.induct)
    (auto split: option.splits dest: owned_step)



text \<open>
  The proxy's adapter has the race the tunnel's was changed to avoid: its setter shares no lock with
  its writer, so both can be in gorilla's write path at once.
\<close>

lemma bridge_write_path_race:
  "map_option (\<lambda>s. (wp_phase s 1, wp_phase s 2))
     (path_run bridge_path_step
       [(1, Acquire Write_Call), (1, Enter), (2, Acquire Set_Call), (2, Enter)] quiet) =
   Some (In_Gorilla Write_Call, In_Gorilla Set_Call)"
  by (simp add: bridge_path_step_def path_step_def quiet_def Let_def)

end
