(* ===== verification/Native_Listener.thy ===== *)
theory Native_Listener
  imports Ws_Conn "HOL-Library.Multiset"
begin

text \<open>
  The listener that feeds upgraded sessions to \<open>grpc.Server.Serve\<close>
  (\<open>pkg/grpctunnel/server_native.go\<close>): an unbuffered channel between the upgrade handlers, which
  deliver, and the accept loop of the server, and a connection that reports its own close.
\<close>

section \<open>The listener\<close>

text \<open>Closing a closed channel panics: \<open>None\<close>.\<close>

definition close_channel :: "bool \<Rightarrow> bool option" where
  "close_channel closed = (if closed then None else Some True)"

text \<open>
  \<open>bl_closed\<close> is whether the channel \<open>closed\<close> is closed, \<open>bl_once\<close> whether its \<open>Once\<close> has run.
\<close>

record bridgeConnListener =
  bl_closed :: bool
  bl_once :: bool

definition newBridgeConnListener :: bridgeConnListener where
  "newBridgeConnListener = \<lparr>bl_closed = False, bl_once = False\<rparr>"

text \<open>The address it reports, to gRPC and to whoever logs it.\<close>

definition bridgeListenerAddr_Network :: string where
  "bridgeListenerAddr_Network = ''grpctunnel''"

definition bridgeListenerAddr_String :: string where
  "bridgeListenerAddr_String = ''grpctunnel-bridge''"

definition listener_Addr :: "bridgeConnListener \<Rightarrow> string \<times> string" where
  "listener_Addr l = (bridgeListenerAddr_Network, bridgeListenerAddr_String)"

definition listener_Close :: "bridgeConnListener \<Rightarrow> bridgeConnListener option" where
  "listener_Close l =
     (if bl_once l then Some l
      else map_option (\<lambda>b. l\<lparr>bl_closed := b, bl_once := True\<rparr>) (close_channel (bl_closed l)))"

text \<open>
  The two \<open>select\<close>s, as the set of their possible results. \<open>offered\<close> is the connection of a handler
  that is in \<open>deliver\<close> at the same time, \<open>acceptor\<close> whether the server is in \<open>Accept\<close>; an empty set
  is a select that waits.
\<close>

definition Accept :: "bridgeConnListener \<Rightarrow> 'c option \<Rightarrow> (unit conn_error + 'c) set" where
  "Accept l offered =
     (case offered of None \<Rightarrow> {} | Some conn \<Rightarrow> {Inr conn}) \<union> (if bl_closed l then {Inl NetErrClosed} else {})"

definition deliver :: "bridgeConnListener \<Rightarrow> bool \<Rightarrow> bool set" where
  "deliver l acceptor = (if acceptor then {True} else {}) \<union> (if bl_closed l then {False} else {})"

section \<open>Handlers and the accept loop\<close>

text \<open>
  The rendezvous of many handlers with one accept loop. A handler \<open>i\<close> offers its connection; a
  handoff completes the send of the handler and the receive of the loop together.
\<close>

record 'c rendezvous =
  rv_listener :: bridgeConnListener
  rv_offers :: "(nat \<times> 'c) list"
  rv_accepted :: "'c list"
  rv_results :: "(nat \<times> 'c \<times> bool) list"
  rv_stopped :: bool

datatype 'c rv_event =
    Offer nat 'c
  | Handoff "nat \<times> 'c"
  | Refuse "nat \<times> 'c"
  | Stop_Listener
  | Accept_Fails

definition rv_start :: "'c rendezvous" where
  "rv_start = \<lparr>rv_listener = newBridgeConnListener, rv_offers = [], rv_accepted = [], rv_results = [],
              rv_stopped = False\<rparr>"

definition rv_step :: "'c rv_event \<Rightarrow> 'c rendezvous \<Rightarrow> 'c rendezvous option" where
  "rv_step ev s =
     (case ev of
        Offer i c \<Rightarrow> Some (s\<lparr>rv_offers := rv_offers s @ [(i, c)]\<rparr>)
      | Handoff o1 \<Rightarrow>
          if o1 \<in> set (rv_offers s) \<and> \<not> rv_stopped s \<and>
             True \<in> deliver (rv_listener s) True \<and> Inr (snd o1) \<in> Accept (rv_listener s) (Some (snd o1))
          then Some (s\<lparr>rv_offers := remove1 o1 (rv_offers s),
                       rv_accepted := rv_accepted s @ [snd o1],
                       rv_results := rv_results s @ [(fst o1, snd o1, True)]\<rparr>)
          else None
      | Refuse o1 \<Rightarrow>
          if o1 \<in> set (rv_offers s) \<and> False \<in> deliver (rv_listener s) False
          then Some (s\<lparr>rv_offers := remove1 o1 (rv_offers s),
                       rv_results := rv_results s @ [(fst o1, snd o1, False)]\<rparr>)
          else None
      | Stop_Listener \<Rightarrow> map_option (\<lambda>l. s\<lparr>rv_listener := l\<rparr>) (listener_Close (rv_listener s))
      | Accept_Fails \<Rightarrow>
          if Inl NetErrClosed \<in> Accept (rv_listener s) (None :: 'c option)
          then Some (s\<lparr>rv_stopped := True\<rparr>) else None)"

fun rv_run :: "'c rv_event list \<Rightarrow> 'c rendezvous \<Rightarrow> 'c rendezvous option" where
  "rv_run [] s = Some s"
| "rv_run (ev # evs) s = (case rv_step ev s of None \<Rightarrow> None | Some s' \<Rightarrow> rv_run evs s')"

definition offered_by :: "'c rv_event list \<Rightarrow> (nat \<times> 'c) list" where
  "offered_by evs = concat (map (\<lambda>ev. case ev of Offer i c \<Rightarrow> [(i, c)] | _ \<Rightarrow> []) evs)"

definition rv_ok :: "(nat \<times> 'c) list \<Rightarrow> 'c rendezvous \<Rightarrow> bool" where
  "rv_ok offered s \<longleftrightarrow>
     rv_accepted s = map (\<lambda>(i, c, b). c) (filter (\<lambda>(i, c, b). b) (rv_results s)) \<and>
     mset offered = mset (rv_offers s) + mset (map (\<lambda>(i, c, b). (i, c)) (rv_results s)) \<and>
     bl_closed (rv_listener s) = bl_once (rv_listener s) \<and>
     (rv_stopped s \<or> (\<exists>i c. (i, c, False) \<in> set (rv_results s)) \<longrightarrow> bl_closed (rv_listener s))"

lemma rv_step_ok:
  assumes "rv_ok offered s" and "rv_step ev s = Some s'"
  shows "rv_ok (offered @ offered_by [ev]) s'"
proof (cases ev)
  case (Handoff o1)
  with assms show ?thesis
    by (cases o1) (auto simp: rv_ok_def rv_step_def offered_by_def split: if_splits)
next
  case (Refuse o1)
  with assms show ?thesis
    by (cases o1) (auto simp: rv_ok_def rv_step_def offered_by_def deliver_def split: if_splits)
next
  case Stop_Listener
  with assms show ?thesis
    by (auto simp: rv_ok_def rv_step_def offered_by_def listener_Close_def close_channel_def
        split: if_splits)
qed (use assms in \<open>auto simp: rv_ok_def rv_step_def offered_by_def Accept_def split: if_splits\<close>)

lemma offered_by_Cons: "offered_by (ev # evs) = offered_by [ev] @ offered_by evs"
  by (simp add: offered_by_def)

lemma rv_run_ok: "rv_ok offered s \<Longrightarrow> rv_run evs s = Some s' \<Longrightarrow> rv_ok (offered @ offered_by evs) s'"
proof (induction evs arbitrary: offered s)
  case Nil
  then show ?case by (simp add: offered_by_def)
next
  case (Cons ev evs)
  then obtain s1 where "rv_step ev s = Some s1" "rv_run evs s1 = Some s'"
    by (auto split: option.splits)
  with Cons.IH [OF rv_step_ok [OF Cons.prems(1)]] show ?case
    by (subst offered_by_Cons) simp
qed

text \<open>
  C25. No session is lost or served twice: in every run of handlers, accept loop and stop, the connections
  the server accepted are those whose handler was told so, in that order; every offered connection
  either still waits or has got exactly one answer; a refusal happens only after the listener was
  closed, and once it is closed no handler has to wait: each can be refused at once.
\<close>

theorem sessions_delivered_once:
  assumes "rv_run evs rv_start = Some s"
  shows "rv_accepted s = map (\<lambda>(i, c, b). c) (filter (\<lambda>(i, c, b). b) (rv_results s)) \<and>
    mset (offered_by evs) = mset (rv_offers s) + mset (map (\<lambda>(i, c, b). (i, c)) (rv_results s)) \<and>
    (if (i, c, False) \<in> set (rv_results s) then bl_closed (rv_listener s) else True) \<and>
    (if bl_closed (rv_listener s) \<and> o1 \<in> set (rv_offers s)
     then rv_step (Refuse o1) s \<noteq> None \<and> Accept (rv_listener s) (None :: 'c option) = {Inl NetErrClosed}
     else True)"
proof -
  have "rv_ok [] rv_start" by (simp add: rv_ok_def rv_start_def newBridgeConnListener_def)
  from rv_run_ok [OF this assms] show ?thesis
    by (auto simp: rv_ok_def rv_step_def deliver_def Accept_def)
qed

definition stop_run :: "string rv_event list" where
  "stop_run = [Offer 1 ''a'', Offer 2 ''b'', Handoff (2, ''b''), Stop_Listener, Stop_Listener,
     Refuse (1, ''a'')]"

definition stop_end :: "string rendezvous" where
  "stop_end = \<lparr>rv_listener = \<lparr>bl_closed = True, bl_once = True\<rparr>, rv_offers = [], rv_accepted = [''b''],
     rv_results = [(2, ''b'', True), (1, ''a'', False)], rv_stopped = False\<rparr>"

lemma stop_run_end: "rv_run stop_run rv_start = Some stop_end"
  by (simp add: stop_run_def stop_end_def rv_step_def rv_start_def newBridgeConnListener_def
      deliver_def Accept_def listener_Close_def close_channel_def)

theorem sessions_delivered_once_witness:
  "rv_accepted stop_end = map (\<lambda>(i, c, b). c) (filter (\<lambda>(i, c, b). b) (rv_results stop_end)) \<and>
   mset (offered_by stop_run) = mset [(2, ''b''), (1, ''a'')]"
  using sessions_delivered_once [OF stop_run_end] by (simp add: stop_end_def)

section \<open>The connection that reports its close\<close>

record 'w notifyCloseConn =
  nc_Conn :: "'w webSocketConn"
  nc_done :: bool
  nc_once :: bool

definition newNotifyCloseConn :: "'w webSocketConn \<Rightarrow> 'w notifyCloseConn" where
  "newNotifyCloseConn conn = \<lparr>nc_Conn = conn, nc_done = False, nc_once = False\<rparr>"

definition notify_Close ::
    "('w \<Rightarrow> 'e option) \<Rightarrow> 'w notifyCloseConn \<Rightarrow> ('w notifyCloseConn \<times> 'e option) option" where
  "notify_Close ws_close c =
     (case webSocketConn_Close ws_close (nc_Conn c) of
        (conn, err) \<Rightarrow>
          (let c = c\<lparr>nc_Conn := conn\<rparr>
           in if nc_once c then Some (c, err)
              else map_option (\<lambda>b. (c\<lparr>nc_done := b, nc_once := True\<rparr>, err)) (close_channel (nc_done c))))"

fun notify_closes :: "('w \<Rightarrow> 'e option) \<Rightarrow> nat \<Rightarrow> 'w notifyCloseConn \<Rightarrow> 'w notifyCloseConn option" where
  "notify_closes ws_close 0 c = Some c"
| "notify_closes ws_close (Suc k) c =
     (case notify_Close ws_close c of None \<Rightarrow> None | Some (c', err) \<Rightarrow> notify_closes ws_close k c')"

lemma notify_again:
  assumes "wc_closeOnce (nc_Conn c)" and "nc_once c"
  shows "notify_closes ws_close k c = Some c"
  using assms by (induction k) (simp_all add: notify_Close_def close_again)

text \<open>
  Closing a served session any number of times, from the gRPC transport, the lifetime timer and the
  handler, never panics, closes the websocket once, and releases the handler that waits for it.
\<close>

theorem session_close_releases_handler:
  "(case notify_closes ws_close (Suc k) (newNotifyCloseConn (newWebSocketConn (Some w))) of
      None \<Rightarrow> False
    | Some c \<Rightarrow> nc_done c \<and> wc_isClosed (nc_Conn c) \<and> wc_closes (nc_Conn c) = 1)"
  by (simp add: notify_Close_def newNotifyCloseConn_def newWebSocketConn_def webSocketConn_Close_def
      close_channel_def notify_again)

end
