(* ===== verification/Wasm_Conn.thy ===== *)
theory Wasm_Conn
  imports Stream_Interface
begin

text \<open>
  The browser connection of \<open>pkg/wasm/dialer/websocket_conn.go\<close>: a bounded queue of frames filled by
  JavaScript callbacks and drained by \<open>Read\<close>. Callbacks and reads are atomic: a WebAssembly
  program has one thread, and the code takes its locks around every access. Popped slots are set to
  nil by the code to free memory; here they hold the empty string.
\<close>

section \<open>The connection\<close>

datatype wasm_error =
    UnsupportedDataType string
  | BacklogExceeded int int

type_synonym wasm_outcome = "wasm_error read_outcome"

definition limitConnectionQueuedMessages :: nat where "limitConnectionQueuedMessages = 256"
definition limitConnectionQueuedBytes :: int where "limitConnectionQueuedBytes = 16 * 2 ^ 20"

text \<open>
  \<open>bc_token\<close> is the one-element signal channel, \<open>bc_errors\<close> the error channel of capacity four,
  \<open>bc_attached\<close> whether the JavaScript callbacks are still installed, \<open>bc_socket_closes\<close> how often
  the socket's \<open>close\<close> was called. \<open>bc_queue_cap\<close> is the capacity of the queue's array, which
  decides when the queue is compacted.
\<close>

record browserWebSocketConnection =
  bc_queuedMessages :: "bytes list"
  bc_queue_cap :: nat
  bc_queuedBytesSize :: int
  bc_shiftQueueStart :: nat
  bc_readMessageBuffer :: bytes
  bc_token :: bool
  bc_errors :: "wasm_error conn_error list"
  bc_errors_closed :: bool
  bc_isClosed :: bool
  bc_attached :: bool
  bc_socket_closes :: nat

definition NewBrowserConn :: browserWebSocketConnection where
  "NewBrowserConn =
     \<lparr>bc_queuedMessages = [], bc_queue_cap = 8, bc_queuedBytesSize = 0, bc_shiftQueueStart = 0,
      bc_readMessageBuffer = [], bc_token = False, bc_errors = [], bc_errors_closed = False,
      bc_isClosed = False, bc_attached = True, bc_socket_closes = 0\<rparr>"

definition clearQueuedMessagesHeadLocked ::
    "browserWebSocketConnection \<Rightarrow> browserWebSocketConnection" where
  "clearQueuedMessagesHeadLocked c =
     (if bc_shiftQueueStart c = 0 then c
      else if bc_shiftQueueStart c < length (bc_queuedMessages c) div 2 \<and>
              length (bc_queuedMessages c) < bc_queue_cap c then c
      else c\<lparr>bc_queuedMessages := drop (bc_shiftQueueStart c) (bc_queuedMessages c),
             bc_shiftQueueStart := 0\<rparr>)"

text \<open>
  Go's \<open>append\<close>: the array grows when it is full; by how much is the runtime's choice, the
  parameter \<open>grow\<close>.
\<close>

definition append_message ::
    "(nat \<Rightarrow> nat) \<Rightarrow> bytes \<Rightarrow> browserWebSocketConnection \<Rightarrow> browserWebSocketConnection" where
  "append_message grow m c =
     c\<lparr>bc_queue_cap := (if length (bc_queuedMessages c) < bc_queue_cap c then bc_queue_cap c
                       else grow (bc_queue_cap c)),
       bc_queuedMessages := bc_queuedMessages c @ [m],
       bc_queuedBytesSize := bc_queuedBytesSize c + int (length m)\<rparr>"

definition storeConnectionError ::
    "wasm_error conn_error \<Rightarrow> browserWebSocketConnection \<Rightarrow> browserWebSocketConnection" where
  "storeConnectionError err c =
     (if bc_isClosed c then c
      else if length (bc_errors c) < 4 then c\<lparr>bc_errors := bc_errors c @ [err]\<rparr> else c)"

text \<open>
  \<open>closeChannels\<close> runs once; \<open>reading\<close> says whether a \<open>Read\<close> holds the read lock, in which case
  its buffer is left alone.
\<close>

definition closeChannels ::
    "bool \<Rightarrow> browserWebSocketConnection \<Rightarrow> browserWebSocketConnection" where
  "closeChannels reading c =
     (if bc_isClosed c then c
      else c\<lparr>bc_isClosed := True, bc_attached := False, bc_queuedMessages := [], bc_queue_cap := 0,
             bc_shiftQueueStart := 0, bc_queuedBytesSize := 0,
             bc_readMessageBuffer := (if reading then bc_readMessageBuffer c else []),
             bc_errors_closed := True\<rparr>)"

definition socket_close :: "browserWebSocketConnection \<Rightarrow> browserWebSocketConnection" where
  "socket_close c = c\<lparr>bc_socket_closes := Suc (bc_socket_closes c)\<rparr>"

definition handleConnectionQueueOverflow ::
    "bool \<Rightarrow> nat \<Rightarrow> int \<Rightarrow> nat \<Rightarrow> browserWebSocketConnection \<Rightarrow> browserWebSocketConnection" where
  "handleConnectionQueueOverflow reading queueDepth queueBytes incoming c =
     socket_close (closeChannels reading
       (storeConnectionError
          (WsError (BacklogExceeded (int queueDepth + 1) (queueBytes + int incoming))) c))"

definition storeIncomingMessage ::
    "(nat \<Rightarrow> nat) \<Rightarrow> bool \<Rightarrow> bytes \<Rightarrow> browserWebSocketConnection \<Rightarrow> browserWebSocketConnection" where
  "storeIncomingMessage grow reading m c =
     (if bc_isClosed c then c
      else
        (let queueDepth = length (bc_queuedMessages c) - bc_shiftQueueStart c;
             queueBytes = bc_queuedBytesSize c;
             available = limitConnectionQueuedBytes - int (length m)
         in if queueDepth \<ge> limitConnectionQueuedMessages \<or> available < 0 \<or> queueBytes > available
            then handleConnectionQueueOverflow reading queueDepth queueBytes (length m) c
            else (append_message grow m (clearQueuedMessagesHeadLocked c))\<lparr>bc_token := True\<rparr>))"

text \<open>The three callbacks: \<open>None\<close> stands for event data that is not a JavaScript object.\<close>

definition on_message ::
    "(nat \<Rightarrow> nat) \<Rightarrow> bool \<Rightarrow> string + bytes \<Rightarrow> browserWebSocketConnection \<Rightarrow> browserWebSocketConnection"
where
  "on_message grow reading d c =
     (case d of
        Inl js_type \<Rightarrow> storeConnectionError (WsError (UnsupportedDataType js_type)) c
      | Inr m \<Rightarrow> storeIncomingMessage grow reading m c)"

definition on_error :: "browserWebSocketConnection \<Rightarrow> browserWebSocketConnection" where
  "on_error c = storeConnectionError NetErrClosed c"

definition on_close :: "bool \<Rightarrow> browserWebSocketConnection \<Rightarrow> browserWebSocketConnection" where
  "on_close reading c = closeChannels reading c"

definition shiftQueuedMessage ::
    "browserWebSocketConnection \<Rightarrow> browserWebSocketConnection \<times> bytes option" where
  "shiftQueuedMessage c =
     (if bc_shiftQueueStart c \<ge> length (bc_queuedMessages c) then (c, None)
      else
        (let message = bc_queuedMessages c ! bc_shiftQueueStart c;
             left = bc_queuedBytesSize c - int (length message);
             c = c\<lparr>bc_queuedMessages := (bc_queuedMessages c)[bc_shiftQueueStart c := []],
                   bc_queuedBytesSize := (if left < 0 then 0 else left),
                   bc_shiftQueueStart := Suc (bc_shiftQueueStart c)\<rparr>
         in (if bc_shiftQueueStart c \<ge> length (bc_queuedMessages c)
             then c\<lparr>bc_queuedMessages := [], bc_shiftQueueStart := 0\<rparr>
             else clearQueuedMessagesHeadLocked c, Some message)))"

text \<open>
  The loop of \<open>Read\<close> and its \<open>select\<close>, where a waiting reader is. When both channels are ready,
  \<open>select\<close> picks one: \<open>errors_first\<close> is its choice. When neither is, it waits, which is the outcome
  \<open>Blocked\<close>; the reader goes on from \<open>read_select\<close>, not from the head of the loop.
\<close>

function read_loop ::
    "bool \<Rightarrow> browserWebSocketConnection \<Rightarrow> nat \<Rightarrow> browserWebSocketConnection \<times> wasm_outcome"
  and read_select ::
    "bool \<Rightarrow> browserWebSocketConnection \<Rightarrow> nat \<Rightarrow> browserWebSocketConnection \<times> wasm_outcome" where
  "read_loop errors_first c n =
     (case shiftQueuedMessage c of
        (c', Some m) \<Rightarrow>
          (let got = take n m in
           (if length got < length m then c'\<lparr>bc_readMessageBuffer := drop n m\<rparr> else c', Got got))
      | (c', None) \<Rightarrow> read_select errors_first c n)"
| "read_select errors_first c n =
     (if (bc_errors c \<noteq> [] \<or> bc_errors_closed c) \<and> (errors_first \<or> \<not> bc_token c) then
        (case bc_errors c of
           [] \<Rightarrow> (c, Failed NetErrClosed)
         | e # es \<Rightarrow> (c\<lparr>bc_errors := es\<rparr>, Failed e))
      else if bc_token c then read_loop errors_first (c\<lparr>bc_token := False\<rparr>) n
      else (c, Blocked))"
  by pat_completeness auto
termination
  by (relation "measure (case_sum (\<lambda>(e, c, n). if bc_token c then 3 else 1)
                                  (\<lambda>(e, c, n). if bc_token c then 2 else 0))") auto

declare read_loop.simps [simp del] read_select.simps [simp del]

definition browser_Read ::
    "bool \<Rightarrow> browserWebSocketConnection \<Rightarrow> nat \<Rightarrow> browserWebSocketConnection \<times> wasm_outcome" where
  "browser_Read errors_first c n =
     (if bc_isClosed c then (c, Failed NetErrClosed)
      else if bc_readMessageBuffer c \<noteq> [] then
        (c\<lparr>bc_readMessageBuffer := drop n (bc_readMessageBuffer c)\<rparr>,
         Got (take n (bc_readMessageBuffer c)))
      else read_loop errors_first c n)"

text \<open>
  \<open>Write\<close> sends one message; \<open>send\<close> is the socket, which panics (\<open>None\<close>) when its state is
  invalid, and the deferred recover turns that into an error.
\<close>

datatype write_outcome = Wrote nat | WriteClosed | WriteFailed

definition browser_Write ::
    "('w \<Rightarrow> bytes \<Rightarrow> 'w option) \<Rightarrow> browserWebSocketConnection \<Rightarrow> 'w \<Rightarrow> bytes \<Rightarrow> 'w \<times> write_outcome" where
  "browser_Write send c w src =
     (if bc_isClosed c then (w, WriteClosed)
      else case send w src of
        None \<Rightarrow> (w, WriteFailed)
      | Some w' \<Rightarrow> (w', Wrote (length src)))"

definition browser_Close :: "bool \<Rightarrow> browserWebSocketConnection \<Rightarrow> browserWebSocketConnection" where
  "browser_Close reading c = socket_close (closeChannels reading c)"

text \<open>The rest of \<open>net.Conn\<close>: placeholder addresses, and deadlines that do nothing and never fail.\<close>

record browserWebSocketAddr =
  ba_networkType :: string
  ba_addressString :: string

definition browser_LocalAddr :: "browserWebSocketConnection \<Rightarrow> browserWebSocketAddr" where
  "browser_LocalAddr c = \<lparr>ba_networkType = ''websocket'', ba_addressString = ''local''\<rparr>"

definition browser_RemoteAddr :: "browserWebSocketConnection \<Rightarrow> browserWebSocketAddr" where
  "browser_RemoteAddr c = \<lparr>ba_networkType = ''websocket'', ba_addressString = ''remote''\<rparr>"

definition browser_SetDeadline ::
    "instant \<Rightarrow> browserWebSocketConnection \<Rightarrow> browserWebSocketConnection \<times> string option" where
  "browser_SetDeadline deadline c = (c, None)"

definition browser_SetReadDeadline ::
    "instant \<Rightarrow> browserWebSocketConnection \<Rightarrow> browserWebSocketConnection \<times> string option" where
  "browser_SetReadDeadline deadline c = (c, None)"

definition browser_SetWriteDeadline ::
    "instant \<Rightarrow> browserWebSocketConnection \<Rightarrow> browserWebSocketConnection \<times> string option" where
  "browser_SetWriteDeadline deadline c = (c, None)"

section \<open>The queue\<close>

text \<open>The frames not yet read, and the bytes a reader of an open connection will get next.\<close>

definition pending :: "browserWebSocketConnection \<Rightarrow> bytes list" where
  "pending c = drop (bc_shiftQueueStart c) (bc_queuedMessages c)"

definition browser_unread :: "browserWebSocketConnection \<Rightarrow> bytes" where
  "browser_unread c = (if bc_isClosed c then [] else bc_readMessageBuffer c @ concat (pending c))"

definition total_bytes :: "bytes list \<Rightarrow> int" where
  "total_bytes ms = sum_list (map (\<lambda>m. int (length m)) ms)"

lemma total_bytes_simps [simp]:
  "total_bytes [] = 0" "total_bytes (m # ms) = int (length m) + total_bytes ms"
  "total_bytes (ms @ ms') = total_bytes ms + total_bytes ms'"
  by (simp_all add: total_bytes_def)

lemma total_bytes_nonneg [simp]: "0 \<le> total_bytes ms" "\<not> total_bytes ms < 0"
  by (induction ms) auto

text \<open>
  The invariant: the byte count is that of the pending frames, both limits hold, popped slots hold
  nothing, and a closed connection has dropped its frames and detached its callbacks.
\<close>

definition browser_ok :: "browserWebSocketConnection \<Rightarrow> bool" where
  "browser_ok c \<longleftrightarrow>
     bc_shiftQueueStart c \<le> length (bc_queuedMessages c) \<and>
     bc_queuedBytesSize c = total_bytes (pending c) \<and>
     length (pending c) \<le> limitConnectionQueuedMessages \<and>
     bc_queuedBytesSize c \<le> limitConnectionQueuedBytes \<and>
     list_all (\<lambda>m. m = []) (take (bc_shiftQueueStart c) (bc_queuedMessages c)) \<and>
     length (bc_errors c) \<le> 4 \<and>
     bc_errors_closed c = bc_isClosed c \<and> bc_attached c = (\<not> bc_isClosed c) \<and>
     (bc_isClosed c \<longrightarrow> bc_queuedMessages c = [])"

lemma browser_ok_new: "browser_ok NewBrowserConn"
  by (simp add: browser_ok_def NewBrowserConn_def pending_def limitConnectionQueuedBytes_def)

lemma unrelated_fields [simp]:
  "browser_ok (c\<lparr>bc_token := b\<rparr>) = browser_ok c" "pending (c\<lparr>bc_token := b\<rparr>) = pending c"
  "browser_ok (c\<lparr>bc_readMessageBuffer := bs\<rparr>) = browser_ok c"
  "pending (c\<lparr>bc_readMessageBuffer := bs\<rparr>) = pending c"
  by (simp_all add: browser_ok_def pending_def)

text \<open>Compaction moves the pending frames to the front and changes nothing else.\<close>

lemma compact_pending [simp]: "pending (clearQueuedMessagesHeadLocked c) = pending c"
  by (simp add: clearQueuedMessagesHeadLocked_def pending_def)

lemma compact_frame [simp]:
  "bc_queuedBytesSize (clearQueuedMessagesHeadLocked c) = bc_queuedBytesSize c"
  "bc_readMessageBuffer (clearQueuedMessagesHeadLocked c) = bc_readMessageBuffer c"
  "bc_token (clearQueuedMessagesHeadLocked c) = bc_token c"
  "bc_errors (clearQueuedMessagesHeadLocked c) = bc_errors c"
  "bc_errors_closed (clearQueuedMessagesHeadLocked c) = bc_errors_closed c"
  "bc_isClosed (clearQueuedMessagesHeadLocked c) = bc_isClosed c"
  "bc_attached (clearQueuedMessagesHeadLocked c) = bc_attached c"
  "bc_socket_closes (clearQueuedMessagesHeadLocked c) = bc_socket_closes c"
  by (simp_all add: clearQueuedMessagesHeadLocked_def)

lemma compact_ok: "browser_ok c \<Longrightarrow> browser_ok (clearQueuedMessagesHeadLocked c)"
  by (auto simp: browser_ok_def clearQueuedMessagesHeadLocked_def pending_def)

lemma shift_None [simp]:
  "pending c = [] \<Longrightarrow> shiftQueuedMessage c = (c, None)"
  by (simp add: shiftQueuedMessage_def pending_def)

text \<open>Popping takes the head of the pending frames, whatever compaction does.\<close>

lemma shift_Some:
  assumes ok: "browser_ok c" and p: "pending c = m # ms"
  obtains c' where "shiftQueuedMessage c = (c', Some m)" and "pending c' = ms" and "browser_ok c'"
    and "bc_readMessageBuffer c' = bc_readMessageBuffer c" and "bc_token c' = bc_token c"
    and "bc_errors c' = bc_errors c" and "bc_isClosed c' = bc_isClosed c"
    and "bc_socket_closes c' = bc_socket_closes c"
proof -
  let ?q = "bc_queuedMessages c" and ?i = "bc_shiftQueueStart c"
  from p have i: "?i < length ?q" by (simp add: pending_def) (metis drop_eq_Nil list.distinct(1) not_le)
  with p Cons_nth_drop_Suc [of ?i ?q] have m: "?q ! ?i = m" and ms: "drop (Suc ?i) ?q = ms"
    by (simp_all add: pending_def)
  let ?c = "c\<lparr>bc_queuedMessages := ?q[?i := []], bc_queuedBytesSize := total_bytes ms,
              bc_shiftQueueStart := Suc ?i\<rparr>"
  have pend: "pending ?c = ms" using ms by (simp add: pending_def)
  have okc: "browser_ok ?c"
    using ok p i pend by (auto simp: browser_ok_def take_Suc_conv_app_nth)
  let ?r = "if Suc ?i \<ge> length ?q then ?c\<lparr>bc_queuedMessages := [], bc_shiftQueueStart := 0\<rparr>
            else clearQueuedMessagesHeadLocked ?c"
  have "shiftQueuedMessage c = (?r, Some m)"
    using i m ok p by (simp add: shiftQueuedMessage_def browser_ok_def Let_def)
  moreover have "pending ?r = ms"
  proof (cases "length ?q \<le> Suc ?i")
    case True
    with ms show ?thesis by (simp add: pending_def)
  next
    case False
    with pend compact_pending [of ?c] show ?thesis by simp
  qed
  moreover have "browser_ok ?r"
    using okc compact_ok [OF okc] ms by (auto simp: browser_ok_def pending_def)
  ultimately show thesis by (intro that [of ?r]) simp_all
qed

section \<open>Arrivals and errors\<close>

lemma append_message_pending [simp]:
  "bc_shiftQueueStart c \<le> length (bc_queuedMessages c) \<Longrightarrow>
   pending (append_message grow m c) = pending c @ [m]"
  by (simp add: append_message_def pending_def)

lemma append_message_frame [simp]:
  "bc_readMessageBuffer (append_message grow m c) = bc_readMessageBuffer c"
  "bc_isClosed (append_message grow m c) = bc_isClosed c"
  "bc_errors (append_message grow m c) = bc_errors c"
  "bc_socket_closes (append_message grow m c) = bc_socket_closes c"
  by (simp_all add: append_message_def)

lemma store_error_ok: "browser_ok c \<Longrightarrow> browser_ok (storeConnectionError e c)"
  by (auto simp: storeConnectionError_def browser_ok_def pending_def)

lemma store_error_unread [simp]:
  "browser_unread (storeConnectionError e c) = browser_unread c"
  "bc_isClosed (storeConnectionError e c) = bc_isClosed c"
  by (simp_all add: storeConnectionError_def browser_unread_def pending_def)

lemma close_closed [simp]: "bc_isClosed (closeChannels reading c)"
  by (simp add: closeChannels_def)

lemma close_ok: "browser_ok c \<Longrightarrow> browser_ok (closeChannels reading c)"
  by (auto simp: closeChannels_def browser_ok_def pending_def limitConnectionQueuedBytes_def)

lemma socket_close_simps [simp]:
  "browser_ok (socket_close c) = browser_ok c" "bc_isClosed (socket_close c) = bc_isClosed c"
  by (simp_all add: socket_close_def browser_ok_def pending_def)

lemma overflow_closed [simp]: "bc_isClosed (handleConnectionQueueOverflow reading d b n c)"
  by (simp add: handleConnectionQueueOverflow_def)

lemma overflow_ok: "browser_ok c \<Longrightarrow> browser_ok (handleConnectionQueueOverflow reading d b n c)"
  by (simp add: handleConnectionQueueOverflow_def close_ok store_error_ok)

text \<open>Whether a frame fits the two limits of an open connection.\<close>

definition fits :: "browserWebSocketConnection \<Rightarrow> bytes \<Rightarrow> bool" where
  "fits c m \<longleftrightarrow> length (pending c) < limitConnectionQueuedMessages \<and>
     total_bytes (pending c) + int (length m) \<le> limitConnectionQueuedBytes"

lemma store_by_fits:
  assumes ok: "browser_ok c" and op: "\<not> bc_isClosed c"
  shows "storeIncomingMessage grow reading m c =
    (if fits c m then (append_message grow m (clearQueuedMessagesHeadLocked c))\<lparr>bc_token := True\<rparr>
     else handleConnectionQueueOverflow reading (length (pending c)) (total_bytes (pending c)) (length m) c)"
proof -
  from ok have depth: "length (bc_queuedMessages c) - bc_shiftQueueStart c = length (pending c)"
    and sz: "bc_queuedBytesSize c = total_bytes (pending c)"
    by (simp_all add: browser_ok_def pending_def)
  have "total_bytes (pending c) + int (length m) \<le> limitConnectionQueuedBytes \<longleftrightarrow>
      \<not> (limitConnectionQueuedBytes - int (length m) < 0 \<or>
         total_bytes (pending c) > limitConnectionQueuedBytes - int (length m))"
    using total_bytes_nonneg(1) [of "pending c"] by linarith
  then have "fits c m \<longleftrightarrow> \<not> (limitConnectionQueuedMessages \<le> length (pending c) \<or>
      limitConnectionQueuedBytes - int (length m) < 0 \<or>
      limitConnectionQueuedBytes - int (length m) < total_bytes (pending c))"
    by (auto simp: fits_def)
  then show ?thesis
    using op depth sz by (simp add: storeIncomingMessage_def Let_def)
qed

lemma store_cases:
  assumes ok: "browser_ok c"
  obtains (closed) "bc_isClosed c" "storeIncomingMessage grow reading m c = c"
  | (overflow) "\<not> bc_isClosed c" "\<not> fits c m"
      "bc_isClosed (storeIncomingMessage grow reading m c)"
      "browser_ok (storeIncomingMessage grow reading m c)"
  | (stored) "\<not> bc_isClosed c" "fits c m"
      "\<not> bc_isClosed (storeIncomingMessage grow reading m c)"
      "pending (storeIncomingMessage grow reading m c) = pending c @ [m]"
      "bc_token (storeIncomingMessage grow reading m c)"
      "bc_readMessageBuffer (storeIncomingMessage grow reading m c) = bc_readMessageBuffer c"
      "browser_ok (storeIncomingMessage grow reading m c)"
proof (cases "bc_isClosed c")
  case True
  then show thesis by (intro closed) (simp_all add: storeIncomingMessage_def)
next
  case False
  let ?c = "clearQueuedMessagesHeadLocked c"
  let ?s = "(append_message grow m ?c)\<lparr>bc_token := True\<rparr>"
  show thesis
  proof (cases "fits c m")
    case False
    then have "storeIncomingMessage grow reading m c = handleConnectionQueueOverflow reading
        (length (pending c)) (total_bytes (pending c)) (length m) c"
      using store_by_fits [OF ok \<open>\<not> bc_isClosed c\<close>] by simp
    with \<open>\<not> bc_isClosed c\<close> False ok show thesis by (intro overflow) (simp_all add: overflow_ok)
  next
    case True
    then have st: "storeIncomingMessage grow reading m c = ?s"
      using store_by_fits [OF ok \<open>\<not> bc_isClosed c\<close>] by simp
    from compact_ok [OF ok] have okc: "browser_ok ?c" .
    then have start: "bc_shiftQueueStart ?c \<le> length (bc_queuedMessages ?c)"
      by (simp add: browser_ok_def)
    have pend: "pending ?s = pending c @ [m]"
      using append_message_pending [OF start, of grow m] by simp
    moreover have "browser_ok ?s"
    proof -
      have "bc_queuedBytesSize ?s = total_bytes (pending ?s)"
        using okc pend by (simp add: append_message_def browser_ok_def)
      moreover have "take (bc_shiftQueueStart ?s) (bc_queuedMessages ?s) =
          take (bc_shiftQueueStart ?c) (bc_queuedMessages ?c)"
        using start by (simp add: append_message_def)
      ultimately show ?thesis
        using okc pend True False \<open>\<not> bc_isClosed c\<close> start
        by (simp add: browser_ok_def fits_def append_message_def)
    qed
    ultimately show thesis
      using \<open>\<not> bc_isClosed c\<close> True st by (intro stored) simp_all
  qed
qed

section \<open>Reading\<close>

lemma read_loop_select: "pending c = [] \<Longrightarrow> read_loop ef c n = read_select ef c n"
  by (subst read_loop.simps) simp

lemma read_loop_token:
  "pending c = [] \<Longrightarrow> read_loop ef c n =
     (if (bc_errors c \<noteq> [] \<or> bc_errors_closed c) \<and> (ef \<or> \<not> bc_token c) then
        (case bc_errors c of [] \<Rightarrow> (c, Failed NetErrClosed)
         | e # es \<Rightarrow> (c\<lparr>bc_errors := es\<rparr>, Failed e))
      else if bc_token c then read_loop ef (c\<lparr>bc_token := False\<rparr>) n else (c, Blocked))"
  unfolding read_loop_select by (rule read_select.simps)

text \<open>What a read of an open connection does.\<close>

lemma read_loop_cases:
  assumes ok: "browser_ok c" and res: "read_loop ef c n = (c', out)"
    and buf: "bc_readMessageBuffer c = []"
  shows "browser_ok c' \<and> bc_isClosed c' = bc_isClosed c \<and>
    (case out of
       Got bs \<Rightarrow> (\<exists>m ms. pending c = m # ms \<and> bs = take n m \<and>
                    bc_readMessageBuffer c' = drop n m \<and> pending c' = ms)
     | Failed e \<Rightarrow> pending c = [] \<and> pending c' = [] \<and> bc_readMessageBuffer c' = [] \<and>
                   (bc_errors c \<noteq> [] \<or> bc_errors_closed c)
     | Blocked \<Rightarrow> pending c = [] \<and> pending c' = [] \<and> bc_readMessageBuffer c' = [] \<and>
                  bc_errors c = [] \<and> \<not> bc_errors_closed c)"
proof (cases "pending c")
  case (Cons m ms)
  from shift_Some [OF ok Cons] obtain d where d: "shiftQueuedMessage c = (d, Some m)"
    "pending d = ms" "browser_ok d" "bc_readMessageBuffer d = bc_readMessageBuffer c"
    "bc_isClosed d = bc_isClosed c" by metis
  let ?d = "if length (take n m) < length m then d\<lparr>bc_readMessageBuffer := drop n m\<rparr> else d"
  from res d(1) have "c' = ?d" "out = Got (take n m)"
    by (subst (asm) read_loop.simps, simp add: Let_def)+
  moreover have "browser_ok ?d" "pending ?d = ms" "bc_isClosed ?d = bc_isClosed c"
    using d by simp_all
  moreover have "bc_readMessageBuffer ?d = drop n m" using d buf by auto
  ultimately show ?thesis using Cons by simp
next
  case Nil
  have step: "browser_ok c' \<and> bc_isClosed c' = bc_isClosed c \<and>
    (case out of Got bs \<Rightarrow> False
     | Failed e \<Rightarrow> pending c' = [] \<and> bc_readMessageBuffer c' = [] \<and> (bc_errors c \<noteq> [] \<or> bc_errors_closed c)
     | Blocked \<Rightarrow> pending c' = [] \<and> bc_readMessageBuffer c' = [] \<and> bc_errors c = [] \<and> \<not> bc_errors_closed c)"
    if "read_loop ef c n = (c', out)" "\<not> bc_token c" "pending c = []" "browser_ok c"
      "bc_readMessageBuffer c = []" for c
    using that by (simp add: read_loop_token split: if_splits list.splits)
      (auto simp: browser_ok_def pending_def)
  show ?thesis
  proof (cases "bc_token c")
    case False
    from step [OF res this Nil ok buf] Nil show ?thesis by (cases out) simp_all
  next
    case True
    show ?thesis
    proof (cases "(bc_errors c \<noteq> [] \<or> bc_errors_closed c) \<and> ef")
      case True
      with res Nil ok buf show ?thesis
        by (simp add: read_loop_token split: list.splits) (auto simp: browser_ok_def pending_def)
    next
      case False
      have "read_loop ef c n = read_loop ef (c\<lparr>bc_token := False\<rparr>) n"
        unfolding read_loop_token [OF Nil, of ef n] using False True by auto
      with res have "read_loop ef (c\<lparr>bc_token := False\<rparr>) n = (c', out)" by simp
      from step [OF this] Nil ok buf show ?thesis by (cases out) simp_all
    qed
  qed
qed

definition browser_reads ::
    "browserWebSocketConnection \<Rightarrow> nat \<Rightarrow> browserWebSocketConnection \<Rightarrow> wasm_outcome \<Rightarrow> bool" where
  "browser_reads c n c' out \<longleftrightarrow> (\<exists>errors_first \<in> {False, True}. browser_Read errors_first c n = (c', out))"

lemma browser_Read_ok:
  assumes ok: "browser_ok c" and res: "browser_Read ef c n = (c', out)"
  shows "browser_ok c' \<and> bc_isClosed c' = bc_isClosed c"
proof (cases "bc_isClosed c \<or> bc_readMessageBuffer c \<noteq> []")
  case True
  with assms show ?thesis by (auto simp: browser_Read_def split: if_splits)
next
  case False
  with res have "read_loop ef c n = (c', out)" by (simp add: browser_Read_def)
  with read_loop_cases [OF ok this] False show ?thesis by simp
qed

lemma browser_Read_got:
  assumes ok: "browser_ok c" and res: "browser_Read ef c n = (c', Got bs)"
  shows "browser_unread c = bs @ browser_unread c' \<and> length bs \<le> n"
proof (cases "bc_readMessageBuffer c = []")
  case True
  from res True have nc: "\<not> bc_isClosed c" and loop: "read_loop ef c n = (c', Got bs)"
    by (auto simp: browser_Read_def split: if_splits)
  from read_loop_cases [OF ok loop True] obtain m ms where
    "pending c = m # ms" "bs = take n m" "bc_readMessageBuffer c' = drop n m" "pending c' = ms"
    "bc_isClosed c' = bc_isClosed c" by auto
  with nc True show ?thesis by (simp add: browser_unread_def)
next
  case False
  with res have "\<not> bc_isClosed c" "bs = take n (bc_readMessageBuffer c)"
    "c' = c\<lparr>bc_readMessageBuffer := drop n (bc_readMessageBuffer c)\<rparr>"
    by (auto simp: browser_Read_def split: if_splits)
  then show ?thesis by (simp add: browser_unread_def)
qed

text \<open>A read waits only on an open, drained connection without a pending error.\<close>

lemma browser_Read_blocked:
  assumes ok: "browser_ok c" and res: "browser_Read ef c n = (c', Blocked)"
  shows "\<not> bc_isClosed c \<and> bc_readMessageBuffer c = [] \<and> pending c = [] \<and> bc_errors c = [] \<and>
    c' = c\<lparr>bc_token := False\<rparr>"
proof -
  from res have nc: "\<not> bc_isClosed c" and buf: "bc_readMessageBuffer c = []"
    and loop: "read_loop ef c n = (c', Blocked)"
    by (auto simp: browser_Read_def split: if_splits)
  from read_loop_cases [OF ok loop buf] have idle: "pending c = []" "bc_errors c = []"
    "\<not> bc_errors_closed c" by auto
  with loop have "c' = c\<lparr>bc_token := False\<rparr>"
    by (cases "bc_token c") (auto simp: read_loop_token)
  with nc buf idle show ?thesis by simp
qed

lemma store_ok:
  "browser_ok c \<Longrightarrow> browser_ok (storeIncomingMessage grow reading m c)"
  by (rule store_cases [of c grow reading m]) simp_all

interpretation browser: live_stream browser_reads browser_unread browser_ok
    "\<lambda>c m. storeIncomingMessage grow reading m c" "\<lambda>c. \<not> bc_isClosed c"
  for grow reading
proof unfold_locales
  fix c m assume "browser_ok c" "\<not> bc_isClosed (storeIncomingMessage grow reading m c)"
  then show "browser_unread (storeIncomingMessage grow reading m c) = browser_unread c @ m"
    by (cases rule: store_cases [of c grow reading m]) (simp_all add: browser_unread_def)
next
  fix c n c' assume ok: "browser_ok c" and "browser_reads c n c' Blocked"
  then obtain ef where "browser_Read ef c n = (c', Blocked)" by (auto simp: browser_reads_def)
  from browser_Read_blocked [OF ok this] show "browser_unread c = [] \<and> browser_unread c' = []"
    by (simp add: browser_unread_def)
qed (auto simp: browser_reads_def store_ok dest: browser_Read_ok browser_Read_got)

section \<open>Every history of a connection\<close>

text \<open>
  The callbacks and calls a connection sees, in the order they happen. \<open>bool\<close> arguments are the
  race outcomes of the code: whether a read holds the read lock, and the choice of \<open>select\<close>.
\<close>

datatype wasm_event =
    Message bool "string + bytes"
  | Socket_Error
  | Socket_Closed bool
  | Read_Call bool nat
  | Close_Call bool

fun wasm_step ::
    "(nat \<Rightarrow> nat) \<Rightarrow> wasm_event \<Rightarrow> browserWebSocketConnection \<Rightarrow> browserWebSocketConnection" where
  "wasm_step grow (Message reading d) c = (if bc_attached c then on_message grow reading d c else c)"
| "wasm_step grow Socket_Error c = (if bc_attached c then on_error c else c)"
| "wasm_step grow (Socket_Closed reading) c = (if bc_attached c then on_close reading c else c)"
| "wasm_step grow (Read_Call ef n) c = fst (browser_Read ef c n)"
| "wasm_step grow (Close_Call reading) c = browser_Close reading c"

definition wasm_run ::
    "(nat \<Rightarrow> nat) \<Rightarrow> wasm_event list \<Rightarrow> browserWebSocketConnection" where
  "wasm_run grow evs = fold (wasm_step grow) evs NewBrowserConn"

lemma wasm_step_ok: "browser_ok c \<Longrightarrow> browser_ok (wasm_step grow ev c)"
proof (cases ev)
  case (Read_Call ef n)
  assume "browser_ok c"
  then show ?thesis
    using browser_Read_ok [of c ef n "fst (browser_Read ef c n)" "snd (browser_Read ef c n)"] Read_Call
    by simp
qed (auto simp: on_message_def on_error_def on_close_def browser_Close_def store_error_ok close_ok
    store_ok split: sum.splits)

lemma fold_wasm_ok: "browser_ok c \<Longrightarrow> browser_ok (fold (wasm_step grow) evs c)"
  by (induction evs arbitrary: c) (simp_all add: wasm_step_ok)

lemma wasm_run_ok: "browser_ok (wasm_run grow evs)"
  by (simp add: wasm_run_def fold_wasm_ok browser_ok_new)

lemma store_closed [simp]:
  "bc_isClosed c \<Longrightarrow> storeIncomingMessage grow reading m c = c"
  "bc_isClosed c \<Longrightarrow> storeConnectionError e c = c"
  "bc_isClosed c \<Longrightarrow> closeChannels reading c = c"
  by (simp_all add: storeIncomingMessage_def storeConnectionError_def closeChannels_def)

text \<open>A closed connection keeps everything but the count of calls to the socket's \<open>close\<close>.\<close>

lemma wasm_step_closed:
  "bc_isClosed c \<Longrightarrow>
   wasm_step grow ev c = c\<lparr>bc_socket_closes := bc_socket_closes (wasm_step grow ev c)\<rparr>"
  by (cases ev) (auto simp: on_message_def on_error_def on_close_def browser_Close_def
      socket_close_def browser_Read_def split: sum.splits)

text \<open>
  C20. Whatever the order of messages, errors, closes and reads, the queue holds at most 256 frames and
  16 MiB, its byte count is exact, popped slots hold no payload, and a closed connection holds no
  frame and has its callbacks detached.
\<close>

theorem browser_queue_bounded:
  fixes grow evs
  defines "c \<equiv> wasm_run grow evs"
  shows "length (pending c) \<le> 256 \<and> bc_queuedBytesSize c = total_bytes (pending c) \<and>
    bc_queuedBytesSize c \<le> 16 * 2 ^ 20 \<and>
    list_all (\<lambda>m. m = []) (take (bc_shiftQueueStart c) (bc_queuedMessages c)) \<and>
    length (bc_errors c) \<le> 4 \<and> bc_attached c = (\<not> bc_isClosed c) \<and>
    (if bc_isClosed c then bc_queuedMessages c = [] else True)"
  using wasm_run_ok [of grow evs]
  by (simp add: c_def browser_ok_def limitConnectionQueuedMessages_def limitConnectionQueuedBytes_def)

text \<open>
  Frames arriving while a reader reads: the bytes the reader has got, followed by those still
  buffered, are the bytes that arrived, whatever the buffer sizes and the frame boundaries; each
  read fits its buffer, and a reader that waits has got everything that arrived.
\<close>

theorem browser_reads_are_a_stream:
  assumes "live_run browser_reads (\<lambda>c m. storeIncomingMessage grow reading m c)
             (\<lambda>c. \<not> bc_isClosed c) NewBrowserConn ms bs c"
  shows "concat ms = bs @ browser_unread c \<and>
    (if browser_reads c n c' (Got b) then length b \<le> n \<and> prefix (bs @ b) (concat ms) else True) \<and>
    (if browser_reads c n c' Blocked then bs = concat ms else True)"
proof -
  have start: "browser_unread NewBrowserConn = []"
    by (simp add: browser_unread_def NewBrowserConn_def pending_def)
  from browser.live_delivers [OF assms browser_ok_new] start
  have ok: "browser_ok c" and all: "concat ms = bs @ browser_unread c" by simp_all
  from all browser.reads_got [OF ok, of n c' b] browser.blocked_unread [OF ok, of n c']
  show ?thesis by (auto simp: prefix_def)
qed

definition two_frames :: browserWebSocketConnection where
  "two_frames = storeIncomingMessage Suc False ''c'' (storeIncomingMessage Suc False ''ab'' NewBrowserConn)"

lemma two_frames_run:
  "live_run browser_reads (\<lambda>c m. storeIncomingMessage Suc False m c) (\<lambda>c. \<not> bc_isClosed c)
     NewBrowserConn [''ab'', ''c''] ''a'' (fst (browser_Read False two_frames 1))"
proof -
  let ?run = "live_run browser_reads (\<lambda>c m. storeIncomingMessage Suc False m c)
    (\<lambda>c. \<not> bc_isClosed c) NewBrowserConn"
  let ?c1 = "storeIncomingMessage Suc False ''ab'' NewBrowserConn"
  have "?run ([] @ [''ab'']) [] ?c1"
    by (intro live_arrive live_start)
      (simp add: storeIncomingMessage_def NewBrowserConn_def append_message_def Let_def
        limitConnectionQueuedMessages_def limitConnectionQueuedBytes_def
        clearQueuedMessagesHeadLocked_def)
  then have "?run (([] @ [''ab'']) @ [''c'']) [] two_frames"
    unfolding two_frames_def
    by (rule live_arrive)
      (simp add: storeIncomingMessage_def NewBrowserConn_def append_message_def Let_def
        limitConnectionQueuedMessages_def limitConnectionQueuedBytes_def
        clearQueuedMessagesHeadLocked_def)
  moreover have "browser_Read False two_frames 1 = (fst (browser_Read False two_frames 1), Got ''a'')"
    by code_simp
  then have "browser_reads two_frames 1 (fst (browser_Read False two_frames 1)) (Got ''a'')"
    by (auto simp: browser_reads_def)
  ultimately show ?thesis using live_read by fastforce
qed

theorem browser_reads_are_a_stream_witness:
  "concat [''ab'', ''c''] = ''a'' @ browser_unread (fst (browser_Read False two_frames 1))"
  using browser_reads_are_a_stream [OF two_frames_run, of 0 NewBrowserConn "[]"] by simp

lemma select_untokened:
  "\<not> bc_token c \<Longrightarrow>
   snd (read_select ef c n) =
     (case bc_errors c of e # es \<Rightarrow> Failed e | [] \<Rightarrow> if bc_errors_closed c then Failed NetErrClosed else Blocked)"
  by (simp add: read_select.simps split: list.splits)

lemma read_pending:
  assumes "browser_ok c" and "pending c = m # ms"
  shows "snd (read_loop ef c n) = Got (take n m)"
proof -
  from shift_Some [OF assms] obtain d where "shiftQueuedMessage c = (d, Some m)" by metis
  then show ?thesis by (subst read_loop.simps) (simp add: Let_def)
qed

lemma select_pending:
  assumes "browser_ok c" and "pending c = m # ms" and "bc_token c" and "bc_errors c = []" "\<not> bc_isClosed c"
  shows "snd (read_select ef c n) = Got (take n m)"
proof -
  from assms have "read_select ef c n = read_loop ef (c\<lparr>bc_token := False\<rparr>) n"
    by (simp add: read_select.simps browser_ok_def)
  with read_pending [of "c\<lparr>bc_token := False\<rparr>" m ms ef n] assms show ?thesis by simp
qed

lemma store_idle:
  assumes ok: "browser_ok c" and idle: "pending c = []" "\<not> bc_isClosed c" "bc_errors c = []" "\<not> bc_token c"
  shows "snd (read_select ef (storeIncomingMessage grow reading m c) n) =
    (if int (length m) \<le> limitConnectionQueuedBytes then Got (take n m)
     else Failed (WsError (BacklogExceeded 1 (int (length m)))))"
proof (cases "fits c m")
  case True
  let ?s = "storeIncomingMessage grow reading m c"
  from True idle have "int (length m) \<le> limitConnectionQueuedBytes" by (simp add: fits_def)
  moreover from True idle have "pending ?s = m # []" "browser_ok ?s" "bc_token ?s" "\<not> bc_isClosed ?s"
    by (auto intro: store_cases [OF ok, of grow reading m])
  moreover have "bc_errors ?s = []" using True idle store_by_fits [OF ok] by simp
  ultimately show ?thesis using select_pending [of ?s m "[]"] by simp
next
  case False
  then have big: "\<not> int (length m) \<le> limitConnectionQueuedBytes"
    using idle by (simp add: fits_def limitConnectionQueuedMessages_def)
  have st: "storeIncomingMessage grow reading m c = handleConnectionQueueOverflow reading 0 0 (length m) c"
    using store_by_fits [OF ok idle(2)] False idle by simp
  show ?thesis
    using big idle unfolding st
    by (subst select_untokened)
      (simp_all add: handleConnectionQueueOverflow_def socket_close_def closeChannels_def
        storeConnectionError_def pending_def)
qed

text \<open>
  C17. No lost wake-up: whatever happens to a connection whose reader waits is seen by that reader. A
  frame is read, an unsupported frame, an oversized frame, an error and a close are reported. The
  reader is in its \<open>select\<close>, so a frame without its signal would not wake it.
\<close>

theorem browser_reader_is_woken:
  assumes blocked: "browser_Read ef (wasm_run grow evs) n = (c, Blocked)"
  shows "snd (read_select ef' (wasm_step grow (Message reading (Inr m)) c) n) =
      (if int (length m) \<le> 16 * 2 ^ 20 then Got (take n m)
       else Failed (WsError (BacklogExceeded 1 (int (length m))))) \<and>
    snd (read_select ef' (wasm_step grow (Message reading (Inl js_type)) c) n) =
      Failed (WsError (UnsupportedDataType js_type)) \<and>
    snd (read_select ef' (wasm_step grow Socket_Error c) n) = Failed NetErrClosed \<and>
    snd (read_select ef' (wasm_step grow (Socket_Closed reading) c) n) = Failed NetErrClosed \<and>
    snd (read_select ef' (wasm_step grow (Close_Call reading) c) n) = Failed NetErrClosed"
proof -
  let ?c = "wasm_run grow evs"
  from browser_Read_blocked [OF wasm_run_ok blocked]
  have idle: "\<not> bc_isClosed c" "pending c = []" "bc_errors c = []" "\<not> bc_token c"
    by simp_all
  from browser_Read_ok [OF wasm_run_ok blocked] have ok: "browser_ok c" by simp
  with idle have att: "bc_attached c" by (simp add: browser_ok_def)
  have pend: "pending (c\<lparr>bc_errors := es\<rparr>) = []" for es using idle by (simp add: pending_def)
  show ?thesis
    using store_idle [OF ok idle(2,1,3,4), of ef' grow reading m n] idle att pend
    by (auto simp: on_message_def limitConnectionQueuedBytes_def on_error_def on_close_def
        browser_Close_def storeConnectionError_def closeChannels_def socket_close_def select_untokened
        pending_def)
qed

theorem browser_reader_is_woken_witness:
  "snd (read_select False (wasm_step Suc (Message True (Inr ''abc''))
     (fst (browser_Read False (wasm_run Suc []) 2))) 2) = Got ''ab''"
proof -
  have "browser_Read False (wasm_run Suc []) 2 = (fst (browser_Read False (wasm_run Suc []) 2), Blocked)"
    by code_simp
  from browser_reader_is_woken [OF this, of False True "''abc''" "[]"] show ?thesis by simp
qed

text \<open>
  A frame that would exceed a limit ends the connection: it is closed, the socket is closed, and the
  frames queued before it are dropped with it. A frame that fits is queued behind the others.
\<close>

theorem browser_overflow_closes:
  fixes grow evs reading m
  assumes op: "\<not> bc_isClosed (wasm_run grow evs)"
  defines "c \<equiv> wasm_run grow evs"
  defines "c' \<equiv> wasm_step grow (Message reading (Inr m)) c"
  shows "(if length (pending c) < 256 \<and> total_bytes (pending c) + int (length m) \<le> 16 * 2 ^ 20
     then \<not> bc_isClosed c' \<and> pending c' = pending c @ [m] \<and>
       bc_readMessageBuffer c' = bc_readMessageBuffer c
     else bc_isClosed c' \<and> pending c' = [] \<and> \<not> bc_attached c' \<and>
       bc_socket_closes c' = Suc (bc_socket_closes c) \<and>
       browser_Read ef c' n = (c', Failed NetErrClosed))"
proof -
  have ok: "browser_ok c" unfolding c_def by (rule wasm_run_ok)
  with op have att: "bc_attached c" "\<not> bc_isClosed c" by (simp_all add: browser_ok_def c_def)
  then have c': "c' = storeIncomingMessage grow reading m c" by (simp add: c'_def on_message_def)
  have fits: "fits c m \<longleftrightarrow>
      length (pending c) < 256 \<and> total_bytes (pending c) + int (length m) \<le> 16 * 2 ^ 20"
    by (simp add: fits_def limitConnectionQueuedMessages_def limitConnectionQueuedBytes_def)
  show ?thesis
  proof (cases "fits c m")
    case True
    with att show ?thesis unfolding fits [symmetric] c'
      by (auto intro: store_cases [OF ok, of grow reading m])
  next
    case False
    with att have cl: "bc_isClosed c'" "browser_ok c'"
      unfolding c' by (auto intro: store_cases [OF ok, of grow reading m])
    then have "pending c' = []" "\<not> bc_attached c'" "browser_Read ef c' n = (c', Failed NetErrClosed)"
      by (auto simp: browser_ok_def pending_def browser_Read_def)
    moreover have "bc_socket_closes c' = Suc (bc_socket_closes c)"
      using cl(1) att(2) unfolding c'
      by (auto simp: storeIncomingMessage_def Let_def handleConnectionQueueOverflow_def
          socket_close_def closeChannels_def storeConnectionError_def append_message_def
          split: if_splits)
    ultimately show ?thesis using False cl unfolding fits [symmetric] by simp
  qed
qed

theorem browser_overflow_closes_witness:
  "\<not> bc_isClosed (wasm_step Suc (Message False (Inr ''ab'')) (wasm_run Suc [])) \<and>
   pending (wasm_step Suc (Message False (Inr ''ab'')) (wasm_run Suc [])) = [''ab'']"
  using browser_overflow_closes
    [where grow = Suc and evs = "[]" and reading = False and m = "''ab''" and ef = False and n = 0]
  by (simp add: wasm_run_def NewBrowserConn_def pending_def)

text \<open>
  Closing is final: whatever still happens, every later read and write reports a closed connection,
  no frame is queued again and nothing is sent.
\<close>

lemma wasm_step_isClosed: "bc_isClosed c \<Longrightarrow> bc_isClosed (wasm_step grow ev c)"
  by (subst wasm_step_closed) simp_all

lemma fold_wasm_closed: "bc_isClosed c \<Longrightarrow> bc_isClosed (fold (wasm_step grow) evs c)"
  by (induction evs arbitrary: c) (simp_all add: wasm_step_isClosed)

theorem browser_close_is_final:
  fixes grow evs evs' reading
  defines "c \<equiv> fold (wasm_step grow) evs' (browser_Close reading (wasm_run grow evs))"
  shows "browser_Read ef c n = (c, Failed NetErrClosed) \<and> browser_Write send c w src = (w, WriteClosed) \<and>
    pending c = [] \<and> bc_queuedBytesSize c = 0 \<and> \<not> bc_attached c"
proof -
  let ?d = "browser_Close reading (wasm_run grow evs)"
  have "bc_isClosed ?d" by (simp add: browser_Close_def)
  from fold_wasm_closed [OF this, of grow evs'] have cl: "bc_isClosed c" by (simp add: c_def)
  have "browser_ok ?d" by (simp add: browser_Close_def close_ok wasm_run_ok)
  then have "browser_ok c" by (simp add: c_def fold_wasm_ok)
  with cl show ?thesis
    by (simp add: browser_Read_def browser_Write_def browser_ok_def pending_def)
qed

text \<open>
  A close drops what was received and not yet read: a socket that delivers a frame and then closes
  gives a reader that was not waiting the error and not the frame.
\<close>

lemma close_drops_queued_frames:
  "snd (browser_Read False (wasm_run Suc [Message False (Inr ''ab''), Socket_Closed False]) 8) =
   Failed NetErrClosed"
  by code_simp

end
