(* ===== verification/Wasm_Dialer.thy ===== *)
theory Wasm_Dialer
  imports Wasm_Conn
begin

text \<open>
  Dialing in the browser (\<open>pkg/wasm/dialer/dialer.go\<close>): a socket is created, temporary callbacks
  report its opening or an error, and the dial waits for one of them or for its context.
\<close>

section \<open>The browser\<close>

text \<open>
  What JavaScript's globals say: \<open>None\<close> is a missing object, the inner \<open>None\<close> a property that is not
  a boolean or not a string.
\<close>

record browser_env =
  be_navigator_onLine :: "bool option option"
  be_document_visibility :: "string option option"

definition isDialerBrowserOnline :: "browser_env \<Rightarrow> bool" where
  "isDialerBrowserOnline env =
     (case be_navigator_onLine env of
        None \<Rightarrow> True
      | Some None \<Rightarrow> True
      | Some (Some onLine) \<Rightarrow> onLine)"

definition getDialerVisibilityState :: "browser_env \<Rightarrow> string" where
  "getDialerVisibilityState env =
     (case be_document_visibility env of
        None \<Rightarrow> ''visible''
      | Some None \<Rightarrow> ''visible''
      | Some (Some state) \<Rightarrow> state)"

definition buildDialerEnvironmentState :: "browser_env \<Rightarrow> string" where
  "buildDialerEnvironmentState env =
     (if \<not> isDialerBrowserOnline env then ''offline'' else ''online'') @ '',visibility='' @
     getDialerVisibilityState env"

section \<open>The dial\<close>

datatype wasm_dial_error =
    WebSocketUnavailable
  | SetupError string
  | ContextError string

text \<open>The socket during the dial; \<open>ds_protocols\<close> is the constructor's second argument, if given.\<close>

record dial_socket =
  ds_url :: string
  ds_protocols :: "string list option"
  ds_binaryType :: string
  ds_handlers :: bool
  ds_open :: bool
  ds_error :: "wasm_dial_error option"
  ds_closes :: nat

definition buildBrowserWebSocket :: "string \<Rightarrow> string list \<Rightarrow> dial_socket" where
  "buildBrowserWebSocket webSocketURL subprotocols =
     \<lparr>ds_url = webSocketURL, ds_protocols = (if subprotocols = [] then None else Some subprotocols),
      ds_binaryType = ''blob'', ds_handlers = False, ds_open = False, ds_error = None, ds_closes = 0\<rparr>"

text \<open>
  The callbacks that run before the select: each fills its one-element channel unless it is full.
\<close>

datatype handshake_event = Opened | Errored browser_env

fun handshake_step :: "handshake_event \<Rightarrow> dial_socket \<Rightarrow> dial_socket" where
  "handshake_step Opened s = s\<lparr>ds_open := True\<rparr>"
| "handshake_step (Errored env) s =
     (case ds_error s of
        Some e \<Rightarrow> s
      | None \<Rightarrow> s\<lparr>ds_error := Some (SetupError (buildDialerEnvironmentState env))\<rparr>)"

text \<open>
  The ways the select can go on once something is ready: the dial succeeds, reports the handshake
  error or the context's. With nothing ready the list is empty, and the dial waits.
\<close>

definition dial_choices :: "dial_socket \<Rightarrow> string option \<Rightarrow> (wasm_dial_error + unit) list" where
  "dial_choices s ctx_done =
     (if ds_open s then [Inr ()] else []) @
     (case ds_error s of None \<Rightarrow> [] | Some e \<Rightarrow> [Inl e]) @
     (case ctx_done of None \<Rightarrow> [] | Some e \<Rightarrow> [Inl (ContextError e)])"

definition finish_dial ::
    "dial_socket \<Rightarrow> wasm_dial_error + unit \<Rightarrow> dial_socket \<times> (wasm_dial_error + browserWebSocketConnection)"
where
  "finish_dial s choice =
     (let s = s\<lparr>ds_handlers := False\<rparr>
      in case choice of
           Inl err \<Rightarrow> (s\<lparr>ds_closes := Suc (ds_closes s)\<rparr>, Inl err)
         | Inr _ \<Rightarrow> (s, Inr NewBrowserConn))"

text \<open>
  \<open>newBrowserWebSocketDialerWithConfig\<close>, one call: \<open>constructor_ok\<close> says whether the browser has
  \<open>WebSocket\<close>, the events are those of the handshake, in order, until the select goes on.
\<close>

definition browser_dial ::
    "bool \<Rightarrow> string \<Rightarrow> string list \<Rightarrow> handshake_event list \<Rightarrow> string option \<Rightarrow>
     (dial_socket option \<times> (wasm_dial_error + browserWebSocketConnection)) list" where
  "browser_dial constructor_ok webSocketURL subprotocols events ctx_done =
     (if \<not> constructor_ok then [(None, Inl WebSocketUnavailable)]
      else
        (let s = (buildBrowserWebSocket webSocketURL subprotocols)
                   \<lparr>ds_binaryType := ''arraybuffer'', ds_handlers := True\<rparr>;
             s = fold handshake_step events s
         in map (\<lambda>choice. map_prod Some id (finish_dial s choice)) (dial_choices s ctx_done)))"

text \<open>\<open>newBrowserWebSocketDialer\<close>: the same without subprotocols.\<close>

definition newBrowserWebSocketDialer ::
    "bool \<Rightarrow> string \<Rightarrow> handshake_event list \<Rightarrow> string option \<Rightarrow>
     (dial_socket option \<times> (wasm_dial_error + browserWebSocketConnection)) list" where
  "newBrowserWebSocketDialer constructor_ok webSocketURL = browser_dial constructor_ok webSocketURL []"

section \<open>What a dial leaves behind\<close>

lemma handshake_fold:
  "ds_closes (fold handshake_step evs s) = ds_closes s"
  "ds_binaryType (fold handshake_step evs s) = ds_binaryType s"
  "ds_url (fold handshake_step evs s) = ds_url s"
  "ds_protocols (fold handshake_step evs s) = ds_protocols s"
  "ds_open (fold handshake_step evs s) \<longleftrightarrow> ds_open s \<or> Opened \<in> set evs"
proof (induction evs arbitrary: s)
  case (Cons e evs)
  { case 1 then show ?case using Cons(1) by (cases e) (simp_all split: option.split) }
  { case 2 then show ?case using Cons(2) by (cases e) (simp_all split: option.split) }
  { case 3 then show ?case using Cons(3) by (cases e) (simp_all split: option.split) }
  { case 4 then show ?case using Cons(4) by (cases e) (simp_all split: option.split) }
  { case 5 then show ?case using Cons(5) by (cases e) (simp_all split: option.split) }
qed simp_all

text \<open>
  C30. However the handshake events, the context and the select race, a dial that fails after creating a
  socket has closed it once, so none is orphaned; a dial that succeeds hands out a fresh connection
  on a socket that did open, is not closed and delivers array buffers. In both cases the temporary
  callbacks are gone. The URL and the subprotocols are those given.
\<close>

theorem browser_dial_orphans_nothing:
  assumes "(sock, res) \<in> set (browser_dial constructor_ok url ps evs ctx_done)"
  shows "(case sock of
      None \<Rightarrow> \<not> constructor_ok \<and> res = Inl WebSocketUnavailable
    | Some s \<Rightarrow> constructor_ok \<and> \<not> ds_handlers s \<and> ds_binaryType s = ''arraybuffer'' \<and> ds_url s = url \<and>
        default_to [] (ds_protocols s) = ps \<and>
        (case res of
           Inl err \<Rightarrow> ds_closes s = 1
         | Inr c \<Rightarrow> ds_closes s = 0 \<and> Opened \<in> set evs \<and> c = NewBrowserConn))"
proof (cases constructor_ok)
  case True
  let ?s = "fold handshake_step evs ((buildBrowserWebSocket url ps)
    \<lparr>ds_binaryType := ''arraybuffer'', ds_handlers := True\<rparr>)"
  from assms True obtain choice where c: "choice \<in> set (dial_choices ?s ctx_done)"
    "(sock, res) = map_prod Some id (finish_dial ?s choice)"
    by (auto simp: browser_dial_def Let_def)
  show ?thesis
  proof (cases choice)
    case (Inl err)
    with c(2) have "sock = Some (?s\<lparr>ds_handlers := False, ds_closes := Suc (ds_closes ?s)\<rparr>)" "res = Inl err"
      by (simp_all add: finish_dial_def Let_def)
    with True show ?thesis by (simp add: handshake_fold) (simp add: buildBrowserWebSocket_def)
  next
    case (Inr u)
    with c(2) have "sock = Some (?s\<lparr>ds_handlers := False\<rparr>)" "res = Inr NewBrowserConn"
      by (simp_all add: finish_dial_def Let_def)
    moreover from c(1) Inr have "ds_open ?s" by (auto simp: dial_choices_def split: if_splits option.splits)
    then have "Opened \<in> set evs" by (simp add: handshake_fold) (simp add: buildBrowserWebSocket_def)
    ultimately show ?thesis using True by (simp add: handshake_fold) (simp add: buildBrowserWebSocket_def)
  qed
qed (use assms in \<open>simp add: browser_dial_def\<close>)

theorem browser_dial_orphans_nothing_witness:
  "(let r = hd (browser_dial True ''ws://h'' [] [Errored \<lparr>be_navigator_onLine = Some (Some False),
       be_document_visibility = None\<rparr>] None)
    in snd r = Inl (SetupError ''offline,visibility=visible'') \<and> map_option ds_closes (fst r) = Some 1)"
proof -
  let ?rs = "browser_dial True ''ws://h'' [] [Errored \<lparr>be_navigator_onLine = Some (Some False),
       be_document_visibility = None\<rparr>] None"
  have res: "snd (hd ?rs) = Inl (SetupError ''offline,visibility=visible'')" and ne: "?rs \<noteq> []"
    and sock: "fst (hd ?rs) \<noteq> None"
    by (simp_all add: browser_dial_def dial_choices_def buildBrowserWebSocket_def finish_dial_def
        buildDialerEnvironmentState_def isDialerBrowserOnline_def getDialerVisibilityState_def)
  from ne have "(fst (hd ?rs), snd (hd ?rs)) \<in> set ?rs" by simp
  from browser_dial_orphans_nothing [OF this] res sock show ?thesis
    unfolding Let_def by (auto split: option.splits)
qed

text \<open>A dial waits exactly while the socket has neither opened nor failed and its context lives.\<close>

lemma handshake_error_kept: "ds_error s = Some e \<Longrightarrow> ds_error (fold handshake_step evs s) = Some e"
proof (induction evs arbitrary: s)
  case (Cons a evs)
  then show ?case by (cases a) simp_all
qed simp

lemma browser_dial_waits:
  "browser_dial True url ps evs ctx_done = [] \<longleftrightarrow> evs = [] \<and> ctx_done = None"
proof -
  have ready: "ds_open (fold handshake_step evs s) \<or> ds_error (fold handshake_step evs s) \<noteq> None"
    if "evs \<noteq> []" for s
  proof (cases evs)
    case (Cons a evs')
    then show ?thesis
    proof (cases a)
      case (Errored env)
      obtain e where "ds_error (handshake_step a s) = Some e" using Errored by (cases "ds_error s") simp_all
      with handshake_error_kept [OF this, of evs'] Cons show ?thesis by simp
    qed (simp add: handshake_fold)
  qed (use that in simp)
  let ?s = "(buildBrowserWebSocket url ps)\<lparr>ds_binaryType := ''arraybuffer'', ds_handlers := True\<rparr>"
  have "browser_dial True url ps evs ctx_done = [] \<longleftrightarrow>
      \<not> ds_open (fold handshake_step evs ?s) \<and> ds_error (fold handshake_step evs ?s) = None \<and> ctx_done = None"
    by (simp add: browser_dial_def dial_choices_def Let_def split: option.split)
  with ready [of ?s] show ?thesis by (cases "evs = []") (auto simp: buildBrowserWebSocket_def)
qed

end
