(* ===== verification/Tunnel_Target.thy ===== *)
theory Tunnel_Target
  imports Go_Url
begin

text \<open>
  How a tunnel client reads its target: \<open>pkg/grpctunnel/client.go\<close> for ordinary programs,
  \<open>pkg/grpctunnel/client_wasm.go\<close> for the browser, and the dial target both hand to gRPC
  (\<open>buildTunnelGRPCDialTarget\<close> in \<open>api.go\<close>).
\<close>

section \<open>The code\<close>

datatype tunnel_target_error =
    TunnelTargetRequired
  | TunnelTargetInvalid url_error
  | TunnelSchemeUnsupported string
  | TunnelHostRequired
  | WasmTLSUnsupported
  | WasmSchemeUnsupported string
  | WasmURLEmpty

definition mapHTTPSchemeToWebSocket :: "string \<Rightarrow> string" where
  "mapHTTPSchemeToWebSocket target =
     (case strings_CutPrefix target ''https://'' of
        Some rest \<Rightarrow> ''wss://'' @ rest
      | None \<Rightarrow>
          (case strings_CutPrefix target ''http://'' of
             Some rest \<Rightarrow> ''ws://'' @ rest
           | None \<Rightarrow> target))"

definition ParseTunnelTargetURL :: "string \<Rightarrow> bool \<Rightarrow> tunnel_target_error + string" where
  "ParseTunnelTargetURL target shouldTunnelUseTLS =
     (let target = strings_TrimSpace target in
      if target = [] then Inl TunnelTargetRequired
      else
        (let target = mapHTTPSchemeToWebSocket target in
         if strings_Contains target ''://'' \<and> \<not> strings_HasPrefix target ''ws://'' \<and>
            \<not> strings_HasPrefix target ''wss://'' then
           (case url_Parse target of
              Inl e \<Rightarrow> Inl (TunnelTargetInvalid e)
            | Inr u \<Rightarrow> Inl (TunnelSchemeUnsupported (u_Scheme u)))
         else
           (let target = (if strings_HasPrefix target '':'' then ''localhost'' @ target else target);
                target = (if \<not> strings_HasPrefix target ''ws://'' \<and> \<not> strings_HasPrefix target ''wss://''
                          then (if shouldTunnelUseTLS then ''wss'' else ''ws'') @ ''://'' @ target
                          else target)
            in case url_Parse target of
                 Inl e \<Rightarrow> Inl (TunnelTargetInvalid e)
               | Inr u \<Rightarrow>
                   if u_Scheme u \<noteq> ''ws'' \<and> u_Scheme u \<noteq> ''wss'' then Inl (TunnelSchemeUnsupported (u_Scheme u))
                   else if u_Host u = [] then Inl TunnelHostRequired
                   else Inr (url_String u))))"

definition inferWebSocketURL :: "string \<Rightarrow> bool \<Rightarrow> string" where
  "inferWebSocketURL target isUseTLS =
     (case ParseTunnelTargetURL target isUseTLS of Inl e \<Rightarrow> target | Inr url \<Rightarrow> url)"

text \<open>
  In the browser, where the scheme mapping has a copy of its own; the location is the page's protocol
  and host, if there is one.
\<close>

definition wasm_mapHTTPSchemeToWebSocket :: "string \<Rightarrow> string" where
  "wasm_mapHTTPSchemeToWebSocket target =
     (case strings_CutPrefix target ''https://'' of
        Some rest \<Rightarrow> ''wss://'' @ rest
      | None \<Rightarrow>
          (case strings_CutPrefix target ''http://'' of
             Some rest \<Rightarrow> ''ws://'' @ rest
           | None \<Rightarrow> target))"

lemma wasm_map_same [simp]: "wasm_mapHTTPSchemeToWebSocket = mapHTTPSchemeToWebSocket"
  by (simp add: wasm_mapHTTPSchemeToWebSocket_def mapHTTPSchemeToWebSocket_def fun_eq_iff)

type_synonym location = "(string \<times> string) option"

definition inferBrowserWebSocketURL :: "location \<Rightarrow> string \<Rightarrow> string" where
  "inferBrowserWebSocketURL loc target =
     (let target = wasm_mapHTTPSchemeToWebSocket target in
      if strings_HasPrefix target ''ws://'' \<or> strings_HasPrefix target ''wss://'' then target
      else case loc of
        None \<Rightarrow> if target = [] then ''ws://localhost:8080'' else ''ws://'' @ target
      | Some (protocol, host) \<Rightarrow>
          (let scheme = (if protocol = ''https:'' then ''wss'' else ''ws'')
           in if target = [] then scheme @ ''://'' @ host
              else if hd target = CHR ''/'' then scheme @ ''://'' @ host @ target
              else scheme @ ''://'' @ target))"

definition wasm_ParseTunnelTargetURL :: "location \<Rightarrow> string \<Rightarrow> bool \<Rightarrow> tunnel_target_error + string" where
  "wasm_ParseTunnelTargetURL loc target shouldTunnelUseTLS =
     (if shouldTunnelUseTLS then Inl WasmTLSUnsupported
      else
        (let target = strings_TrimSpace target;
             mapped = wasm_mapHTTPSchemeToWebSocket target
         in if strings_Contains mapped ''://'' \<and> \<not> strings_HasPrefix mapped ''ws://'' \<and>
               \<not> strings_HasPrefix mapped ''wss://'' then Inl (WasmSchemeUnsupported target)
            else
              (let tunnelURL = inferBrowserWebSocketURL loc target in
               if strings_TrimSpace tunnelURL = [] then Inl WasmURLEmpty else Inr tunnelURL)))"

definition buildTunnelGRPCDialTarget :: "string \<Rightarrow> string \<Rightarrow> string" where
  "buildTunnelGRPCDialTarget target tunnelURL =
     (let trimmedTarget = strings_TrimSpace target in
      if trimmedTarget = [] then tunnelURL
      else case url_Parse trimmedTarget of
        Inr u \<Rightarrow>
          if (u_Scheme u = ''ws'' \<or> u_Scheme u = ''wss'') \<and> u_Host u \<noteq> [] then u_Host u else trimmedTarget
      | Inl e \<Rightarrow> trimmedTarget)"

section \<open>Which targets are secure\<close>

text \<open>The scheme written in a target, after \<open>http\<close> and \<open>https\<close> are mapped.\<close>

definition says_ws :: "string \<Rightarrow> bool" where
  "says_ws target \<longleftrightarrow> prefix ''ws://'' (mapHTTPSchemeToWebSocket (strings_TrimSpace target))"

definition says_wss :: "string \<Rightarrow> bool" where
  "says_wss target \<longleftrightarrow> prefix ''wss://'' (mapHTTPSchemeToWebSocket (strings_TrimSpace target))"

lemma ws_wss_exclusive: "prefix ''ws://'' t \<Longrightarrow> \<not> prefix ''wss://'' t"
  by (auto simp: prefix_def)

lemma parsed_scheme:
  "url_Parse (''ws://'' @ x) = Inr u \<Longrightarrow> u_Scheme u = ''ws''"
  "url_Parse (''wss://'' @ x) = Inr u \<Longrightarrow> u_Scheme u = ''wss''"
  using url_Parse_scheme [of "''ws''" x u] url_Parse_scheme [of "''wss''" x u]
  by (simp_all add: letters_def is_lower_def)

text \<open>The URL that is parsed at the end, and its scheme.\<close>

definition completed_target :: "string \<Rightarrow> bool \<Rightarrow> string" where
  "completed_target target tls =
     (let t = mapHTTPSchemeToWebSocket (strings_TrimSpace target) in
      if says_ws target \<or> says_wss target then t
      else (if tls then ''wss://'' else ''ws://'') @ (if prefix '':'' t then ''localhost'' @ t else t))"

lemma colon_not_ws: "prefix '':'' t \<Longrightarrow> \<not> prefix ''ws://'' t \<and> \<not> prefix ''wss://'' t"
  by (auto simp: prefix_def)

lemma localhost_not_ws: "\<not> prefix ''ws://'' (''localhost'' @ t)" "\<not> prefix ''wss://'' (''localhost'' @ t)"
  by simp_all

lemma target_completed:
  assumes "ParseTunnelTargetURL target tls = Inr url"
  obtains u where "url_Parse (completed_target target tls) = Inr u" and "u_Host u \<noteq> []"
    and "url = url_String u"
    and "u_Scheme u = (if says_wss target \<or> (\<not> says_ws target \<and> tls) then ''wss'' else ''ws'')"
proof -
  let ?t = "mapHTTPSchemeToWebSocket (strings_TrimSpace target)"
  from assms obtain u where u: "url_Parse (completed_target target tls) = Inr u" "u_Host u \<noteq> []"
    "url = url_String u"
    using colon_not_ws [of ?t] localhost_not_ws [of ?t]
    by (auto simp: ParseTunnelTargetURL_def completed_target_def says_ws_def says_wss_def Let_def
        strings_HasPrefix_def split: if_splits sum.splits)
  have "u_Scheme u = (if says_wss target \<or> (\<not> says_ws target \<and> tls) then ''wss'' else ''ws'')"
  proof (cases "says_ws target \<or> says_wss target")
    case True
    then consider x where "?t = ''ws://'' @ x" "says_ws target" | x where "?t = ''wss://'' @ x" "says_wss target"
      by (auto simp: says_ws_def says_wss_def prefix_def)
    then show ?thesis
    proof cases
      case 1
      with ws_wss_exclusive [of ?t] have "\<not> says_wss target" by (auto simp: says_ws_def says_wss_def)
      with 1 u(1) parsed_scheme(1) show ?thesis by (simp add: completed_target_def Let_def)
    next
      case 2
      with u(1) parsed_scheme(2) show ?thesis by (simp add: completed_target_def Let_def)
    qed
  next
    case False
    let ?x = "if prefix '':'' ?t then ''localhost'' @ ?t else ?t"
    from False u(1) have "url_Parse ((if tls then ''wss://'' else ''ws://'') @ ?x) = Inr u"
      by (simp add: completed_target_def Let_def)
    with parsed_scheme [of ?x u] False show ?thesis by (cases tls) simp_all
  qed
  with u show thesis by (rule that)
qed

text \<open>
  C28. The scheme of an accepted target: what the target says wins, \<open>wss\<close> and \<open>https\<close> give a secure URL
  and \<open>ws\<close> and \<open>http\<close> a plain one whatever the TLS flag; a target that says nothing follows the
  flag. Nothing else is accepted.
\<close>

theorem tunnel_target_security:
  assumes "ParseTunnelTargetURL target tls = Inr url"
  shows "(if says_wss target \<or> (\<not> says_ws target \<and> tls)
     then prefix ''wss://'' url \<and> \<not> prefix ''ws://'' url
     else prefix ''ws://'' url \<and> \<not> prefix ''wss://'' url)"
proof -
  from target_completed [OF assms] obtain u where u: "url_Parse (completed_target target tls) = Inr u"
    "u_Host u \<noteq> []" "url = url_String u"
    "u_Scheme u = (if says_wss target \<or> (\<not> says_ws target \<and> tls) then ''wss'' else ''ws'')" by blast
  then have "prefix (u_Scheme u @ ''://'') url"
    using url_String_front [OF url_Parse_opaque [OF u(1,2)]] by simp
  with u(4) ws_wss_exclusive [of url] show ?thesis by auto
qed

lemma parse_plain_h: "ParseTunnelTargetURL ''h'' True = Inr ''wss://h''"
  by (simp add: ParseTunnelTargetURL_def mapHTTPSchemeToWebSocket_def strings_CutPrefix_def
      strings_Contains_def strings_HasPrefix_def url_eval TrimSpace_all_plain plain_end_def
      ascii_space_def url_String_def url_front_def escaped_path_def Let_def)

theorem tunnel_target_security_witness:
  "prefix ''wss://'' ''wss://h'' \<and> \<not> says_ws ''h''"
  using tunnel_target_security [OF parse_plain_h]
  by (simp add: says_ws_def says_wss_def mapHTTPSchemeToWebSocket_def strings_CutPrefix_def
      TrimSpace_all_plain plain_end_def ascii_space_def is_ascii_def)

text \<open>A target that says \<open>http\<close> stays in plain text although TLS was asked for.\<close>

lemma explicit_http_ignores_tls: "ParseTunnelTargetURL ''http://h'' True = Inr ''ws://h''"
  by (simp add: ParseTunnelTargetURL_def mapHTTPSchemeToWebSocket_def strings_CutPrefix_def
      strings_Contains_def strings_HasPrefix_def url_eval TrimSpace_all_plain plain_end_def
      ascii_space_def url_String_def url_front_def escaped_path_def Let_def)

section \<open>In the browser\<close>

lemma inferred_scheme:
  "prefix ''ws://'' (inferBrowserWebSocketURL loc target) \<or> prefix ''wss://'' (inferBrowserWebSocketURL loc target)"
  by (simp add: inferBrowserWebSocketURL_def Let_def strings_HasPrefix_def split: option.split prod.split)

lemma inferred_not_blank: "strings_TrimSpace (inferBrowserWebSocketURL loc target) \<noteq> []"
proof -
  obtain x where "inferBrowserWebSocketURL loc target = CHR ''w'' # x"
    using inferred_scheme [of loc target] by (auto simp: prefix_def)
  moreover have "plain_end (CHR ''w'')" by (simp add: plain_end_def ascii_space_def is_ascii_def)
  ultimately show ?thesis using TrimSpace_keeps by simp
qed

text \<open>
  In the browser a target is refused exactly when TLS is asked for explicitly or it says another
  scheme; every other target, also an empty one or a path, gives a websocket URL, secure if it says
  so, and if it says nothing, secure exactly on a page loaded over \<open>https\<close>. The check for an empty
  URL at the end never fails.
\<close>

theorem wasm_target_follows_page:
  "(case wasm_ParseTunnelTargetURL loc target tls of
      Inl e \<Rightarrow> e \<noteq> WasmURLEmpty \<and>
        (tls \<or> \<not> says_ws target \<and> \<not> says_wss target \<and>
           strings_Contains (mapHTTPSchemeToWebSocket (strings_TrimSpace target)) ''://'')
    | Inr url \<Rightarrow>
        (if says_wss target \<or> says_ws target
         then url = mapHTTPSchemeToWebSocket (strings_TrimSpace target)
         else prefix (if map_option fst loc = Some ''https:'' then ''wss://'' else ''ws://'') url))"
  using inferred_not_blank [of loc "strings_TrimSpace target"]
  by (auto simp: wasm_ParseTunnelTargetURL_def Let_def says_ws_def says_wss_def strings_HasPrefix_def
      inferBrowserWebSocketURL_def split: option.split)

section \<open>The dial target\<close>

text \<open>
  The gRPC dial target of a websocket URL is its host; a URL with \<open>http\<close> or \<open>https\<close>, which names the
  same endpoint, is handed to gRPC unchanged.
\<close>

lemma dial_target_of_websocket:
  assumes "url_Parse (strings_TrimSpace target) = Inr u" and "u_Scheme u \<in> {''ws'', ''wss''}" and "u_Host u \<noteq> []"
  shows "buildTunnelGRPCDialTarget target url = u_Host u"
proof -
  have "strings_TrimSpace target \<noteq> []"
    using assms(1,3) by (auto simp: url_eval)
  with assms show ?thesis by (auto simp: buildTunnelGRPCDialTarget_def Let_def)
qed

lemma http_dial_target_unchanged: "buildTunnelGRPCDialTarget ''http://h'' ''ws://h'' = ''http://h''"
  by (simp add: buildTunnelGRPCDialTarget_def Let_def url_eval TrimSpace_all_plain plain_end_def
      ascii_space_def)

end
