(* ===== verification/Go_Float.thy ===== *)
theory Go_Float
  imports Complex_Main "HOL-Library.Log_Nat"
begin

text \<open>
  Go's \<open>float64\<close>: not a number, the infinities, and the finite values as rationals (the two zeros are
  one value here; no code of the repository tells them apart). Operations round to nearest, ties to
  even, with 53 bits of precision and gradual underflow.
\<close>

datatype float64 = NaN | Inf bool | Fin rat

text \<open>Comparisons with zero, as Go does them: every comparison with NaN is false.\<close>

definition float_neg :: "float64 \<Rightarrow> bool" where
  "float_neg x = (case x of NaN \<Rightarrow> False | Inf positive \<Rightarrow> \<not> positive | Fin q \<Rightarrow> q < 0)"

definition float_pos :: "float64 \<Rightarrow> bool" where
  "float_pos x = (case x of NaN \<Rightarrow> False | Inf positive \<Rightarrow> positive | Fin q \<Rightarrow> q > 0)"

definition math_IsNaN :: "float64 \<Rightarrow> bool" where "math_IsNaN x = (x = NaN)"
definition math_IsInf :: "float64 \<Rightarrow> bool" where "math_IsInf x = (case x of Inf _ \<Rightarrow> True | _ \<Rightarrow> False)"

section \<open>Rounding\<close>

definition pow2 :: "int \<Rightarrow> rat" where
  "pow2 e = (if 0 \<le> e then 2 ^ nat e else 1 / 2 ^ nat (- e))"

text \<open>The exponent of the leading bit of a positive rational.\<close>

definition leading_exp :: "rat \<Rightarrow> int" where
  "leading_exp q =
     (case quotient_of q of (a, b) \<Rightarrow>
        (let k = bitlen a - bitlen b in if pow2 k \<le> q then k else k - 1))"

definition round_even :: "rat \<Rightarrow> int" where
  "round_even x =
     (let f = \<lfloor>x\<rfloor>; d = x - of_int f
      in if d < 1 / 2 then f else if d > 1 / 2 then f + 1 else if even f then f else f + 1)"

definition ulp64 :: "rat \<Rightarrow> rat" where
  "ulp64 q = pow2 (max (- 1074) (leading_exp q - 52))"

definition round64 :: "rat \<Rightarrow> float64" where
  "round64 q =
     (if q = 0 then Fin 0
      else
        (let u = ulp64 \<bar>q\<bar>; v = of_int (round_even (\<bar>q\<bar> / u)) * u
         in if v \<ge> 2 ^ 1024 then Inf (q > 0) else Fin (if q < 0 then - v else v)))"

section \<open>Arithmetic\<close>

fun fsub :: "float64 \<Rightarrow> float64 \<Rightarrow> float64" where
  "fsub (Fin a) (Fin b) = round64 (a - b)"
| "fsub (Fin a) (Inf s) = Inf (\<not> s)"
| "fsub (Inf s) (Fin b) = Inf s"
| "fsub (Inf s) (Inf t) = (if s = t then NaN else Inf s)"
| "fsub NaN y = NaN"
| "fsub x NaN = NaN"

fun fmul :: "float64 \<Rightarrow> float64 \<Rightarrow> float64" where
  "fmul (Fin a) (Fin b) = round64 (a * b)"
| "fmul (Fin a) (Inf s) = (if a = 0 then NaN else Inf (s = (a > 0)))"
| "fmul (Inf s) (Fin b) = (if b = 0 then NaN else Inf (s = (b > 0)))"
| "fmul (Inf s) (Inf t) = Inf (s = t)"
| "fmul NaN y = NaN"
| "fmul x NaN = NaN"

fun fdiv :: "float64 \<Rightarrow> float64 \<Rightarrow> float64" where
  "fdiv (Fin a) (Fin b) = (if b = 0 then (if a = 0 then NaN else Inf (a > 0)) else round64 (a / b))"
| "fdiv (Fin a) (Inf s) = Fin 0"
| "fdiv (Inf s) (Fin b) = Inf (s = (b \<ge> 0))"
| "fdiv (Inf s) (Inf t) = NaN"
| "fdiv NaN y = NaN"
| "fdiv x NaN = NaN"

fun flt :: "float64 \<Rightarrow> float64 \<Rightarrow> bool" where
  "flt (Fin a) (Fin b) \<longleftrightarrow> a < b"
| "flt (Fin a) (Inf s) \<longleftrightarrow> s"
| "flt (Inf s) (Fin b) \<longleftrightarrow> \<not> s"
| "flt (Inf s) (Inf t) \<longleftrightarrow> \<not> s \<and> t"
| "flt NaN y \<longleftrightarrow> False"
| "flt x NaN \<longleftrightarrow> False"

definition fle_zero :: "float64 \<Rightarrow> bool" where
  "fle_zero x \<longleftrightarrow> float_neg x \<or> x = Fin 0"

lemma flt_NaN [simp]: "\<not> flt x NaN" "\<not> flt NaN x"
  by (cases x, simp_all)

section \<open>How far rounding goes\<close>

lemma pow2_pos [simp]: "0 < pow2 e"
  by (simp add: pow2_def)

lemma pow2_add: "pow2 (d + e) = pow2 d * pow2 e"
proof -
  have powi: "pow2 k = 2 powi k" for k
    by (simp add: pow2_def power_int_def field_simps)
  show ?thesis by (simp add: powi power_int_add)
qed

lemma pow2_mono: "d \<le> e \<Longrightarrow> pow2 d \<le> pow2 e"
proof -
  assume "d \<le> e"
  then have "pow2 e = pow2 d * pow2 (e - d)" by (simp flip: pow2_add)
  moreover have "1 \<le> pow2 (e - d)" using \<open>d \<le> e\<close> by (simp add: pow2_def)
  ultimately show ?thesis by (metis mult.right_neutral mult_left_mono pow2_pos less_imp_le)
qed

lemma leading_exp_le:
  assumes "0 < q"
  shows "pow2 (leading_exp q) \<le> q"
proof -
  obtain a b where ab: "quotient_of q = (a, b)" by fastforce
  then have b: "0 < b" and q: "q = of_int a / of_int b"
    using quotient_of_denom_pos quotient_of_div by auto
  with assms have a: "0 < a" by (simp add: zero_less_divide_iff)
  from bitlen_bounds [OF a] have la: "2 ^ nat (bitlen a - 1) \<le> a" by simp
  from bitlen_bounds [OF b] have lb: "b < 2 ^ nat (bitlen b)" by simp
  have ka: "1 \<le> bitlen a" and kb: "1 \<le> bitlen b" using a b by (simp_all add: bitlen_alt_def)
  have "pow2 (bitlen a - bitlen b - 1) \<le> q"
  proof -
    have "pow2 (bitlen a - 1) \<le> of_int a"
    proof -
      from la have "of_int (2 ^ nat (bitlen a - 1)) \<le> (of_int a :: rat)" by (rule of_int_le_iff [THEN iffD2])
      with ka show ?thesis by (simp add: pow2_def)
    qed
    moreover have "of_int b \<le> pow2 (bitlen b)"
    proof -
      from lb have "of_int b < (of_int (2 ^ nat (bitlen b)) :: rat)" by (rule of_int_less_iff [THEN iffD2])
      with kb show ?thesis by (simp add: pow2_def)
    qed
    moreover have "pow2 (bitlen a - 1) = pow2 (bitlen a - bitlen b - 1) * pow2 (bitlen b)"
      by (simp flip: pow2_add)
    ultimately have "pow2 (bitlen a - bitlen b - 1) * of_int b \<le> of_int a"
      by (metis mult_left_mono order_trans pow2_pos less_imp_le)
    with b show ?thesis by (simp add: q field_simps)
  qed
  then show ?thesis by (simp add: leading_exp_def ab Let_def)
qed

lemma round_even_close: "\<bar>of_int (round_even x) - x\<bar> \<le> 1 / 2"
proof -
  have "of_int \<lfloor>x\<rfloor> \<le> x" "x < of_int \<lfloor>x\<rfloor> + 1"
    using floor_correct [of x] by simp_all
  then show ?thesis by (simp add: round_even_def Let_def)
qed

lemma ulp64_pos [simp]: "0 < ulp64 q"
  by (simp add: ulp64_def)

lemma ulp64_le:
  assumes "0 < q"
  shows "ulp64 q \<le> q / 2 ^ 52 + pow2 (- 1074)"
proof -
  have "pow2 (leading_exp q - 52) = pow2 (leading_exp q) / 2 ^ 52"
    using pow2_add [of "leading_exp q" "- 52"] by (simp add: pow2_def)
  with leading_exp_le [OF assms] have "pow2 (leading_exp q - 52) \<le> q / 2 ^ 52" by (simp add: divide_right_mono)
  moreover have "ulp64 q \<le> pow2 (leading_exp q - 52) + pow2 (- 1074)"
    using pow2_pos [of "leading_exp q - 52"] pow2_pos [of "- 1074"]
    by (simp add: ulp64_def max_def less_imp_le)
  ultimately show ?thesis by linarith
qed

text \<open>The error of one operation, relative and absolute.\<close>

lemma round64_error:
  assumes "round64 q = Fin v"
  shows "\<bar>v - q\<bar> \<le> \<bar>q\<bar> / 2 ^ 53 + pow2 (- 1075) \<and> (0 \<le> q \<longrightarrow> 0 \<le> v) \<and> (q \<le> 0 \<longrightarrow> v \<le> 0)"
proof (cases "q = 0")
  case True
  with assms show ?thesis by (simp add: round64_def pow2_def)
next
  case False
  let ?a = "\<bar>q\<bar>" and ?u = "ulp64 \<bar>q\<bar>"
  let ?w = "of_int (round_even (?a / ?u)) * ?u"
  have a: "0 < ?a" using False by simp
  have v: "v = (if q < 0 then - ?w else ?w)"
    using assms False by (simp add: round64_def Let_def split: if_splits)
  have "\<bar>of_int (round_even (?a / ?u)) - ?a / ?u\<bar> * ?u \<le> 1 / 2 * ?u"
    by (intro mult_right_mono round_even_close) (simp add: less_imp_le)
  moreover have "\<bar>of_int (round_even (?a / ?u)) - ?a / ?u\<bar> * ?u = \<bar>?w - ?a\<bar>"
  proof -
    have "\<bar>x\<bar> * ?u = \<bar>x * ?u\<bar>" for x using ulp64_pos [of ?a] by (simp add: abs_mult abs_of_pos)
    moreover have "(of_int (round_even (?a / ?u)) - ?a / ?u) * ?u = ?w - ?a"
      using ulp64_pos [of ?a] by (simp add: left_diff_distrib less_imp_neq [symmetric])
    ultimately show ?thesis by simp
  qed
  ultimately have "\<bar>?w - ?a\<bar> \<le> ?u / 2" by simp
  also have "?u / 2 \<le> ?a / 2 ^ 53 + pow2 (- 1075)"
    using ulp64_le [OF a] pow2_add [of "- 1074" "- 1"] by (simp add: pow2_def)
  finally have err: "\<bar>?w - ?a\<bar> \<le> ?a / 2 ^ 53 + pow2 (- 1075)" .
  have "0 \<le> ?a / ?u" using a ulp64_pos [of ?a] by (simp add: less_imp_le)
  then have "0 \<le> round_even (?a / ?u)" by (simp add: round_even_def Let_def)
  then have "0 \<le> ?w" by (simp add: less_imp_le)
  show ?thesis
  proof (cases "q < 0")
    case True
    then have "\<bar>v - q\<bar> = \<bar>?w - ?a\<bar>" unfolding v by simp
    with err \<open>0 \<le> ?w\<close> True show ?thesis by (simp add: v)
  next
    case pos: False
    with err \<open>0 \<le> ?w\<close> False show ?thesis by (simp add: v)
  qed
qed


text \<open>What that means for numbers below \<open>2 ^ 20\<close>: the error is below \<open>2 ^ - 32\<close>.\<close>

lemma round64_near:
  assumes "round64 q = Fin v" and "\<bar>q\<bar> \<le> 2 ^ 20"
  shows "\<bar>v - q\<bar> \<le> 1 / 2 ^ 32"
proof -
  have "\<bar>v - q\<bar> \<le> \<bar>q\<bar> / 2 ^ 53 + pow2 (- 1075)" using round64_error [OF assms(1)] by simp
  also have "\<dots> \<le> 2 ^ 20 / 2 ^ 53 + pow2 (- 33)"
    by (intro add_mono divide_right_mono pow2_mono assms(2)) simp_all
  finally show ?thesis by (simp add: pow2_def)
qed

lemma round64_finite:
  assumes "\<bar>q\<bar> \<le> 2 ^ 20"
  shows "\<exists>v. round64 q = Fin v"
proof (cases "q = 0")
  case False
  let ?a = "\<bar>q\<bar>" and ?u = "ulp64 \<bar>q\<bar>"
  have a: "0 < ?a" using False by simp
  have "of_int (round_even (?a / ?u)) \<le> ?a / ?u + 1 / 2"
    using round_even_close [of "?a / ?u"] by linarith
  then have "of_int (round_even (?a / ?u)) * ?u \<le> (?a / ?u + 1 / 2) * ?u"
    by (rule mult_right_mono) (simp add: less_imp_le)
  also have "\<dots> = ?a + ?u / 2"
    using ulp64_pos [of ?a] by (simp add: distrib_right less_imp_neq [symmetric])
  also have "\<dots> \<le> 2 ^ 20 + (2 ^ 20 / 2 ^ 52 + pow2 (- 1074)) / 2"
    by (intro add_mono divide_right_mono order_trans [OF ulp64_le [OF a]] assms order_refl) simp_all
  also have "\<dots> \<le> 2 ^ 20 + (2 ^ 20 / 2 ^ 52 + pow2 0) / 2"
    by (intro add_left_mono divide_right_mono pow2_mono) simp_all
  also have "\<dots> < 2 ^ 22" by (simp add: pow2_def)
  also have "(2::rat) ^ 22 \<le> 2 ^ 1024" by (rule power_increasing) simp_all
  finally show ?thesis using False by (simp add: round64_def Let_def)
qed (simp add: round64_def)

lemma round64_sign:
  assumes "q \<le> 0"
  shows "round64 q = Inf False \<or> (\<exists>v. round64 q = Fin v \<and> v \<le> 0)"
proof (cases "round64 q")
  case (Fin v)
  with round64_error [OF Fin] assms show ?thesis by simp
qed (use assms in \<open>auto simp: round64_def Let_def split: if_splits\<close>)

lemma saving_error:
  fixes e y :: rat
  assumes "\<bar>v - s * 100\<bar> \<le> e" and "t \<le> v" and "201 * e \<le> y" and "\<bar>d - x\<bar> \<le> e" and "\<bar>s - (1 - d)\<bar> \<le> e"
  shows "t - y \<le> (1 - x) * 100"
  using assms unfolding abs_le_iff by (simp add: algebra_simps)

text \<open>
  A relative saving computed as \<open>(1 - g / r) * 100\<close> that is not below a threshold between 1 and 100
  is a true saving of that many percent, up to \<open>2 ^ - 20\<close>.
\<close>

lemma saving_sound:
  fixes g r t :: rat
  assumes "0 \<le> g" and "0 < r" and "1 \<le> t" and "t \<le> 100"
    and pass: "\<not> flt (fmul (fsub (Fin 1) (fdiv (Fin g) (Fin r))) (Fin 100)) (Fin t)"
  shows "t - 1 / 2 ^ 20 \<le> (1 - g / r) * 100"
proof -
  obtain x where xdef: "x = g / r" by blast
  have x: "0 \<le> x" using assms(1,2) by (simp add: xdef)
  have q: "fdiv (Fin g) (Fin r) = round64 x" using assms(2) by (simp add: xdef)
  show ?thesis
  proof (cases "round64 x")
    case (Fin d)
    have d0: "0 \<le> d" using round64_error [OF Fin] x by simp
    have lt1: "d < 1"
    proof (rule ccontr)
      assume "\<not> d < 1"
      then have "1 - d \<le> 0" by simp
      from round64_sign [OF this] show False
      proof
        assume "round64 (1 - d) = Inf False"
        with pass q Fin show False by simp
      next
        assume "\<exists>v. round64 (1 - d) = Fin v \<and> v \<le> 0"
        then obtain s where s: "round64 (1 - d) = Fin s" "s * 100 \<le> 0" by auto
        from round64_sign [OF s(2)] pass q Fin s(1) assms(3) show False by auto
      qed
    qed
    have xd: "\<bar>d - x\<bar> \<le> x / 2 ^ 53 + pow2 (- 1075)" using round64_error [OF Fin] x by simp
    moreover have "pow2 (- 1075) \<le> pow2 (- 33)" by (rule pow2_mono) simp
    then have "pow2 (- 1075) \<le> 1 / 2 ^ 33" by (simp add: pow2_def)
    ultimately have x2: "x \<le> 2 ^ 20" using lt1 by (simp add: abs_le_iff)
    from round64_near [OF Fin] x2 x have e1: "\<bar>d - x\<bar> \<le> 1 / 2 ^ 32" by simp
    have b1: "\<bar>1 - d\<bar> \<le> 2 ^ 20" using d0 lt1 by simp
    show ?thesis
    proof (cases "round64 (1 - d)")
      case s: (Fin s)
      from round64_near [OF s b1] have e2: "\<bar>s - (1 - d)\<bar> \<le> 1 / 2 ^ 32" .
      moreover have "(1::rat) / 2 ^ 32 \<le> 1" by simp
      ultimately have "\<bar>s - (1 - d)\<bar> \<le> 1" by (rule order_trans)
      then have "\<bar>s\<bar> \<le> 2" using d0 lt1 by (simp add: abs_le_iff)
      then have b2: "\<bar>s * 100\<bar> \<le> 2 ^ 20" by (simp add: abs_mult)
      show ?thesis
      proof (cases "round64 (s * 100)")
        case v: (Fin v)
        from round64_near [OF v b2] have "\<bar>v - s * 100\<bar> \<le> 1 / 2 ^ 32" .
        moreover have "t \<le> v" using pass q Fin s v by simp
        moreover have "201 * (1 / 2 ^ 32) \<le> (1 :: rat) / 2 ^ 20" by simp
        ultimately show ?thesis using e1 e2 saving_error unfolding xdef by blast
      qed (use round64_finite [OF b2] in auto)
    qed (use round64_finite [OF b1] in auto)
  next
    case NaN
    then show ?thesis by (auto simp: round64_def Let_def split: if_splits)
  next
    case (Inf b)
    with x have b by (auto simp: round64_def Let_def split: if_splits)
    with Inf pass q show ?thesis by simp
  qed
qed


text \<open>Two values that are exact, for evaluation.\<close>

lemma bitlen_values: "bitlen 1 = 1" "bitlen 100 = 7"
  by (simp_all add: compute_bitlen bitlen_def)

lemma round64_values [simp]: "round64 0 = Fin 0" "round64 1 = Fin 1" "round64 100 = Fin 100"
  by (simp_all add: round64_def ulp64_def leading_exp_def bitlen_values pow2_def round_even_def Let_def)

end
