(* ===== verification/Dial_Policy.thy ===== *)
theory Dial_Policy
  imports Go_Float Go_Http
begin

text \<open>
  The reconnect and keepalive policies of a tunnel client (\<open>pkg/grpctunnel/api.go\<close>): validation, and
  how a policy becomes gRPC dial options. gRPC's default backoff is a parameter.
\<close>

section \<open>The policies\<close>

record ReconnectConfig =
  rc_InitialDelay :: duration
  rc_MaxDelay :: duration
  rc_Multiplier :: float64
  rc_Jitter :: float64
  rc_MinConnectTimeout :: duration

record KeepaliveConfig =
  kc_Interval :: duration
  kc_Timeout :: duration

datatype policy_error =
    InitialDelayNegative | MaxDelayNegative | MinConnectTimeoutNegative
  | MultiplierNegative | MultiplierNotFinite | JitterNegative | JitterNotFinite
  | KeepaliveIntervalNegative | KeepaliveTimeoutNegative

definition GetReconnectConfigError :: "ReconnectConfig \<Rightarrow> policy_error option" where
  "GetReconnectConfigError cfg =
     (if rc_InitialDelay cfg < 0 then Some InitialDelayNegative
      else if rc_MaxDelay cfg < 0 then Some MaxDelayNegative
      else if rc_MinConnectTimeout cfg < 0 then Some MinConnectTimeoutNegative
      else if float_neg (rc_Multiplier cfg) then Some MultiplierNegative
      else if math_IsNaN (rc_Multiplier cfg) \<or> math_IsInf (rc_Multiplier cfg) then Some MultiplierNotFinite
      else if float_neg (rc_Jitter cfg) then Some JitterNegative
      else if math_IsNaN (rc_Jitter cfg) \<or> math_IsInf (rc_Jitter cfg) then Some JitterNotFinite
      else None)"

definition GetKeepaliveConfigError :: "KeepaliveConfig \<Rightarrow> policy_error option" where
  "GetKeepaliveConfigError cfg =
     (if kc_Interval cfg < 0 then Some KeepaliveIntervalNegative
      else if kc_Timeout cfg < 0 then Some KeepaliveTimeoutNegative
      else None)"

section \<open>Dial options\<close>

record backoff_config =
  bo_BaseDelay :: duration
  bo_MaxDelay :: duration
  bo_Multiplier :: float64
  bo_Jitter :: float64

text \<open>
  The dial options this package makes, the caller's own by name, and the dialers; \<open>'d\<close> describes what
  a dialer does.
\<close>

datatype 'd dial_option =
    CallerOption string
  | InsecureCredentials
  | ConnectParams backoff_config duration
  | KeepaliveParams duration duration bool
  | ContextDialer 'd

definition ApplyTunnelInsecureCredentials :: "'d dial_option list \<Rightarrow> 'd dial_option list" where
  "ApplyTunnelInsecureCredentials dialOptions = dialOptions @ [InsecureCredentials]"

definition ApplyTunnelKeepalivePolicy ::
    "'d dial_option list \<Rightarrow> KeepaliveConfig \<Rightarrow> policy_error + 'd dial_option list" where
  "ApplyTunnelKeepalivePolicy dialOptions cfg =
     (case GetKeepaliveConfigError cfg of
        Some err \<Rightarrow> Inl err
      | None \<Rightarrow>
          (let interval = (if kc_Interval cfg = 0 then 30 * second else kc_Interval cfg);
               timeout = (if kc_Timeout cfg = 0 then 20 * second else kc_Timeout cfg)
           in Inr (dialOptions @ [KeepaliveParams interval timeout True])))"

definition ApplyTunnelReconnectPolicy ::
    "backoff_config \<Rightarrow> 'd dial_option list \<Rightarrow> ReconnectConfig \<Rightarrow> policy_error + 'd dial_option list" where
  "ApplyTunnelReconnectPolicy default_backoff dialOptions cfg =
     (case GetReconnectConfigError cfg of
        Some err \<Rightarrow> Inl err
      | None \<Rightarrow>
          (let b = default_backoff;
               b = (if rc_InitialDelay cfg > 0 then b\<lparr>bo_BaseDelay := rc_InitialDelay cfg\<rparr> else b);
               b = (if rc_MaxDelay cfg > 0 then b\<lparr>bo_MaxDelay := rc_MaxDelay cfg\<rparr> else b);
               b = (if float_pos (rc_Multiplier cfg) then b\<lparr>bo_Multiplier := rc_Multiplier cfg\<rparr> else b);
               b = (if float_pos (rc_Jitter cfg) then b\<lparr>bo_Jitter := rc_Jitter cfg\<rparr> else b);
               minConnect = (if rc_MinConnectTimeout cfg > 0 then rc_MinConnectTimeout cfg else 0)
           in Inr (dialOptions @ [ConnectParams b minConnect])))"

section \<open>Validity\<close>

text \<open>A finite number that is not negative.\<close>

definition float_ok :: "float64 \<Rightarrow> bool" where
  "float_ok x = (case x of Fin q \<Rightarrow> 0 \<le> q | _ \<Rightarrow> False)"

lemma float_ok_iff: "float_ok x \<longleftrightarrow> \<not> float_neg x \<and> \<not> math_IsNaN x \<and> \<not> math_IsInf x"
  by (cases x) (auto simp: float_ok_def float_neg_def math_IsNaN_def math_IsInf_def)

lemma reconnect_valid_iff:
  "GetReconnectConfigError cfg = None \<longleftrightarrow>
     0 \<le> rc_InitialDelay cfg \<and> 0 \<le> rc_MaxDelay cfg \<and> 0 \<le> rc_MinConnectTimeout cfg \<and>
     float_ok (rc_Multiplier cfg) \<and> float_ok (rc_Jitter cfg)"
  by (auto simp: GetReconnectConfigError_def float_ok_iff)

lemma keepalive_valid_iff:
  "GetKeepaliveConfigError cfg = None \<longleftrightarrow> 0 \<le> kc_Interval cfg \<and> 0 \<le> kc_Timeout cfg"
  by (auto simp: GetKeepaliveConfigError_def)

definition backoff_ok :: "backoff_config \<Rightarrow> bool" where
  "backoff_ok b \<longleftrightarrow> 0 < bo_BaseDelay b \<and> 0 < bo_MaxDelay b \<and> float_ok (bo_Multiplier b) \<and> float_ok (bo_Jitter b)"

text \<open>
  A reconnect policy is applied or refused as a whole: it is refused exactly when a delay is negative
  or a factor is negative, infinite or not a number; otherwise one option is appended, which takes
  every positive setting from the policy and every other from gRPC's defaults, and is a usable
  backoff if the defaults are. Likewise for keepalive, whose interval and timeout are always
  positive and which probes without active streams.
\<close>

theorem policies_applied_whole:
  assumes "backoff_ok default_backoff"
  shows "(case ApplyTunnelReconnectPolicy default_backoff opts rc of
        Inl e \<Rightarrow> \<not> (0 \<le> rc_InitialDelay rc \<and> 0 \<le> rc_MaxDelay rc \<and> 0 \<le> rc_MinConnectTimeout rc \<and>
          float_ok (rc_Multiplier rc) \<and> float_ok (rc_Jitter rc))
      | Inr opts' \<Rightarrow> (\<exists>b. opts' = opts @ [ConnectParams b (rc_MinConnectTimeout rc)] \<and> backoff_ok b \<and>
          bo_BaseDelay b = (if rc_InitialDelay rc = 0 then bo_BaseDelay default_backoff else rc_InitialDelay rc) \<and>
          bo_MaxDelay b = (if rc_MaxDelay rc = 0 then bo_MaxDelay default_backoff else rc_MaxDelay rc) \<and>
          bo_Multiplier b =
            (if rc_Multiplier rc = Fin 0 then bo_Multiplier default_backoff else rc_Multiplier rc) \<and>
          bo_Jitter b = (if rc_Jitter rc = Fin 0 then bo_Jitter default_backoff else rc_Jitter rc))) \<and>
    (case ApplyTunnelKeepalivePolicy opts kc of
        Inl e \<Rightarrow> kc_Interval kc < 0 \<or> kc_Timeout kc < 0
      | Inr opts' \<Rightarrow> (\<exists>i t. opts' = opts @ [KeepaliveParams i t True] \<and> 0 < i \<and> 0 < t \<and>
          i = (if kc_Interval kc = 0 then 30 * second else kc_Interval kc) \<and>
          t = (if kc_Timeout kc = 0 then 20 * second else kc_Timeout kc)))"
proof (rule conjI)
  show "case ApplyTunnelReconnectPolicy default_backoff opts rc of
        Inl e \<Rightarrow> \<not> (0 \<le> rc_InitialDelay rc \<and> 0 \<le> rc_MaxDelay rc \<and> 0 \<le> rc_MinConnectTimeout rc \<and>
          float_ok (rc_Multiplier rc) \<and> float_ok (rc_Jitter rc))
      | Inr opts' \<Rightarrow> (\<exists>b. opts' = opts @ [ConnectParams b (rc_MinConnectTimeout rc)] \<and> backoff_ok b \<and>
          bo_BaseDelay b = (if rc_InitialDelay rc = 0 then bo_BaseDelay default_backoff else rc_InitialDelay rc) \<and>
          bo_MaxDelay b = (if rc_MaxDelay rc = 0 then bo_MaxDelay default_backoff else rc_MaxDelay rc) \<and>
          bo_Multiplier b =
            (if rc_Multiplier rc = Fin 0 then bo_Multiplier default_backoff else rc_Multiplier rc) \<and>
          bo_Jitter b = (if rc_Jitter rc = Fin 0 then bo_Jitter default_backoff else rc_Jitter rc))"
  proof (cases "GetReconnectConfigError rc")
    case None
    note valid = None [unfolded reconnect_valid_iff]
    have pos: "float_pos x \<longleftrightarrow> x \<noteq> Fin 0" if "float_ok x" for x
      using that by (cases x) (auto simp: float_ok_def float_pos_def)
    from valid have "float_ok (rc_Multiplier rc)" "float_ok (rc_Jitter rc)" by simp_all
    note pos_m = pos [OF this(1)] and pos_j = pos [OF this(2)]
    from None valid assms show ?thesis
      by (simp add: ApplyTunnelReconnectPolicy_def Let_def backoff_ok_def pos_m pos_j)
  next
    case (Some e)
    then show ?thesis using reconnect_valid_iff [of rc] by (simp add: ApplyTunnelReconnectPolicy_def)
  qed
  show "case ApplyTunnelKeepalivePolicy opts kc of
        Inl e \<Rightarrow> kc_Interval kc < 0 \<or> kc_Timeout kc < 0
      | Inr opts' \<Rightarrow> (\<exists>i t. opts' = opts @ [KeepaliveParams i t True] \<and> 0 < i \<and> 0 < t \<and>
          i = (if kc_Interval kc = 0 then 30 * second else kc_Interval kc) \<and>
          t = (if kc_Timeout kc = 0 then 20 * second else kc_Timeout kc))"
    using keepalive_valid_iff [of kc]
    by (cases "GetKeepaliveConfigError kc") (auto simp: ApplyTunnelKeepalivePolicy_def Let_def)
qed

text \<open>gRPC's documented defaults, for the witness.\<close>

definition grpc_backoff :: backoff_config where
  "grpc_backoff = \<lparr>bo_BaseDelay = second, bo_MaxDelay = 120 * second, bo_Multiplier = Fin (8 / 5),
     bo_Jitter = Fin (1 / 5)\<rparr>"

definition no_reconnect :: ReconnectConfig where
  "no_reconnect = \<lparr>rc_InitialDelay = 0, rc_MaxDelay = 0, rc_Multiplier = Fin 0, rc_Jitter = Fin 0,
     rc_MinConnectTimeout = 0\<rparr>"

theorem policies_applied_whole_witness:
  "(case ApplyTunnelKeepalivePolicy [] \<lparr>kc_Interval = 0, kc_Timeout = 0\<rparr> of
      Inl e \<Rightarrow> False
    | Inr opts \<Rightarrow> opts = [KeepaliveParams (30 * second) (20 * second) True :: unit dial_option])"
proof -
  have "backoff_ok grpc_backoff" by (simp add: backoff_ok_def grpc_backoff_def float_ok_def)
  from policies_applied_whole [where opts = "[] :: unit dial_option list" and rc = no_reconnect
      and kc = "\<lparr>kc_Interval = 0, kc_Timeout = 0\<rparr>", OF this, THEN conjunct2]
  show ?thesis by (simp split: sum.splits)
qed

end
