(* ===== verification/Client_Dial.thy ===== *)
theory Client_Dial
  imports Tunnel_Target Dial_Policy Ws_Conn
begin

text \<open>
  The tunnel clients: options, validation and \<open>BuildTunnelConn\<close> of \<open>pkg/grpctunnel/client.go\<close> and of
  its browser counterpart \<open>client_wasm.go\<close>, and the dial option of \<open>pkg/bridge/client.go\<close>. What is
  handed to \<open>grpc.DialContext\<close> is the result; proxy selectors and TLS settings are known by name.
\<close>

section \<open>Configuration\<close>

record TunnelConfig =
  tc_Target :: string
  tc_TLSConfig :: "hook option"
  tc_ShouldUseTLS :: bool
  tc_Headers :: "header option"
  tc_Subprotocols :: "string list"
  tc_Proxy :: "hook option"
  tc_HandshakeTimeout :: duration
  tc_ShouldEnableCompression :: bool
  tc_ReconnectConfig :: "ReconnectConfig option"
  tc_KeepaliveConfig :: "KeepaliveConfig option"
  tc_GRPCOptions :: "string list"

datatype dial_error =
    HandshakeTimeoutNegative
  | BadPolicy policy_error
  | BadTarget tunnel_target_error
  | UnsupportedOption string
  | WasmTLS | WasmHeaders | WasmProxy | WasmHandshakeTimeout | WasmCompression

text \<open>What the dialer of a connection does: the fields of gorilla's dialer and the URL it dials.\<close>

record ws_dialer =
  wd_URL :: string
  wd_TLSClientConfig :: "hook option"
  wd_Subprotocols :: "string list"
  wd_Proxy :: "hook option"
  wd_HandshakeTimeout :: duration
  wd_EnableCompression :: bool
  wd_Headers :: "header option"

text \<open>
  A dialer dials with gorilla, or fails always because its URL does not parse; the browser's dialer is
  known by its URL and subprotocols.
\<close>

datatype dialer =
    GorillaDialer "url_error + ws_dialer"
  | BrowserDialer string "string list"

text \<open>The options of the browser's dialer package (\<open>pkg/wasm/dialer\<close>).\<close>

definition dialer_New :: "string \<Rightarrow> dialer dial_option" where
  "dialer_New webSocketURL = ContextDialer (BrowserDialer webSocketURL [])"

definition dialer_NewWithConfig :: "string \<Rightarrow> string list \<Rightarrow> dialer dial_option" where
  "dialer_NewWithConfig webSocketURL subprotocols = ContextDialer (BrowserDialer webSocketURL subprotocols)"

definition policy_errors :: "TunnelConfig \<Rightarrow> policy_error option" where
  "policy_errors cfg =
     (case map_option GetReconnectConfigError (tc_ReconnectConfig cfg) of
        Some (Some err) \<Rightarrow> Some err
      | _ \<Rightarrow>
          (case map_option GetKeepaliveConfigError (tc_KeepaliveConfig cfg) of
             Some (Some err) \<Rightarrow> Some err
           | _ \<Rightarrow> None))"

definition getTunnelConfigErrorWithoutTarget :: "TunnelConfig \<Rightarrow> dial_error option" where
  "getTunnelConfigErrorWithoutTarget cfg =
     (if tc_HandshakeTimeout cfg < 0 then Some HandshakeTimeoutNegative
      else map_option BadPolicy (policy_errors cfg))"

definition wasm_getTunnelConfigErrorWithoutTarget :: "TunnelConfig \<Rightarrow> dial_error option" where
  "wasm_getTunnelConfigErrorWithoutTarget cfg =
     (if tc_ShouldUseTLS cfg \<or> tc_TLSConfig cfg \<noteq> None then Some WasmTLS
      else if tc_Headers cfg \<noteq> None then Some WasmHeaders
      else if tc_Proxy cfg \<noteq> None then Some WasmProxy
      else if tc_HandshakeTimeout cfg \<noteq> 0 then Some WasmHandshakeTimeout
      else if tc_ShouldEnableCompression cfg then Some WasmCompression
      else map_option BadPolicy (policy_errors cfg))"

definition buildTunnelTargetURL :: "TunnelConfig \<Rightarrow> tunnel_target_error + string" where
  "buildTunnelTargetURL cfg =
     ParseTunnelTargetURL (tc_Target cfg) (tc_ShouldUseTLS cfg \<or> tc_TLSConfig cfg \<noteq> None)"

definition wasm_buildTunnelTargetURL :: "location \<Rightarrow> TunnelConfig \<Rightarrow> tunnel_target_error + string" where
  "wasm_buildTunnelTargetURL loc cfg = wasm_ParseTunnelTargetURL loc (tc_Target cfg) False"

definition left :: "'a + 'b \<Rightarrow> 'a option" where
  "left x = (case x of Inl a \<Rightarrow> Some a | Inr b \<Rightarrow> None)"

definition GetTunnelConfigError :: "TunnelConfig \<Rightarrow> dial_error option" where
  "GetTunnelConfigError cfg =
     (case getTunnelConfigErrorWithoutTarget cfg of
        Some err \<Rightarrow> Some err
      | None \<Rightarrow> map_option BadTarget (left (buildTunnelTargetURL cfg)))"

definition wasm_GetTunnelConfigError :: "location \<Rightarrow> TunnelConfig \<Rightarrow> dial_error option" where
  "wasm_GetTunnelConfigError loc cfg =
     (case wasm_getTunnelConfigErrorWithoutTarget cfg of
        Some err \<Rightarrow> Some err
      | None \<Rightarrow> map_option BadTarget (left (wasm_buildTunnelTargetURL loc cfg)))"

section \<open>Dialing\<close>

definition buildTunnelDialer :: "TunnelConfig \<Rightarrow> url_error + ws_dialer" where
  "buildTunnelDialer cfg =
     (case url_Parse (tc_Target cfg) of
        Inl err \<Rightarrow> Inl err
      | Inr u \<Rightarrow>
          Inr
            \<lparr>wd_URL = url_String u, wd_TLSClientConfig = tc_TLSConfig cfg,
             wd_Subprotocols = tc_Subprotocols cfg, wd_Proxy = tc_Proxy cfg,
             wd_HandshakeTimeout = tc_HandshakeTimeout cfg,
             wd_EnableCompression = tc_ShouldEnableCompression cfg, wd_Headers = tc_Headers cfg\<rparr>)"

text \<open>
  One call of a dialer's function: gorilla's dial is a parameter, given the dialer and, as \<open>Inl\<close>, its
  error; the connection is wrapped in the adapter of the package.
\<close>

definition dial_tunnel ::
    "(ws_dialer \<Rightarrow> 'e + 'w) \<Rightarrow> url_error + ws_dialer \<Rightarrow> (url_error + 'e) + 'w webSocketConn" where
  "dial_tunnel dial_context d =
     (case d of
        Inl err \<Rightarrow> Inl (Inl err)
      | Inr g \<Rightarrow>
          (case dial_context g of
             Inl err \<Rightarrow> Inl (Inr err)
           | Inr ws \<Rightarrow> Inr (newWebSocketConn (Some ws))))"

text \<open>The options of the policies, in the order in which \<open>BuildTunnelConn\<close> appends them.\<close>

definition policy_options :: "backoff_config \<Rightarrow> TunnelConfig \<Rightarrow> policy_error + dialer dial_option list" where
  "policy_options default_backoff cfg =
     (case (case tc_ReconnectConfig cfg of
              None \<Rightarrow> Inr []
            | Some rc \<Rightarrow> ApplyTunnelReconnectPolicy default_backoff [] rc) of
        Inl err \<Rightarrow> Inl err
      | Inr reconnectOptions \<Rightarrow>
          (case tc_KeepaliveConfig cfg of
             None \<Rightarrow> Inr reconnectOptions
           | Some kc \<Rightarrow>
               (case ApplyTunnelKeepalivePolicy [] kc of
                  Inl err \<Rightarrow> Inl err
                | Inr keepaliveOptions \<Rightarrow> Inr (reconnectOptions @ keepaliveOptions))))"

text \<open>The dial target and the options handed to \<open>grpc.DialContext\<close>.\<close>

definition BuildTunnelConn ::
    "backoff_config \<Rightarrow> TunnelConfig \<Rightarrow> dial_error + string \<times> dialer dial_option list" where
  "BuildTunnelConn default_backoff cfg =
     (case getTunnelConfigErrorWithoutTarget cfg of
        Some err \<Rightarrow> Inl err
      | None \<Rightarrow>
          (case buildTunnelTargetURL cfg of
             Inl err \<Rightarrow> Inl (BadTarget err)
           | Inr tunnelURL \<Rightarrow>
               (case policy_options default_backoff cfg of
                  Inl err \<Rightarrow> Inl (BadPolicy err)
                | Inr opts \<Rightarrow>
                    Inr (buildTunnelGRPCDialTarget (tc_Target cfg) tunnelURL,
                         opts @ map CallerOption (tc_GRPCOptions cfg) @
                         [ContextDialer (GorillaDialer (buildTunnelDialer
                            (cfg\<lparr>tc_Target := tunnelURL, tc_ShouldUseTLS := False,
                                 tc_ReconnectConfig := None, tc_KeepaliveConfig := None,
                                 tc_GRPCOptions := []\<rparr>)))]))))"

definition wasm_BuildTunnelConn ::
    "backoff_config \<Rightarrow> location \<Rightarrow> TunnelConfig \<Rightarrow> dial_error + string \<times> dialer dial_option list" where
  "wasm_BuildTunnelConn default_backoff loc cfg =
     (case wasm_getTunnelConfigErrorWithoutTarget cfg of
        Some err \<Rightarrow> Inl err
      | None \<Rightarrow>
          (case wasm_buildTunnelTargetURL loc cfg of
             Inl err \<Rightarrow> Inl (BadTarget err)
           | Inr tunnelURL \<Rightarrow>
               (case policy_options default_backoff cfg of
                  Inl err \<Rightarrow> Inl (BadPolicy err)
                | Inr opts \<Rightarrow>
                    Inr (buildTunnelGRPCDialTarget (tc_Target cfg) tunnelURL,
                         opts @ map CallerOption (tc_GRPCOptions cfg) @
                         [dialer_NewWithConfig tunnelURL (tc_Subprotocols cfg)]))))"

section \<open>Options\<close>

record clientOptions =
  co_tlsConfig :: "hook option"
  co_Headers :: "header option"
  co_Subprotocols :: "string list"
  co_Proxy :: "hook option"
  co_Reconnect :: "ReconnectConfig option"
  co_Keepalive :: "KeepaliveConfig option"
  co_Timeout :: duration
  co_isUseTLS :: bool
  co_EnableCompression :: bool

definition zero_clientOptions :: clientOptions where
  "zero_clientOptions =
     \<lparr>co_tlsConfig = None, co_Headers = None, co_Subprotocols = [], co_Proxy = None,
      co_Reconnect = None, co_Keepalive = None, co_Timeout = 0, co_isUseTLS = False,
      co_EnableCompression = False\<rparr>"

text \<open>The constructors of \<open>ClientOption\<close>, the same in both builds, and what each sets.\<close>

datatype ClientOption =
    WithTLS "hook option"
  | WithHeaders "header option"
  | WithHeader string string
  | WithSubprotocols "string list"
  | WithProxy "hook option"
  | WithHandshakeTimeout duration
  | WithDialCompression
  | WithReconnectPolicy ReconnectConfig
  | WithTunnelKeepalive duration duration

fun applyClientOption :: "ClientOption \<Rightarrow> clientOptions \<Rightarrow> clientOptions" where
  "applyClientOption (WithTLS cfg) o1 = o1\<lparr>co_isUseTLS := True, co_tlsConfig := cfg\<rparr>"
| "applyClientOption (WithHeaders headers) o1 = o1\<lparr>co_Headers := headers\<rparr>"
| "applyClientOption (WithHeader key value) o1 =
     o1\<lparr>co_Headers := Some (header_Add (default_to [] (co_Headers o1)) key value)\<rparr>"
| "applyClientOption (WithSubprotocols ps) o1 = o1\<lparr>co_Subprotocols := ps\<rparr>"
| "applyClientOption (WithProxy proxy) o1 = o1\<lparr>co_Proxy := proxy\<rparr>"
| "applyClientOption (WithHandshakeTimeout timeout) o1 = o1\<lparr>co_Timeout := timeout\<rparr>"
| "applyClientOption WithDialCompression o1 = o1\<lparr>co_EnableCompression := True\<rparr>"
| "applyClientOption (WithReconnectPolicy cfg) o1 = o1\<lparr>co_Reconnect := Some cfg\<rparr>"
| "applyClientOption (WithTunnelKeepalive interval timeout) o1 =
     o1\<lparr>co_Keepalive := Some \<lparr>kc_Interval = interval, kc_Timeout = timeout\<rparr>\<rparr>"

text \<open>
  The browser build remembers also that an option was given at all: \<open>wo_has\<close> flags for headers,
  proxy, timeout and TLS.
\<close>

record wasm_clientOptions = clientOptions +
  wo_hasHeaders :: bool
  wo_hasProxy :: bool
  wo_hasTimeout :: bool

fun wasm_applyClientOption :: "ClientOption \<Rightarrow> wasm_clientOptions \<Rightarrow> wasm_clientOptions" where
  "wasm_applyClientOption (WithTLS cfg) o1 = o1\<lparr>co_isUseTLS := True, co_tlsConfig := cfg\<rparr>"
| "wasm_applyClientOption (WithHeaders headers) o1 = o1\<lparr>wo_hasHeaders := True, co_Headers := headers\<rparr>"
| "wasm_applyClientOption (WithHeader key value) o1 =
     o1\<lparr>wo_hasHeaders := True, co_Headers := Some (header_Add (default_to [] (co_Headers o1)) key value)\<rparr>"
| "wasm_applyClientOption (WithSubprotocols ps) o1 = o1\<lparr>co_Subprotocols := ps\<rparr>"
| "wasm_applyClientOption (WithProxy proxy) o1 = o1\<lparr>wo_hasProxy := True, co_Proxy := proxy\<rparr>"
| "wasm_applyClientOption (WithHandshakeTimeout timeout) o1 =
     o1\<lparr>wo_hasTimeout := True, co_Timeout := timeout\<rparr>"
| "wasm_applyClientOption WithDialCompression o1 = o1\<lparr>co_EnableCompression := True\<rparr>"
| "wasm_applyClientOption (WithReconnectPolicy cfg) o1 = o1\<lparr>co_Reconnect := Some cfg\<rparr>"
| "wasm_applyClientOption (WithTunnelKeepalive interval timeout) o1 =
     o1\<lparr>co_Keepalive := Some \<lparr>kc_Interval = interval, kc_Timeout = timeout\<rparr>\<rparr>"

text \<open>What a caller may pass to \<open>Dial\<close>.\<close>

datatype dial_arg = TunnelArg ClientOption | GrpcArg string | OtherArg string

fun splitDialOptions :: "dial_arg list \<Rightarrow> dial_error + ClientOption list \<times> string list" where
  "splitDialOptions [] = Inr ([], [])"
| "splitDialOptions (a # as) =
     (case a of
        OtherArg ty \<Rightarrow> Inl (UnsupportedOption ty)
      | TunnelArg o1 \<Rightarrow> map_sum id (\<lambda>(ts, gs). (o1 # ts, gs)) (splitDialOptions as)
      | GrpcArg g \<Rightarrow> map_sum id (\<lambda>(ts, gs). (ts, g # gs)) (splitDialOptions as))"

fun wasm_splitDialOptions :: "dial_arg list \<Rightarrow> dial_error + ClientOption list \<times> string list" where
  "wasm_splitDialOptions [] = Inr ([], [])"
| "wasm_splitDialOptions (a # as) =
     (case a of
        OtherArg ty \<Rightarrow> Inl (UnsupportedOption ty)
      | TunnelArg o1 \<Rightarrow> map_sum id (\<lambda>(ts, gs). (o1 # ts, gs)) (wasm_splitDialOptions as)
      | GrpcArg g \<Rightarrow> map_sum id (\<lambda>(ts, gs). (ts, g # gs)) (wasm_splitDialOptions as))"

lemma wasm_split_same [simp]: "wasm_splitDialOptions as = splitDialOptions as"
  by (induction as) (simp_all split: dial_arg.split)

definition config_of :: "string \<Rightarrow> 'a clientOptions_scheme \<Rightarrow> string list \<Rightarrow> TunnelConfig" where
  "config_of target o1 grpcOpts =
     \<lparr>tc_Target = target, tc_TLSConfig = co_tlsConfig o1, tc_ShouldUseTLS = co_isUseTLS o1,
      tc_Headers = co_Headers o1, tc_Subprotocols = co_Subprotocols o1, tc_Proxy = co_Proxy o1,
      tc_HandshakeTimeout = co_Timeout o1, tc_ShouldEnableCompression = co_EnableCompression o1,
      tc_ReconnectConfig = co_Reconnect o1, tc_KeepaliveConfig = co_Keepalive o1,
      tc_GRPCOptions = grpcOpts\<rparr>"

definition DialContext ::
    "backoff_config \<Rightarrow> string \<Rightarrow> dial_arg list \<Rightarrow> dial_error + string \<times> dialer dial_option list" where
  "DialContext default_backoff target opts =
     (case splitDialOptions opts of
        Inl err \<Rightarrow> Inl err
      | Inr (tunnelOpts, grpcOpts) \<Rightarrow>
          BuildTunnelConn default_backoff
            (config_of target (fold applyClientOption tunnelOpts zero_clientOptions) grpcOpts))"

definition zero_wasm_clientOptions :: wasm_clientOptions where
  "zero_wasm_clientOptions =
     clientOptions.extend zero_clientOptions
       \<lparr>wo_hasHeaders = False, wo_hasProxy = False, wo_hasTimeout = False\<rparr>"

definition wasm_DialContext ::
    "backoff_config \<Rightarrow> location \<Rightarrow> string \<Rightarrow> dial_arg list \<Rightarrow> dial_error + string \<times> dialer dial_option list"
where
  "wasm_DialContext default_backoff loc target opts =
     (case wasm_splitDialOptions opts of
        Inl err \<Rightarrow> Inl err
      | Inr (tunnelOpts, grpcOpts) \<Rightarrow>
          (let o1 = fold wasm_applyClientOption tunnelOpts zero_wasm_clientOptions
           in if wo_hasHeaders o1 then Inl WasmHeaders
              else if wo_hasProxy o1 then Inl WasmProxy
              else if wo_hasTimeout o1 then Inl WasmHandshakeTimeout
              else wasm_BuildTunnelConn default_backoff loc (config_of target o1 grpcOpts)))"

text \<open>\<open>Dial\<close> is \<open>DialContext\<close> with the background context.\<close>

definition Dial ::
    "backoff_config \<Rightarrow> string \<Rightarrow> dial_arg list \<Rightarrow> dial_error + string \<times> dialer dial_option list" where
  "Dial default_backoff target opts = DialContext default_backoff target opts"

definition wasm_Dial ::
    "backoff_config \<Rightarrow> location \<Rightarrow> string \<Rightarrow> dial_arg list \<Rightarrow> dial_error + string \<times> dialer dial_option list"
where "wasm_Dial default_backoff loc target opts = wasm_DialContext default_backoff loc target opts"

section \<open>The proxy package's client\<close>

record ClientConfig =
  cl_Headers :: "header option"
  cl_Subprotocols :: "string list"
  cl_Proxy :: "hook option"
  cl_HandshakeTimeout :: duration
  cl_TLSConfig :: "hook option"
  cl_ShouldEnableCompression :: bool

definition DialOptionWithConfig :: "string \<Rightarrow> ClientConfig \<Rightarrow> dialer dial_option" where
  "DialOptionWithConfig websocketURL cfg =
     ContextDialer (GorillaDialer (Inr
       \<lparr>wd_URL = websocketURL, wd_TLSClientConfig = cl_TLSConfig cfg,
        wd_Subprotocols = cl_Subprotocols cfg, wd_Proxy = cl_Proxy cfg,
        wd_HandshakeTimeout = cl_HandshakeTimeout cfg,
        wd_EnableCompression = cl_ShouldEnableCompression cfg, wd_Headers = cl_Headers cfg\<rparr>))"

definition DialOption :: "string \<Rightarrow> dialer dial_option" where
  "DialOption websocketURL =
     DialOptionWithConfig websocketURL
       \<lparr>cl_Headers = None, cl_Subprotocols = [], cl_Proxy = None, cl_HandshakeTimeout = 0,
        cl_TLSConfig = None, cl_ShouldEnableCompression = False\<rparr>"

section \<open>Validation and dialing\<close>

lemma policy_options_ok:
  "(\<exists>opts. policy_options b cfg = Inr opts) \<longleftrightarrow> policy_errors cfg = None"
  by (cases "tc_ReconnectConfig cfg"; cases "tc_KeepaliveConfig cfg")
    (auto simp: policy_options_def policy_errors_def ApplyTunnelReconnectPolicy_def
      ApplyTunnelKeepalivePolicy_def Let_def split: option.splits)

lemma left_None: "left x = None \<longleftrightarrow> (\<exists>b. x = Inr b)"
  by (cases x) (simp_all add: left_def)

text \<open>
  C19. Validation predicts dialing: in both builds \<open>GetTunnelConfigError\<close> accepts a configuration exactly
  when \<open>BuildTunnelConn\<close> gets as far as handing it to gRPC.
\<close>

theorem validation_predicts_dial:
  "(GetTunnelConfigError cfg = None \<longleftrightarrow> (\<exists>r. BuildTunnelConn b cfg = Inr r)) \<and>
   (wasm_GetTunnelConfigError loc cfg = None \<longleftrightarrow> (\<exists>r. wasm_BuildTunnelConn b loc cfg = Inr r))"
proof (rule conjI)
  show "GetTunnelConfigError cfg = None \<longleftrightarrow> (\<exists>r. BuildTunnelConn b cfg = Inr r)"
    using policy_options_ok [of b cfg]
    by (cases "getTunnelConfigErrorWithoutTarget cfg"; cases "buildTunnelTargetURL cfg";
        cases "policy_options b cfg")
      (auto simp: GetTunnelConfigError_def BuildTunnelConn_def left_def
        getTunnelConfigErrorWithoutTarget_def split: if_splits)
  show "wasm_GetTunnelConfigError loc cfg = None \<longleftrightarrow> (\<exists>r. wasm_BuildTunnelConn b loc cfg = Inr r)"
    using policy_options_ok [of b cfg]
    by (cases "wasm_getTunnelConfigErrorWithoutTarget cfg"; cases "wasm_buildTunnelTargetURL loc cfg";
        cases "policy_options b cfg")
      (auto simp: wasm_GetTunnelConfigError_def wasm_BuildTunnelConn_def left_def
        wasm_getTunnelConfigErrorWithoutTarget_def split: if_splits)
qed

text \<open>The options a policy contributes; none of them is a dialer.\<close>

fun is_dialer :: "'d dial_option \<Rightarrow> bool" where
  "is_dialer (ContextDialer d) = True"
| "is_dialer _ = False"

lemma policy_options_no_dialer:
  "policy_options b cfg = Inr opts \<Longrightarrow> list_all (\<lambda>o1. \<not> is_dialer o1) opts"
  by (auto simp: policy_options_def ApplyTunnelReconnectPolicy_def ApplyTunnelKeepalivePolicy_def
      Let_def split: option.splits)

text \<open>
  The order of the options handed to gRPC, where a later option wins: the policies first, then the
  caller's own options, which may override them, and last the tunnel's dialer, which nothing can
  override; it carries exactly the transport settings of the configuration.
\<close>

theorem tunnel_dialer_comes_last:
  assumes "BuildTunnelConn b cfg = Inr (dialTarget, opts)"
  shows "\<exists>policy d. opts = policy @ map CallerOption (tc_GRPCOptions cfg) @ [ContextDialer (GorillaDialer d)] \<and>
    list_all (\<lambda>o1. \<not> is_dialer o1) policy \<and> length policy \<le> 2 \<and>
    (case d of
       Inl e \<Rightarrow> True
     | Inr g \<Rightarrow> wd_TLSClientConfig g = tc_TLSConfig cfg \<and> wd_Headers g = tc_Headers cfg \<and>
         wd_Subprotocols g = tc_Subprotocols cfg \<and> wd_Proxy g = tc_Proxy cfg \<and>
         wd_HandshakeTimeout g = tc_HandshakeTimeout cfg \<and> 0 \<le> wd_HandshakeTimeout g \<and>
         wd_EnableCompression g = tc_ShouldEnableCompression cfg)"
proof -
  from assms obtain url policy where p: "policy_options b cfg = Inr policy"
    and ok: "getTunnelConfigErrorWithoutTarget cfg = None"
    and opts: "opts = policy @ map CallerOption (tc_GRPCOptions cfg) @
      [ContextDialer (GorillaDialer (buildTunnelDialer (cfg\<lparr>tc_Target := url, tc_ShouldUseTLS := False,
         tc_ReconnectConfig := None, tc_KeepaliveConfig := None, tc_GRPCOptions := []\<rparr>)))]"
    by (auto simp: BuildTunnelConn_def split: option.splits sum.splits)
  have "length policy \<le> 2"
    using p by (auto simp: policy_options_def ApplyTunnelReconnectPolicy_def
        ApplyTunnelKeepalivePolicy_def Let_def split: option.splits)
  moreover from ok have "0 \<le> tc_HandshakeTimeout cfg"
    by (auto simp: getTunnelConfigErrorWithoutTarget_def split: if_splits)
  ultimately show ?thesis
    using policy_options_no_dialer [OF p] unfolding opts
    by (intro exI [of _ policy] exI [of _ "buildTunnelDialer (cfg\<lparr>tc_Target := url,
        tc_ShouldUseTLS := False, tc_ReconnectConfig := None, tc_KeepaliveConfig := None,
        tc_GRPCOptions := []\<rparr>)"])
      (simp add: buildTunnelDialer_def split: sum.split)
qed

abbreviation plain_config :: TunnelConfig where
  "plain_config \<equiv> config_of ''h'' zero_clientOptions [''creds'']"

lemma plain_dial:
  "BuildTunnelConn grpc_backoff (plain_config\<lparr>tc_ShouldUseTLS := True\<rparr>) =
     Inr (''h'', [CallerOption ''creds'', ContextDialer (GorillaDialer (Inr
       \<lparr>wd_URL = ''wss://h'', wd_TLSClientConfig = None, wd_Subprotocols = [], wd_Proxy = None,
        wd_HandshakeTimeout = 0, wd_EnableCompression = False, wd_Headers = None\<rparr>))])"
  by (simp add: BuildTunnelConn_def config_of_def zero_clientOptions_def buildTunnelTargetURL_def
      parse_plain_h getTunnelConfigErrorWithoutTarget_def policy_errors_def policy_options_def
      buildTunnelGRPCDialTarget_def buildTunnelDialer_def url_eval TrimSpace_all_plain plain_end_def
      ascii_space_def url_String_def url_front_def escaped_path_def Let_def)

theorem tunnel_dialer_comes_last_witness:
  "\<exists>policy d. [CallerOption ''creds'', ContextDialer (GorillaDialer (Inr
       \<lparr>wd_URL = ''wss://h'', wd_TLSClientConfig = None, wd_Subprotocols = [], wd_Proxy = None,
        wd_HandshakeTimeout = 0, wd_EnableCompression = False, wd_Headers = None\<rparr>))] =
     policy @ [CallerOption ''creds'', ContextDialer (GorillaDialer d)]"
  using tunnel_dialer_comes_last [OF plain_dial] by (simp add: config_of_def)

section \<open>Options the browser cannot honour\<close>

fun browser_refuses :: "ClientOption \<Rightarrow> bool" where
  "browser_refuses (WithSubprotocols ps) = False"
| "browser_refuses (WithReconnectPolicy cfg) = False"
| "browser_refuses (WithTunnelKeepalive i t) = False"
| "browser_refuses _ = True"

definition marked :: "wasm_clientOptions \<Rightarrow> bool" where
  "marked o1 \<longleftrightarrow> co_isUseTLS o1 \<or> wo_hasHeaders o1 \<or> wo_hasProxy o1 \<or> wo_hasTimeout o1 \<or> co_EnableCompression o1"

lemma marked_apply: "marked (wasm_applyClientOption x o1) \<longleftrightarrow> browser_refuses x \<or> marked o1"
  by (cases x) (auto simp: marked_def)

lemma marked_fold: "marked (fold wasm_applyClientOption xs o1) \<longleftrightarrow> list_ex browser_refuses xs \<or> marked o1"
  by (induction xs arbitrary: o1) (auto simp: marked_apply)

lemma split_filters:
  "splitDialOptions as = Inr (ts, gs) \<Longrightarrow> TunnelArg x \<in> set as \<longleftrightarrow> x \<in> set ts"
  by (induction as arbitrary: ts gs rule: splitDialOptions.induct)
    (auto simp: map_sum_def split: dial_arg.splits sum.splits prod.splits)

text \<open>
  C29. The browser build never ignores a setting silently: a dial with an option for TLS, headers, proxy,
  handshake timeout or compression fails, whatever other options follow and whatever value it has.
\<close>

theorem browser_refuses_loudly:
  assumes "TunnelArg x \<in> set opts" and "browser_refuses x"
  shows "\<exists>err. wasm_DialContext b loc target opts = Inl err"
proof (cases "splitDialOptions opts")
  case (Inr r)
  then obtain ts gs where s: "splitDialOptions opts = Inr (ts, gs)" by (cases r) simp
  let ?o = "fold wasm_applyClientOption ts zero_wasm_clientOptions"
  have "x \<in> set ts" using assms(1) split_filters [OF s] by simp
  with assms(2) have "marked ?o" by (auto simp: marked_fold list_ex_iff)
  with s show ?thesis
    by (auto simp: wasm_DialContext_def wasm_BuildTunnelConn_def wasm_getTunnelConfigErrorWithoutTarget_def
        config_of_def marked_def Let_def)
qed (simp add: wasm_DialContext_def)

theorem browser_refuses_loudly_witness:
  "\<exists>err. wasm_DialContext grpc_backoff None ''h'' [TunnelArg (WithHandshakeTimeout 0), GrpcArg ''creds''] = Inl err"
  by (rule browser_refuses_loudly [of "WithHandshakeTimeout 0"]) simp_all

end
