(* ===== verification/Tooling.thy ===== *)
theory Tooling
  imports Bridge_Handler
begin

text \<open>
  The optional tooling server (\<open>pkg/grpctunnel/tooling.go\<close>): validation, the routes it mounts, the
  services it registers, and the addresses it refuses or warns about. The effects are log events,
  registrations and routes; a panic of the mux is \<open>None\<close>.
\<close>

section \<open>The code\<close>

record ToolingConfig =
  tl_ShouldEnableReflection :: bool
  tl_ShouldEnableHealthService :: bool
  tl_ShouldEnablePprof :: bool
  tl_DebugPathPrefix :: string

datatype tooling_error =
    PrefixWithoutLeadingSlash | PrefixWithoutTrailingSlash
  | ToolingServerRequired | ToolingAddressRefused string

definition GetToolingConfigError :: "ToolingConfig \<Rightarrow> tooling_error option" where
  "GetToolingConfigError cfg =
     (if tl_DebugPathPrefix cfg \<noteq> [] then
        (if \<not> strings_HasPrefix (tl_DebugPathPrefix cfg) ''/'' then Some PrefixWithoutLeadingSlash
         else if \<not> strings_HasSuffix (tl_DebugPathPrefix cfg) ''/'' then Some PrefixWithoutTrailingSlash
         else None)
      else None)"

text \<open>
  \<open>ServeMux.Handle\<close> panics when a pattern is registered twice; patterns are paths here, without
  methods, hosts or wildcards in braces.
\<close>

datatype tooling_route = PprofIndex | PprofCmdline | PprofProfile | PprofSymbol | PprofTrace | GrpcH2C

type_synonym tooling_mux = "(string \<times> tooling_route) list"

definition mux_Handle :: "string \<Rightarrow> tooling_route \<Rightarrow> tooling_mux \<Rightarrow> tooling_mux option" where
  "mux_Handle path h mux = (if path \<in> fst ` set mux then None else Some (mux @ [(path, h)]))"

fun mux_register :: "(string \<times> tooling_route) list \<Rightarrow> tooling_mux \<Rightarrow> tooling_mux option" where
  "mux_register [] mux = Some mux"
| "mux_register ((p, h) # rs) mux =
     (case mux_Handle p h mux of None \<Rightarrow> None | Some mux' \<Rightarrow> mux_register rs mux')"

definition registerToolingPprofHandlers :: "ToolingConfig \<Rightarrow> tooling_mux \<Rightarrow> tooling_mux option" where
  "registerToolingPprofHandlers cfg mux =
     (let debugPathPrefix = (if tl_DebugPathPrefix cfg = [] then ''/debug/pprof/'' else tl_DebugPathPrefix cfg);
          debugPathBase = strings_TrimSuffix debugPathPrefix ''/''
      in mux_register
           [(debugPathPrefix, PprofIndex), (debugPathBase @ ''/cmdline'', PprofCmdline),
            (debugPathBase @ ''/profile'', PprofProfile), (debugPathBase @ ''/symbol'', PprofSymbol),
            (debugPathBase @ ''/trace'', PprofTrace)] mux)"

definition hasToolingService :: "string list \<Rightarrow> string \<Rightarrow> bool" where
  "hasToolingService services name \<longleftrightarrow> name \<in> set services"

definition reflection_service :: string where
  "reflection_service = ''grpc.reflection.v1alpha.ServerReflection''"

definition health_service :: string where "health_service = ''grpc.health.v1.Health''"

text \<open>The services registered on the server, and whether a health server is returned.\<close>

definition ensureToolingServices :: "string list \<Rightarrow> ToolingConfig \<Rightarrow> string list \<times> bool" where
  "ensureToolingServices services cfg =
     ((if tl_ShouldEnableReflection cfg \<and> \<not> hasToolingService services reflection_service
       then [reflection_service] else []) @
      (if tl_ShouldEnableHealthService cfg \<and> \<not> hasToolingService services health_service
       then [health_service] else []),
      tl_ShouldEnableHealthService cfg \<and> \<not> hasToolingService services health_service)"

definition warnToolingExposure :: "ToolingConfig \<Rightarrow> h_event list" where
  "warnToolingExposure cfg =
     LogEvent ''WARN'' ''tooling_exposure'' #
     (if tl_ShouldEnableReflection cfg then [LogEvent ''WARN'' ''tooling_reflection_enabled''] else []) @
     (if tl_ShouldEnablePprof cfg then [LogEvent ''WARN'' ''tooling_pprof_enabled''] else [])"

text \<open>\<open>services\<close> are those already on the server; \<open>None\<close> for a nil server.\<close>

record tooling_handler =
  th_registered :: "string list"
  th_health :: bool
  th_log :: "h_event list"
  th_mux :: "tooling_mux option"

definition BuildToolingHandler :: "string list option \<Rightarrow> ToolingConfig \<Rightarrow> tooling_error + tooling_handler" where
  "BuildToolingHandler services cfg =
     (case services of
        None \<Rightarrow> Inl ToolingServerRequired
      | Some names \<Rightarrow>
          (case GetToolingConfigError cfg of
             Some err \<Rightarrow> Inl err
           | None \<Rightarrow>
               (let mux = (if tl_ShouldEnablePprof cfg then registerToolingPprofHandlers cfg [] else Some []);
                    mux = (case mux of None \<Rightarrow> None | Some m \<Rightarrow> mux_Handle ''/'' GrpcH2C m)
                in Inr \<lparr>th_registered = fst (ensureToolingServices names cfg),
                        th_health = snd (ensureToolingServices names cfg),
                        th_log = warnToolingExposure cfg, th_mux = mux\<rparr>)))"

definition shouldWarnToolingWildcardBind :: "string \<Rightarrow> bool" where
  "shouldWarnToolingWildcardBind addr =
     (let trimmed = strings_TrimSpace addr in
      if trimmed = [] \<or> strings_HasPrefix trimmed '':'' then True
      else case net_SplitHostPort trimmed of
        Inl err \<Rightarrow> False
      | Inr (host, port) \<Rightarrow>
          (let host = strings_TrimSpace host
           in host = [] \<or> host = ''0.0.0.0'' \<or> host = ''::'' \<or> host = ''[::]''))"

definition introspects :: "ToolingConfig \<Rightarrow> bool" where
  "introspects cfg \<longleftrightarrow> tl_ShouldEnableReflection cfg \<or> tl_ShouldEnablePprof cfg"

definition getToolingListenAddressError :: "string \<Rightarrow> ToolingConfig \<Rightarrow> tooling_error option" where
  "getToolingListenAddressError addr cfg =
     (if \<not> tl_ShouldEnableReflection cfg \<and> \<not> tl_ShouldEnablePprof cfg then None
      else if \<not> shouldWarnToolingWildcardBind addr then None
      else Some (ToolingAddressRefused addr))"

definition trim_brackets :: "string \<Rightarrow> string" where
  "trim_brackets s =
     (let out = (\<lambda>c. c = CHR ''['' \<or> c = CHR '']'')
      in rev (dropWhile out (rev (dropWhile out s))))"

definition shouldWarnToolingNonLoopbackBind :: "string \<Rightarrow> ToolingConfig \<Rightarrow> bool" where
  "shouldWarnToolingNonLoopbackBind addr cfg =
     (if \<not> tl_ShouldEnableReflection cfg \<and> \<not> tl_ShouldEnablePprof cfg then False
      else if shouldWarnToolingWildcardBind addr then False
      else case net_SplitHostPort (strings_TrimSpace addr) of
        Inl err \<Rightarrow> False
      | Inr (host, port) \<Rightarrow>
          (let host = trim_brackets host
           in if strings_EqualFold_ascii host ''localhost'' then False
              else case net_ParseIP host of
                Some ip \<Rightarrow> \<not> ip_IsLoopback ip
              | None \<Rightarrow> host \<noteq> []))"

text \<open>The server that is started, with what was logged before.\<close>

record tooling_server =
  ts_Addr :: string
  ts_log :: "h_event list"
  ts_handler :: tooling_handler
  ts_ReadTimeout :: duration
  ts_WriteTimeout :: duration
  ts_IdleTimeout :: duration

definition ListenAndServeTooling ::
    "string \<Rightarrow> string list option \<Rightarrow> ToolingConfig \<Rightarrow> tooling_error + tooling_server" where
  "ListenAndServeTooling addr services cfg =
     (case getToolingListenAddressError addr cfg of
        Some err \<Rightarrow> Inl err
      | None \<Rightarrow>
          (case BuildToolingHandler services cfg of
             Inl err \<Rightarrow> Inl err
           | Inr h \<Rightarrow>
               Inr \<lparr>ts_Addr = addr,
                    ts_log = (if shouldWarnToolingNonLoopbackBind addr cfg
                              then [LogEvent ''WARN'' ''tooling_bind_non_loopback''] else []) @ th_log h,
                    ts_handler = h, ts_ReadTimeout = 15 * second, ts_WriteTimeout = 15 * second,
                    ts_IdleTimeout = 60 * second\<rparr>))"

section \<open>Routes\<close>

lemma mux_register_distinct:
  "mux_register rs mux =
     (if distinct (map fst rs) \<and> fst ` set rs \<inter> fst ` set mux = {} then Some (mux @ rs) else None)"
  by (induction rs mux rule: mux_register.induct) (auto simp: mux_Handle_def)

lemma split_prefix:
  assumes "suffix ''/'' p"
  shows "p = strings_TrimSuffix p ''/'' @ ''/''"
  using assms by (auto simp: strings_TrimSuffix_def suffix_def)

text \<open>
  The tooling handler mounts gRPC at the root and, with pprof enabled, the five pprof pages under the
  prefix, and only those; registration panics exactly when the prefix is the root itself, which
  validation lets through.
\<close>

theorem tooling_routes:
  assumes "BuildToolingHandler services cfg = Inr h"
  defines "base \<equiv> strings_TrimSuffix
    (if tl_DebugPathPrefix cfg = [] then ''/debug/pprof/'' else tl_DebugPathPrefix cfg) ''/''"
  shows "th_mux h =
    (if tl_ShouldEnablePprof cfg then
       (if tl_DebugPathPrefix cfg = ''/'' then None
        else Some [(base @ ''/'', PprofIndex), (base @ ''/cmdline'', PprofCmdline),
          (base @ ''/profile'', PprofProfile), (base @ ''/symbol'', PprofSymbol),
          (base @ ''/trace'', PprofTrace), (''/'', GrpcH2C)])
     else Some [(''/'', GrpcH2C)])"
proof -
  let ?p = "if tl_DebugPathPrefix cfg = [] then ''/debug/pprof/'' else tl_DebugPathPrefix cfg"
  from assms(1) have "suffix ''/'' ?p"
    by (auto simp: BuildToolingHandler_def GetToolingConfigError_def strings_HasSuffix_def
        suffix_def split: option.splits if_splits)
  then have p: "?p = base @ ''/''" unfolding base_def by (rule split_prefix)
  have "base = [] \<longleftrightarrow> tl_DebugPathPrefix cfg = ''/''"
    using p by (auto split: if_splits)
  moreover have "registerToolingPprofHandlers cfg [] =
      Some [(base @ ''/'', PprofIndex), (base @ ''/cmdline'', PprofCmdline),
        (base @ ''/profile'', PprofProfile), (base @ ''/symbol'', PprofSymbol), (base @ ''/trace'', PprofTrace)]"
    using p unfolding registerToolingPprofHandlers_def base_def [symmetric] Let_def
    by (simp add: mux_register_distinct)
  ultimately show ?thesis
    using assms(1)
    by (auto simp: BuildToolingHandler_def Let_def mux_Handle_def split: option.splits)
qed

definition root_prefix :: ToolingConfig where
  "root_prefix = \<lparr>tl_ShouldEnableReflection = False, tl_ShouldEnableHealthService = False,
     tl_ShouldEnablePprof = True, tl_DebugPathPrefix = ''/''\<rparr>"

lemma root_prefix_accepted: "\<exists>h. BuildToolingHandler (Some []) root_prefix = Inr h"
  by (simp add: BuildToolingHandler_def GetToolingConfigError_def root_prefix_def strings_HasPrefix_def
      strings_HasSuffix_def)

theorem tooling_routes_witness:
  "\<exists>h. BuildToolingHandler (Some []) root_prefix = Inr h \<and> th_mux h = None"
proof -
  from root_prefix_accepted obtain h where "BuildToolingHandler (Some []) root_prefix = Inr h" by blast
  with tooling_routes [OF this] show ?thesis by (simp add: root_prefix_def)
qed

section \<open>Addresses\<close>

lemma introspection_checks:
  assumes "ListenAndServeTooling addr services cfg = Inr s" and "introspects cfg"
  shows "\<not> shouldWarnToolingWildcardBind addr"
  using assms by (auto simp: ListenAndServeTooling_def getToolingListenAddressError_def introspects_def
      split: option.splits if_splits)

text \<open>
  C33. Introspection is never exposed silently: a tooling server with reflection or pprof refuses the
  wildcard addresses, and on any other address that names a host it either logs the exposure or
  binds to \<open>localhost\<close> or a loopback address.
\<close>

theorem introspection_not_silent:
  assumes "ListenAndServeTooling addr services cfg = Inr s" and "introspects cfg"
    and "net_SplitHostPort (strings_TrimSpace addr) = Inr (host, port)"
  shows "host \<notin> {[], ''0.0.0.0'', ''::''} \<and>
    (LogEvent ''WARN'' ''tooling_bind_non_loopback'' \<in> set (ts_log s) \<or>
     fold_bytes (trim_brackets host) = ''localhost'' \<or> trim_brackets host = [] \<or>
     (\<exists>ip. net_ParseIP (trim_brackets host) = Some ip \<and> ip_IsLoopback ip))"
proof -
  note no_wild = introspection_checks [OF assms(1,2)]
  have "map lower_byte ''localhost'' = ''localhost''" by code_simp
  moreover have "strings_TrimSpace ''0.0.0.0'' = ''0.0.0.0''" "strings_TrimSpace ''::'' = ''::''"
    by (simp_all add: TrimSpace_all_plain plain_end_def ascii_space_def is_ascii_def)
  then have "host \<notin> {[], ''0.0.0.0'', ''::''}"
    using no_wild assms(3) by (auto simp: shouldWarnToolingWildcardBind_def Let_def split: if_splits)
  moreover have "\<not> shouldWarnToolingNonLoopbackBind addr cfg \<or>
      LogEvent ''WARN'' ''tooling_bind_non_loopback'' \<in> set (ts_log s)"
    using assms(1) by (auto simp: ListenAndServeTooling_def split: option.splits sum.splits)
  moreover have "shouldWarnToolingNonLoopbackBind addr cfg =
      (\<not> strings_EqualFold_ascii (trim_brackets host) ''localhost'' \<and>
       (case net_ParseIP (trim_brackets host) of Some ip \<Rightarrow> \<not> ip_IsLoopback ip | None \<Rightarrow> trim_brackets host \<noteq> []))"
    using no_wild assms(2,3) by (auto simp: shouldWarnToolingNonLoopbackBind_def introspects_def Let_def)
  ultimately show ?thesis
    by (cases "net_ParseIP (trim_brackets host)") (auto simp: strings_EqualFold_ascii_def)
qed

definition reflecting :: ToolingConfig where
  "reflecting = root_prefix\<lparr>tl_ShouldEnableReflection := True, tl_ShouldEnablePprof := False\<rparr>"

text \<open>Another spelling of the wildcard address is not recognised: the server listens on it.\<close>

lemma wildcard_spelling_accepted:
  "(\<exists>s. ListenAndServeTooling ''[::0]:80'' (Some []) reflecting = Inr s) \<and>
   map_option ip_IsUnspecified (net_ParseIP ''::0'') = Some True"
proof
  have "\<not> shouldWarnToolingWildcardBind ''[::0]:80''" by code_simp
  then show "\<exists>s. ListenAndServeTooling ''[::0]:80'' (Some []) reflecting = Inr s"
    by (simp add: ListenAndServeTooling_def getToolingListenAddressError_def BuildToolingHandler_def
        GetToolingConfigError_def reflecting_def root_prefix_def strings_HasPrefix_def strings_HasSuffix_def)
  show "map_option ip_IsUnspecified (net_ParseIP ''::0'') = Some True"
    by (simp add: net_ParseIP_def parse_ipv6_def hex_val_def ip_IsUnspecified_def go_lib)
qed

theorem introspection_not_silent_witness:
  "(case ListenAndServeTooling ''10.0.0.1:80'' (Some []) reflecting of
      Inl e \<Rightarrow> False
    | Inr s \<Rightarrow> ts_Addr s = ''10.0.0.1:80'' \<and> ''10.0.0.1'' \<notin> {[], ''0.0.0.0'', ''::''})"
proof -
  have "\<not> shouldWarnToolingWildcardBind ''10.0.0.1:80''" by code_simp
  then obtain s where s: "ListenAndServeTooling ''10.0.0.1:80'' (Some []) reflecting = Inr s"
      "ts_Addr s = ''10.0.0.1:80''"
    by (simp add: ListenAndServeTooling_def getToolingListenAddressError_def BuildToolingHandler_def
        GetToolingConfigError_def reflecting_def root_prefix_def strings_HasPrefix_def strings_HasSuffix_def)
  have "net_SplitHostPort (strings_TrimSpace ''10.0.0.1:80'') = Inr (''10.0.0.1'', ''80'')" by code_simp
  from introspection_not_silent [OF s(1) _ this] s show ?thesis by (simp add: introspects_def reflecting_def)
qed

end
