(* ===== verification/Observability.thy ===== *)
theory Observability
  imports Bridge_Handler
begin

text \<open>
  The metrics and spans of the upgrade handler (\<open>pkg/grpctunnel/observability.go\<close>): the attributes of
  a measurement, the operations on the OpenTelemetry instruments, and what they add up to over a
  handler's run. The instruments themselves are the library's; an instrument that could not be made
  is missing.
\<close>

section \<open>The code\<close>

type_synonym attributes = "(string \<times> string) list"

datatype instrument = Connections_Active | Connections_Total | Failures_Total | Upgrade_Latency

text \<open>A span start, or an operation on an instrument; a latency is recorded in nanoseconds.\<close>

datatype otel_op =
    OtelAdd instrument int attributes
  | OtelRecord duration attributes
  | OtelStart string attributes

record bridgeObservability =
  ob_tracer :: bool
  ob_connectionsActive :: bool
  ob_connectionsTotal :: bool
  ob_upgradeFailuresTotal :: bool
  ob_upgradeLatencyMS :: bool

text \<open>\<open>makes\<close> says whether OpenTelemetry gives an instrument of a name; its errors are ignored.\<close>

definition buildBridgeObservability :: "(string \<Rightarrow> bool) \<Rightarrow> bridgeObservability" where
  "buildBridgeObservability makes =
     \<lparr>ob_tracer = True,
      ob_connectionsActive = makes ''bridge_connections_active'',
      ob_connectionsTotal = makes ''bridge_connections_total'',
      ob_upgradeFailuresTotal = makes ''bridge_upgrade_failures_total'',
      ob_upgradeLatencyMS = makes ''bridge_request_latency_ms''\<rparr>"

definition buildBridgeMetricAttributes :: "http_request option \<Rightarrow> string \<Rightarrow> attributes" where
  "buildBridgeMetricAttributes r result =
     [(''component'', ''grpctunnel.bridge'')] @
     (if result \<noteq> [] then [(''result'', result)] else []) @
     (case r of
        None \<Rightarrow> []
      | Some q \<Rightarrow>
          (let method = strings_TrimSpace (Method q) in
           (if method \<noteq> [] then [(''method'', method)] else []) @
           (case URLPath q of
              None \<Rightarrow> []
            | Some p \<Rightarrow> (let path = strings_TrimSpace p in if path \<noteq> [] then [(''path'', path)] else []))))"

definition storeBridgeUpgradeResult ::
    "bridgeObservability option \<Rightarrow> duration \<Rightarrow> http_request option \<Rightarrow> string \<Rightarrow> otel_op list" where
  "storeBridgeUpgradeResult ob dur r result =
     (case ob of
        None \<Rightarrow> []
      | Some h \<Rightarrow>
          if \<not> ob_upgradeLatencyMS h then []
          else [OtelRecord dur (buildBridgeMetricAttributes r result)])"

definition storeBridgeUpgradeFailure ::
    "bridgeObservability option \<Rightarrow> duration \<Rightarrow> http_request option \<Rightarrow> otel_op list" where
  "storeBridgeUpgradeFailure ob dur r =
     storeBridgeUpgradeResult ob dur r ''failure'' @
     (case ob of
        None \<Rightarrow> []
      | Some h \<Rightarrow>
          if \<not> ob_upgradeFailuresTotal h then []
          else [OtelAdd Failures_Total 1 (buildBridgeMetricAttributes r ''failure'')])"

definition storeBridgeUpgradeSuccess ::
    "bridgeObservability option \<Rightarrow> duration \<Rightarrow> http_request option \<Rightarrow> otel_op list" where
  "storeBridgeUpgradeSuccess ob dur r = storeBridgeUpgradeResult ob dur r ''success''"

definition storeBridgeConnectionDelta ::
    "bridgeObservability option \<Rightarrow> http_request option \<Rightarrow> int \<Rightarrow> otel_op list" where
  "storeBridgeConnectionDelta ob r delta =
     (case ob of
        None \<Rightarrow> []
      | Some h \<Rightarrow>
          (let attrs = buildBridgeMetricAttributes r [] in
           (if ob_connectionsActive h then [OtelAdd Connections_Active delta attrs] else []) @
           (if delta > 0 \<and> ob_connectionsTotal h then [OtelAdd Connections_Total delta attrs] else [])))"

definition startBridgeRequestSpan :: "bridgeObservability option \<Rightarrow> http_request option \<Rightarrow> otel_op list" where
  "startBridgeRequestSpan ob r =
     (case ob of
        None \<Rightarrow> []
      | Some h \<Rightarrow>
          if \<not> ob_tracer h then []
          else [OtelStart ''grpctunnel.bridge.request'' (buildBridgeMetricAttributes r [])])"

definition startBridgeSessionSpan :: "bridgeObservability option \<Rightarrow> http_request option \<Rightarrow> otel_op list" where
  "startBridgeSessionSpan ob r =
     (case ob of
        None \<Rightarrow> []
      | Some h \<Rightarrow>
          if \<not> ob_tracer h then []
          else [OtelStart ''grpctunnel.bridge.session'' (buildBridgeMetricAttributes r [])])"

section \<open>The handler's measurements\<close>

text \<open>The operations behind each metric and span event of a handler; \<open>dur\<close> is the time since its start.\<close>

fun otel_of :: "bridgeObservability option \<Rightarrow> duration \<Rightarrow> http_request option \<Rightarrow> h_event \<Rightarrow> otel_op list" where
  "otel_of ob dur r MetricFailure = storeBridgeUpgradeFailure ob dur r"
| "otel_of ob dur r MetricSuccess = storeBridgeUpgradeSuccess ob dur r"
| "otel_of ob dur r (MetricDelta d) = storeBridgeConnectionDelta ob r d"
| "otel_of ob dur r RequestSpanStart = startBridgeRequestSpan ob r"
| "otel_of ob dur r SessionSpanStart = startBridgeSessionSpan ob r"
| "otel_of ob dur r _ = []"

definition measurements ::
    "bridgeObservability option \<Rightarrow> duration \<Rightarrow> http_request \<Rightarrow> h_event list \<Rightarrow> otel_op list" where
  "measurements ob dur r tr = concat (map (otel_of ob dur (Some r)) tr)"

lemma measurements_simps [simp]:
  "measurements ob dur r [] = []"
  "measurements ob dur r (e # tr) = otel_of ob dur (Some r) e @ measurements ob dur r tr"
  "measurements ob dur r (tr @ tr') = measurements ob dur r tr @ measurements ob dur r tr'"
  "measurements ob dur r (deferring d tr) = measurements ob dur r tr @ measurements ob dur r d"
  by (simp_all add: measurements_def deferring_def)

text \<open>The sum of an instrument over all attributes, and over one set of attributes.\<close>

fun counted :: "instrument \<Rightarrow> attributes option \<Rightarrow> otel_op \<Rightarrow> int" where
  "counted i sel (OtelAdd j n attrs) = (if i = j \<and> (sel = None \<or> sel = Some attrs) then n else 0)"
| "counted i sel _ = 0"

definition total :: "instrument \<Rightarrow> attributes option \<Rightarrow> otel_op list \<Rightarrow> int" where
  "total i sel ops = sum_list (map (counted i sel) ops)"

lemma total_simps [simp]:
  "total i sel [] = 0" "total i sel (x # xs) = counted i sel x + total i sel xs"
  "total i sel (xs @ ys) = total i sel xs + total i sel ys"
  by (simp_all add: total_def)

fun is_latency :: "otel_op \<Rightarrow> bool" where
  "is_latency (OtelRecord d attrs) = True"
| "is_latency _ = False"

definition all_instruments :: bridgeObservability where
  "all_instruments =
     \<lparr>ob_tracer = True, ob_connectionsActive = True, ob_connectionsTotal = True,
      ob_upgradeFailuresTotal = True, ob_upgradeLatencyMS = True\<rparr>"

lemma session_measures [simp]: "measurements ob dur r (serve_session cfg env q) = []"
  by (simp add: serve_session_def Let_def)

lemma connected_measures [simp]: "measurements ob dur r (run_connected cfg env q) = []"
  by (simp add: run_connected_def split: option.split)

lemma upgraded_measures:
  "measurements ob dur r (run_upgraded cfg env q) =
     storeBridgeUpgradeSuccess ob dur (Some r) @ storeBridgeConnectionDelta ob (Some r) 1 @
     startBridgeSessionSpan ob (Some r) @ storeBridgeConnectionDelta ob (Some r) (- 1)"
  by (simp add: run_upgraded_def Let_def split: option.split)

text \<open>How a request ends, as far as the metrics are concerned.\<close>

definition admitted :: "BridgeConfig \<Rightarrow> bridge_env \<Rightarrow> http_request \<Rightarrow> bool" where
  "admitted cfg env r \<longleftrightarrow>
     (case Authorize cfg of None \<Rightarrow> True | Some f \<Rightarrow> \<not> env_authorize_panics env \<and> f r = None) \<and>
     env_reserve env = None \<and> env_upgrade env (buildUpgrader cfg) r"

definition authorize_panicked :: "BridgeConfig \<Rightarrow> bridge_env \<Rightarrow> bool" where
  "authorize_panicked cfg env \<longleftrightarrow> Authorize cfg \<noteq> None \<and> env_authorize_panics env"

lemma handler_measures:
  "measurements ob dur r (bridgeHandler cfg env r) =
     startBridgeRequestSpan ob (Some r) @
     (if admitted cfg env r then
        storeBridgeUpgradeSuccess ob dur (Some r) @ storeBridgeConnectionDelta ob (Some r) 1 @
        startBridgeSessionSpan ob (Some r) @ storeBridgeConnectionDelta ob (Some r) (- 1)
      else if authorize_panicked cfg env then []
      else storeBridgeUpgradeFailure ob dur (Some r))"
  by (auto simp: bridgeHandler_def run_authorized_def upgraded_measures admitted_def
      authorize_panicked_def Let_def split: option.splits)

text \<open>
  C32. The metrics add up over every run of the upgrade handler: the gauge of active connections returns
  to where it was, for every set of attributes; an admitted request counts one connection and one
  success latency, a refused one a failure and its latency, with the same attributes each time, and
  nothing is counted only when the authorization hook panics.
\<close>

theorem metrics_add_up:
  fixes cfg env r dur
  defines "ops \<equiv> measurements (Some all_instruments) dur r (bridgeHandler cfg env r)"
  shows "total Connections_Active sel ops = 0 \<and>
    total Connections_Total None ops = (if admitted cfg env r then 1 else 0) \<and>
    total Failures_Total None ops =
      (if admitted cfg env r \<or> authorize_panicked cfg env then 0 else 1) \<and>
    filter is_latency ops =
      (if authorize_panicked cfg env then []
       else [OtelRecord dur (buildBridgeMetricAttributes (Some r)
               (if admitted cfg env r then ''success'' else ''failure''))])"
  by (auto simp: ops_def handler_measures startBridgeRequestSpan_def startBridgeSessionSpan_def
      storeBridgeUpgradeSuccess_def storeBridgeUpgradeFailure_def storeBridgeUpgradeResult_def
      storeBridgeConnectionDelta_def all_instruments_def admitted_def authorize_panicked_def Let_def
      split: option.splits)

text \<open>Without a handle, or without an instrument, nothing is measured and nothing fails.\<close>

lemma no_handle_no_measurements: "measurements None dur r tr = []"
proof (induction tr)
  case (Cons e tr)
  then show ?case
    by (cases e) (simp_all add: storeBridgeUpgradeFailure_def storeBridgeUpgradeSuccess_def
        storeBridgeUpgradeResult_def storeBridgeConnectionDelta_def startBridgeRequestSpan_def
        startBridgeSessionSpan_def)
qed simp

end
