(* ===== verification/Wasm_Queue_Spec.thy ===== *)
theory Wasm_Queue_Spec
  imports Wasm_Conn
begin

text \<open>
  What the browser connection promises, without its array, its start index, its capacity and its
  byte counter: a bounded first-in first-out queue of frames. The code refines it step by step, so
  compaction, array growth and the counter are invisible.
\<close>

section \<open>The specification\<close>

record fifo =
  ff_frames :: "bytes list"
  ff_rest :: bytes
  ff_token :: bool
  ff_errors :: "wasm_error conn_error list"
  ff_closed :: bool
  ff_socket_closes :: nat

definition fifo_start :: fifo where
  "fifo_start = \<lparr>ff_frames = [], ff_rest = [], ff_token = False, ff_errors = [], ff_closed = False,
     ff_socket_closes = 0\<rparr>"

definition fifo_report :: "wasm_error conn_error \<Rightarrow> fifo \<Rightarrow> fifo" where
  "fifo_report e q =
     (if ff_closed q \<or> 4 \<le> length (ff_errors q) then q else q\<lparr>ff_errors := ff_errors q @ [e]\<rparr>)"

definition fifo_shut :: "bool \<Rightarrow> fifo \<Rightarrow> fifo" where
  "fifo_shut reading q =
     (if ff_closed q then q
      else q\<lparr>ff_closed := True, ff_frames := [], ff_rest := (if reading then ff_rest q else [])\<rparr>)"

definition fifo_socket_close :: "fifo \<Rightarrow> fifo" where
  "fifo_socket_close q = q\<lparr>ff_socket_closes := Suc (ff_socket_closes q)\<rparr>"

definition fifo_arrive :: "bool \<Rightarrow> bytes \<Rightarrow> fifo \<Rightarrow> fifo" where
  "fifo_arrive reading m q =
     (if ff_closed q then q
      else if length (ff_frames q) < 256 \<and> total_bytes (ff_frames q) + int (length m) \<le> 16 * 2 ^ 20
      then q\<lparr>ff_frames := ff_frames q @ [m], ff_token := True\<rparr>
      else fifo_socket_close (fifo_shut reading
        (fifo_report (WsError (BacklogExceeded (int (length (ff_frames q)) + 1)
           (total_bytes (ff_frames q) + int (length m)))) q)))"

text \<open>
  A read takes from the rest of a frame, then from the next frame, then an error; with none of them
  it waits. \<open>errors_first\<close> only decides whether a stale wake-up token is consumed on the way.
\<close>

definition fifo_read :: "bool \<Rightarrow> fifo \<Rightarrow> nat \<Rightarrow> fifo \<times> wasm_outcome" where
  "fifo_read errors_first q n =
     (if ff_closed q then (q, Failed NetErrClosed)
      else if ff_rest q \<noteq> [] then (q\<lparr>ff_rest := drop n (ff_rest q)\<rparr>, Got (take n (ff_rest q)))
      else case ff_frames q of
        m # ms \<Rightarrow> (q\<lparr>ff_frames := ms, ff_rest := drop n m\<rparr>, Got (take n m))
      | [] \<Rightarrow>
          (case ff_errors q of
             e # es \<Rightarrow> (q\<lparr>ff_errors := es, ff_token := (ff_token q \<and> errors_first)\<rparr>, Failed e)
           | [] \<Rightarrow> (q\<lparr>ff_token := False\<rparr>, Blocked)))"

fun fifo_step :: "wasm_event \<Rightarrow> fifo \<Rightarrow> fifo" where
  "fifo_step (Message reading (Inl ty)) q = fifo_report (WsError (UnsupportedDataType ty)) q"
| "fifo_step (Message reading (Inr m)) q = fifo_arrive reading m q"
| "fifo_step Socket_Error q = fifo_report NetErrClosed q"
| "fifo_step (Socket_Closed reading) q = fifo_shut reading q"
| "fifo_step (Read_Call errors_first n) q = fst (fifo_read errors_first q n)"
| "fifo_step (Close_Call reading) q = fifo_socket_close (fifo_shut reading q)"

section \<open>The refinement\<close>

definition abs_queue :: "browserWebSocketConnection \<Rightarrow> fifo" where
  "abs_queue c =
     \<lparr>ff_frames = pending c, ff_rest = bc_readMessageBuffer c, ff_token = bc_token c,
      ff_errors = bc_errors c, ff_closed = bc_isClosed c, ff_socket_closes = bc_socket_closes c\<rparr>"

lemma abs_report [simp]: "abs_queue (storeConnectionError e c) = fifo_report e (abs_queue c)"
  by (auto simp: abs_queue_def storeConnectionError_def fifo_report_def pending_def)

lemma abs_shut [simp]: "abs_queue (closeChannels reading c) = fifo_shut reading (abs_queue c)"
  by (simp add: abs_queue_def closeChannels_def fifo_shut_def pending_def)

lemma abs_socket_close [simp]: "abs_queue (socket_close c) = fifo_socket_close (abs_queue c)"
  by (simp add: abs_queue_def socket_close_def fifo_socket_close_def pending_def)

lemma abs_overflow:
  "abs_queue (handleConnectionQueueOverflow reading depth sz n c) =
     fifo_socket_close (fifo_shut reading
       (fifo_report (WsError (BacklogExceeded (int depth + 1) (sz + int n))) (abs_queue c)))"
  by (simp add: handleConnectionQueueOverflow_def)

lemma abs_arrive_spec:
  "\<not> bc_isClosed c \<Longrightarrow> fifo_arrive reading m (abs_queue c) =
     (if fits c m then (abs_queue c)\<lparr>ff_frames := pending c @ [m], ff_token := True\<rparr>
      else fifo_socket_close (fifo_shut reading
        (fifo_report (WsError (BacklogExceeded (int (length (pending c)) + 1)
           (total_bytes (pending c) + int (length m)))) (abs_queue c))))"
  by (simp add: fifo_arrive_def fits_def abs_queue_def limitConnectionQueuedMessages_def
      limitConnectionQueuedBytes_def)

lemma abs_arrive:
  assumes ok: "browser_ok c"
  shows "abs_queue (storeIncomingMessage grow reading m c) = fifo_arrive reading m (abs_queue c)"
proof (cases "bc_isClosed c")
  case True
  then show ?thesis by (simp add: fifo_arrive_def) (simp add: abs_queue_def)
next
  case False
  from ok have start: "bc_shiftQueueStart (clearQueuedMessagesHeadLocked c)
      \<le> length (bc_queuedMessages (clearQueuedMessagesHeadLocked c))"
    using compact_ok [OF ok] by (simp add: browser_ok_def)
  show ?thesis
  proof (cases "fits c m")
    case True
    let ?c = "clearQueuedMessagesHeadLocked c"
    have "storeIncomingMessage grow reading m c = (append_message grow m ?c)\<lparr>bc_token := True\<rparr>"
      using True store_by_fits [OF ok False] by simp
    then have "abs_queue (storeIncomingMessage grow reading m c) =
        (abs_queue c)\<lparr>ff_frames := pending c @ [m], ff_token := True\<rparr>"
      using append_message_pending [OF start, of grow m] by (simp add: abs_queue_def)
    with True False show ?thesis by (simp add: abs_arrive_spec)
  next
    case big: False
    then have "storeIncomingMessage grow reading m c =
        handleConnectionQueueOverflow reading (length (pending c)) (total_bytes (pending c)) (length m) c"
      using store_by_fits [OF ok False] by simp
    then show ?thesis using False big by (simp add: abs_overflow abs_arrive_spec)
  qed
qed

lemma abs_loop_empty:
  assumes "pending c = []" "\<not> bc_errors_closed c" "\<not> bc_isClosed c" "bc_readMessageBuffer c = []"
  shows "map_prod abs_queue id (read_loop ef c n) = fifo_read ef (abs_queue c) n"
proof -
  have no_token: "read_loop ef d n = (case bc_errors d of [] \<Rightarrow> (d, Blocked) | e # es \<Rightarrow> (d\<lparr>bc_errors := es\<rparr>, Failed e))"
    if "pending d = []" "\<not> bc_errors_closed d" "\<not> bc_token d" for d
    using that by (simp add: read_loop_token split: list.split)
  show ?thesis
    using assms no_token [of c] no_token [of "c\<lparr>bc_token := False\<rparr>"] read_loop_token [of c ef n]
    by (cases "bc_token c"; cases ef; cases "bc_errors c")
      (simp_all add: abs_queue_def fifo_read_def pending_def)
qed

lemma abs_read:
  assumes ok: "browser_ok c"
  shows "map_prod abs_queue id (browser_Read ef c n) = fifo_read ef (abs_queue c) n"
proof (cases "bc_isClosed c \<or> bc_readMessageBuffer c \<noteq> []")
  case True
  then show ?thesis by (auto simp: browser_Read_def fifo_read_def abs_queue_def pending_def)
next
  case False
  then have loop: "browser_Read ef c n = read_loop ef c n" by (simp add: browser_Read_def)
  show ?thesis
  proof (cases "pending c")
    case Nil
    with False ok loop show ?thesis by (simp add: abs_loop_empty browser_ok_def)
  next
    case (Cons m ms)
    obtain d where d: "shiftQueuedMessage c = (d, Some m)"
      "abs_queue d = (abs_queue c)\<lparr>ff_frames := ms\<rparr>"
      by (rule shift_Some [OF ok Cons]) (simp add: abs_queue_def)
    from d(1) have "read_loop ef c n =
        (if length (take n m) < length m then d\<lparr>bc_readMessageBuffer := drop n m\<rparr> else d, Got (take n m))"
      by (subst read_loop.simps) (simp add: Let_def)
    moreover have "abs_queue (d\<lparr>bc_readMessageBuffer := b\<rparr>) = (abs_queue d)\<lparr>ff_rest := b\<rparr>" for b
      by (simp add: abs_queue_def pending_def)
    ultimately show ?thesis
      using d(2) False Cons loop by (auto simp: fifo_read_def) (simp_all add: abs_queue_def)
  qed
qed

text \<open>
  C3. The connection refines the bounded queue: from the start and through every event, in any order and
  whatever the runtime's array growth, it is the queue the specification describes, and every read
  returns what a read of that queue returns.
\<close>

theorem browser_refines_fifo:
  fixes grow evs
  defines "c \<equiv> wasm_run grow evs"
  shows "abs_queue c = fold fifo_step evs fifo_start \<and>
    map_prod abs_queue id (browser_Read ef c n) = fifo_read ef (fold fifo_step evs fifo_start) n"
proof -
  have attached: "bc_attached c \<longleftrightarrow> \<not> bc_isClosed c" if "browser_ok c" for c
    using that by (simp add: browser_ok_def)
  have closed: "ff_closed q \<Longrightarrow> fifo_report e q = q" "ff_closed q \<Longrightarrow> fifo_arrive r m q = q"
    "ff_closed q \<Longrightarrow> fifo_shut r q = q" for q e r m
    by (simp_all add: fifo_report_def fifo_arrive_def fifo_shut_def)
  have abs_closed: "ff_closed (abs_queue c) \<longleftrightarrow> bc_isClosed c" for c by (simp add: abs_queue_def)
  have step: "abs_queue (wasm_step grow ev c) = fifo_step ev (abs_queue c)" if ok: "browser_ok c" for ev c
  proof (cases ev)
    case (Message r d)
    then show ?thesis using ok attached [OF ok] abs_arrive [OF ok] closed abs_closed [of c]
      by (cases d; cases "bc_isClosed c") (simp_all add: on_message_def)
  next
    case Socket_Error
    then show ?thesis using attached [OF ok] closed abs_closed [of c]
      by (cases "bc_isClosed c") (simp_all add: on_error_def)
  next
    case (Socket_Closed r)
    then show ?thesis using attached [OF ok] closed abs_closed [of c]
      by (cases "bc_isClosed c") (simp_all add: on_close_def)
  next
    case (Read_Call ef n)
    then show ?thesis using abs_read [OF ok, of ef n] by (metis fifo_step.simps(5) fst_map_prod wasm_step.simps(4))
  next
    case (Close_Call r)
    then show ?thesis by (simp add: browser_Close_def)
  qed
  have fold_abs: "abs_queue (fold (wasm_step grow) evs c) = fold fifo_step evs (abs_queue c)"
    if "browser_ok c" for c
    using that by (induction evs arbitrary: c) (simp_all add: step wasm_step_ok)
  have "abs_queue NewBrowserConn = fifo_start"
    by (simp add: abs_queue_def NewBrowserConn_def fifo_start_def pending_def)
  with fold_abs [OF browser_ok_new] have "abs_queue c = fold fifo_step evs fifo_start"
    by (simp add: c_def wasm_run_def)
  moreover have "browser_ok c" unfolding c_def by (rule wasm_run_ok)
  ultimately show ?thesis using abs_read by simp
qed

end
