(* ===== verification/Bridge_Instance.thy ===== *)
theory Bridge_Instance
  imports Bridge_Handler Abuse_Control Native_Listener Handler_Config
begin

text \<open>
  What \<open>BuildBridgeHandler\<close> (\<open>pkg/grpctunnel/server.go\<close>) allocates besides its handler: a write
  buffer pool, the guard, the native listener and its serve loop; and the servers around it. The
  handlers and dialers of a process share its cache of buffer pools.
\<close>

section \<open>Construction\<close>

record bridge_instance =
  bi_cfg :: BridgeConfig
  bi_upgrader :: Upgrader
  bi_writeBufferPool :: nat
  bi_abuseGuard :: "bridgeAbuseGuard option"
  bi_nativeListener :: "bridgeConnListener option"

definition buildBridgeInstance ::
    "pool_cache \<Rightarrow> bool \<Rightarrow> BridgeConfig \<Rightarrow> pool_cache \<times> (build_error + bridge_instance)" where
  "buildBridgeInstance pools grpcServer_nil cfg =
     (if grpcServer_nil then (pools, Inl GrpcServerRequired)
      else case GetBridgeConfigError cfg of
        Some err \<Rightarrow> (pools, Inl (InvalidConfig err))
      | None \<Rightarrow>
          (let cfg = applyBridgeKeepaliveDefaults cfg;
               upgrader = buildUpgrader cfg;
               made = tunnel_buildWebSocketWriteBufferPool pools (up_WriteBufferSize upgrader)
           in (fst made,
               Inr \<lparr>bi_cfg = cfg, bi_upgrader = upgrader, bi_writeBufferPool = snd made,
                    bi_abuseGuard = buildBridgeAbuseGuard cfg,
                    bi_nativeListener =
                      (if ShouldUseNativeGRPCTransport cfg then Some newBridgeConnListener else None)\<rparr>)))"

text \<open>The end of the serve loop: \<open>None\<close> is no error, the flag says \<open>grpc.ErrServerStopped\<close>.\<close>

definition native_serve_ended :: "bool option \<Rightarrow> h_event list" where
  "native_serve_ended err =
     (case err of
        None \<Rightarrow> []
      | Some server_stopped \<Rightarrow>
          if server_stopped then [] else [LogEvent ''WARN'' ''native_serve_stopped''])"

text \<open>The convenience functions: the call of \<open>net/http\<close> each of them makes.\<close>

datatype 'l serve_call =
    ServesOn 'l http_server
  | Listens http_server
  | ListensTLS string string http_server

definition Serve :: "'l \<Rightarrow> bool \<Rightarrow> ServerOption list \<Rightarrow> 'l serve_call" where
  "Serve listener grpcServer_nil opts = ServesOn listener (NewServer [] grpcServer_nil opts)"

definition ListenAndServe :: "string \<Rightarrow> bool \<Rightarrow> ServerOption list \<Rightarrow> 'l serve_call" where
  "ListenAndServe addr grpcServer_nil opts = Listens (NewServer addr grpcServer_nil opts)"

definition ListenAndServeTLS ::
    "string \<Rightarrow> string \<Rightarrow> string \<Rightarrow> bool \<Rightarrow> ServerOption list \<Rightarrow> 'l serve_call" where
  "ListenAndServeTLS addr certFile keyFile grpcServer_nil opts =
     ListensTLS certFile keyFile (NewServer addr grpcServer_nil opts)"

text \<open>The handler served is that of the instance, and a failed construction allocates nothing.\<close>

lemma instance_handler:
  "map_sum id (bridgeHandler \<circ> bi_cfg) (snd (buildBridgeInstance pools nogrpc cfg)) = BuildBridgeHandler nogrpc cfg"
  by (simp add: buildBridgeInstance_def BuildBridgeHandler_def Let_def split: option.split)

lemma failed_instance: "snd (buildBridgeInstance pools nogrpc cfg) = Inl e \<Longrightarrow> fst (buildBridgeInstance pools nogrpc cfg) = pools"
  by (auto simp: buildBridgeInstance_def Let_def split: if_splits option.splits)

section \<open>Shared buffer pools\<close>

text \<open>The pools handed out for a sequence of sizes, to handlers and dialers alike.\<close>

fun pools_for :: "pool_cache \<Rightarrow> int list \<Rightarrow> pool_cache \<times> nat list" where
  "pools_for c [] = (c, [])"
| "pools_for c (n # ns) =
     (let (c', p) = tunnel_buildWebSocketWriteBufferPool c n; (c'', ps) = pools_for c' ns in (c'', p # ps))"

definition pool_size :: "int \<Rightarrow> int" where
  "pool_size n = (if n \<le> 0 then defaultWebSocketBufferSize else n)"

definition no_pools :: pool_cache where
  "no_pools = \<lparr>cached_pools = Map.empty, pools_made = 0\<rparr>"

lemma build_pool_cases:
  assumes "tunnel_buildWebSocketWriteBufferPool c n = (c', p)"
  obtains (uncached) "\<not> tunnel_isCacheableWebSocketWriteBufferSize (pool_size n)" "p = pools_made c"
      "c' = c\<lparr>pools_made := Suc (pools_made c)\<rparr>"
  | (hit) "tunnel_isCacheableWebSocketWriteBufferSize (pool_size n)" "cached_pools c (pool_size n) = Some p" "c' = c"
  | (miss) "tunnel_isCacheableWebSocketWriteBufferSize (pool_size n)" "cached_pools c (pool_size n) = None"
      "p = pools_made c"
      "c' = c\<lparr>pools_made := Suc (pools_made c), cached_pools := (cached_pools c)(pool_size n \<mapsto> p)\<rparr>"
  using assms
  by (auto simp: tunnel_buildWebSocketWriteBufferPool_def pool_size_def Let_def split: if_splits option.splits)

lemma pools_for_ok: "pool_cache_ok c \<Longrightarrow> pool_cache_ok (fst (pools_for c ns))"
proof (induction ns arbitrary: c)
  case (Cons n ns)
  obtain c' p where b: "tunnel_buildWebSocketWriteBufferPool c n = (c', p)" by fastforce
  from pool_cache_ok_build [OF Cons.prems] b have "pool_cache_ok c'" by (simp add: tunnel_pools_same)
  from Cons.IH [OF this] b show ?case by (simp add: split_beta)
qed simp

lemma length_pools_for [simp]: "length (snd (pools_for c ns)) = length ns"
  by (induction ns arbitrary: c) (simp_all add: split_beta Let_def)

text \<open>A pool handed out is fresh or the one cached for its size; a cached size keeps its pool.\<close>

lemma pools_for_nth:
  "pool_cache_ok c \<Longrightarrow> i < length ns \<Longrightarrow>
   (pools_made c \<le> snd (pools_for c ns) ! i \<or> cached_pools c (pool_size (ns ! i)) = Some (snd (pools_for c ns) ! i)) \<and>
   (\<forall>q. cached_pools c (pool_size (ns ! i)) = Some q \<longrightarrow> snd (pools_for c ns) ! i = q)"
proof (induction ns arbitrary: c i)
  case (Cons n ns)
  obtain c' p where b: "tunnel_buildWebSocketWriteBufferPool c n = (c', p)" by fastforce
  from pool_cache_ok_build [OF Cons.prems(1)] b have ok': "pool_cache_ok c'" by (simp add: tunnel_pools_same)
  show ?case
  proof (cases i)
    case 0
    from b show ?thesis
      using Cons.prems(1) by (cases rule: build_pool_cases)
        (auto simp: 0 b split_beta Let_def pool_cache_ok_def tunnel_isCacheableWebSocketWriteBufferSize_def
          isCacheableWebSocketWriteBufferSize_def defaultWebSocketBufferSize_def
          parseDefaultWebSocketBufferSize_def)
  next
    case (Suc j)
    with Cons.prems(2) have "j < length ns" by simp
    note IH = Cons.IH [OF ok' this]
    have eq: "snd (pools_for c (n # ns)) ! i = snd (pools_for c' ns) ! j" by (simp add: b Suc split_beta)
    from b show ?thesis unfolding eq using IH
      by (cases rule: build_pool_cases) (auto simp: Suc split: if_splits)
  qed
qed simp

lemma pools_for_pair:
  assumes "pool_cache_ok c" and "i < j" and "j < length ns"
  shows "snd (pools_for c ns) ! i = snd (pools_for c ns) ! j \<longleftrightarrow>
    pool_size (ns ! i) = pool_size (ns ! j) \<and> tunnel_isCacheableWebSocketWriteBufferSize (pool_size (ns ! i))"
  using assms
proof (induction ns arbitrary: c i j)
  case (Cons n ns)
  obtain c' p where b: "tunnel_buildWebSocketWriteBufferPool c n = (c', p)" by fastforce
  from pool_cache_ok_build [OF Cons.prems(1)] b have ok': "pool_cache_ok c'" by (simp add: tunnel_pools_same)
  from Cons.prems obtain k where j: "j = Suc k" "k < length ns" by (cases j) auto
  have later: "snd (pools_for c (n # ns)) ! Suc m = snd (pools_for c' ns) ! m" for m by (simp add: b split_beta)
  show ?case
  proof (cases i)
    case (Suc m)
    with Cons.IH [OF ok', of m k] Cons.prems j show ?thesis by (simp add: later del: pools_for.simps)
  next
    case 0
    note kth = pools_for_nth [OF ok' j(2)]
    have inj: "cached_pools c' s = Some q \<Longrightarrow> cached_pools c' t = Some q \<Longrightarrow> s = t" for s t q
      using ok' by (auto simp: pool_cache_ok_def inj_on_def domIff)
    have old: "cached_pools c s = Some q \<Longrightarrow> q < pools_made c" for s q
      using Cons.prems(1) by (auto simp: pool_cache_ok_def)
    have first: "snd (pools_for c (n # ns)) ! 0 = p" by (simp add: b split_beta)
    have cached: "p = snd (pools_for c' ns) ! k \<longleftrightarrow> pool_size n = pool_size (ns ! k) \<and>
        tunnel_isCacheableWebSocketWriteBufferSize (pool_size n)"
      if "cached_pools c' (pool_size n) = Some p" "p < pools_made c'"
        "tunnel_isCacheableWebSocketWriteBufferSize (pool_size n)"
    proof
      assume "p = snd (pools_for c' ns) ! k"
      with conjunct1 [OF kth] that(2) have "cached_pools c' (pool_size (ns ! k)) = Some p" by (simp del: pools_for.simps)
      from inj [OF that(1) this] that(3) show "pool_size n = pool_size (ns ! k) \<and>
          tunnel_isCacheableWebSocketWriteBufferSize (pool_size n)" by simp
    qed (use conjunct2 [OF kth] that(1) in simp)
    from b have "p = snd (pools_for c' ns) ! k \<longleftrightarrow>
        pool_size n = pool_size (ns ! k) \<and> tunnel_isCacheableWebSocketWriteBufferSize (pool_size n)"
    proof (cases rule: build_pool_cases)
      case uncached
      have "p \<noteq> snd (pools_for c' ns) ! k"
        using conjunct1 [OF kth] uncached(2,3) old [of "pool_size (ns ! k)"] by (auto simp del: pools_for.simps)
      with uncached(1) show ?thesis by simp
    next
      case hit
      then show ?thesis using old by (intro cached) simp_all
    next
      case miss
      then show ?thesis by (intro cached) simp_all
    qed
    then show ?thesis by (simp add: 0 j(1) later first del: pools_for.simps)
  qed
qed simp

text \<open>
  However many handlers and dialers a process builds, with whatever buffer sizes, at most five pools
  are kept; two of them share a pool exactly when they ask for the same cacheable size, so a buffer
  never comes back with another size.
\<close>

theorem equal_sizes_share_pools:
  assumes "i < j" and "j < length ns"
  shows "card (dom (cached_pools (fst (pools_for no_pools ns)))) \<le> 5 \<and>
    (snd (pools_for no_pools ns) ! i = snd (pools_for no_pools ns) ! j \<longleftrightarrow>
     pool_size (ns ! i) = pool_size (ns ! j) \<and> tunnel_isCacheableWebSocketWriteBufferSize (pool_size (ns ! i)))"
proof -
  have ok: "pool_cache_ok no_pools" by (simp add: pool_cache_ok_def no_pools_def)
  have "dom (cached_pools (fst (pools_for no_pools ns))) \<subseteq> set [4096, 8 * 1024, 16 * 1024, 32 * 1024, 64 * 1024]"
    using pools_for_ok [OF ok, of ns]
    by (force simp: pool_cache_ok_def isCacheableWebSocketWriteBufferSize_def parseDefaultWebSocketBufferSize_def)
  from card_mono [OF finite_set this] card_length [of "[4096, 8 * 1024, 16 * 1024, 32 * 1024, 64 * 1024 :: int]"]
  have "card (dom (cached_pools (fst (pools_for no_pools ns)))) \<le> 5" by simp
  with pools_for_pair [OF ok assms] show ?thesis by blast
qed

theorem equal_sizes_share_pools_witness:
  "snd (pools_for no_pools [0, 1000, 4096, 1000]) ! 0 = snd (pools_for no_pools [0, 1000, 4096, 1000]) ! 2 \<and>
   snd (pools_for no_pools [0, 1000, 4096, 1000]) ! 1 \<noteq> snd (pools_for no_pools [0, 1000, 4096, 1000]) ! 3"
  using equal_sizes_share_pools [of 0 2 "[0, 1000, 4096, 1000]"]
    equal_sizes_share_pools [of 1 3 "[0, 1000, 4096, 1000]"]
  by (simp add: pool_size_def defaultWebSocketBufferSize_def tunnel_isCacheableWebSocketWriteBufferSize_def
      del: pools_for.simps)

end
