(* ===== verification/Api_Guard.thy ===== *)
theory Api_Guard
  imports Go_Strings "HOL-Library.Char_ord" "HOL-Library.List_Lexorder" "HOL-Library.Multiset"
begin

text \<open>
  The API compatibility guard (\<open>src/tools/api_compat_guard/main.go\<close>): it collects the exported names
  of the guarded packages, and fails when a name of the stored baseline is gone. Parsing Go, reading
  files and JSON are the environment: a directory is its files with their parsed declarations, the
  documents are a map from paths to contents, the baseline is what JSON decodes to. \<open>exported\<close> is
  \<open>ast.IsExported\<close>.
\<close>

section \<open>Exported symbols\<close>

datatype ast_expr =
    StarExpr ast_expr
  | Ident string
  | IndexExpr ast_expr
  | IndexListExpr ast_expr
  | SelectorExpr string
  | OtherExpr

datatype ast_spec = TypeSpec string | ValueSpec "string list" | OtherSpec
datatype ast_tok = TYPE_tok | CONST_tok | VAR_tok | OTHER_tok
datatype ast_decl = GenDecl ast_tok "ast_spec list" | FuncDecl string "ast_expr list" | OtherDecl

fun getAPIGuardReceiverTypeName :: "ast_expr \<Rightarrow> string" where
  "getAPIGuardReceiverTypeName (StarExpr x) = ''*'' @ getAPIGuardReceiverTypeName x"
| "getAPIGuardReceiverTypeName (Ident n) = n"
| "getAPIGuardReceiverTypeName (IndexExpr x) = getAPIGuardReceiverTypeName x"
| "getAPIGuardReceiverTypeName (IndexListExpr x) = getAPIGuardReceiverTypeName x"
| "getAPIGuardReceiverTypeName (SelectorExpr n) = n"
| "getAPIGuardReceiverTypeName OtherExpr = ''unknown''"

fun store_type_specs :: "(string \<Rightarrow> bool) \<Rightarrow> ast_spec list \<Rightarrow> string set \<Rightarrow> string set" where
  "store_type_specs exported [] acc = acc"
| "store_type_specs exported (TypeSpec n # specs) acc =
     store_type_specs exported specs (if \<not> exported n then acc else insert (''type '' @ n) acc)"
| "store_type_specs exported (_ # specs) acc = store_type_specs exported specs acc"

fun store_value_specs :: "(string \<Rightarrow> bool) \<Rightarrow> string \<Rightarrow> ast_spec list \<Rightarrow> string set \<Rightarrow> string set" where
  "store_value_specs exported word [] acc = acc"
| "store_value_specs exported word (ValueSpec ns # specs) acc =
     store_value_specs exported word specs
       (fold (\<lambda>n acc. if exported n then insert (word @ n) acc else acc) ns acc)"
| "store_value_specs exported word (_ # specs) acc = store_value_specs exported word specs acc"

definition storeAPIGuardGenDeclarationSymbols ::
    "(string \<Rightarrow> bool) \<Rightarrow> ast_tok \<Rightarrow> ast_spec list \<Rightarrow> string set \<Rightarrow> string set" where
  "storeAPIGuardGenDeclarationSymbols exported tok specs acc =
     (case tok of
        TYPE_tok \<Rightarrow> store_type_specs exported specs acc
      | CONST_tok \<Rightarrow> store_value_specs exported ''const '' specs acc
      | VAR_tok \<Rightarrow> store_value_specs exported ''var '' specs acc
      | OTHER_tok \<Rightarrow> acc)"

definition storeAPIGuardFuncDeclarationSymbol ::
    "(string \<Rightarrow> bool) \<Rightarrow> string \<Rightarrow> ast_expr list \<Rightarrow> string set \<Rightarrow> string set" where
  "storeAPIGuardFuncDeclarationSymbol exported n recv acc =
     (if \<not> exported n then acc
      else case recv of
        [] \<Rightarrow> insert (''func '' @ n) acc
      | r # _ \<Rightarrow> insert (''method ('' @ getAPIGuardReceiverTypeName r @ '') '' @ n) acc)"

fun storeAPIGuardDeclarationSymbols :: "(string \<Rightarrow> bool) \<Rightarrow> ast_decl \<Rightarrow> string set \<Rightarrow> string set" where
  "storeAPIGuardDeclarationSymbols exported (GenDecl tok specs) acc =
     storeAPIGuardGenDeclarationSymbols exported tok specs acc"
| "storeAPIGuardDeclarationSymbols exported (FuncDecl n recv) acc =
     storeAPIGuardFuncDeclarationSymbol exported n recv acc"
| "storeAPIGuardDeclarationSymbols exported OtherDecl acc = acc"

text \<open>A file that does not parse has no declarations; one of them fails the directory.\<close>

type_synonym go_file = "string \<times> ast_decl list option"

definition guarded_file :: "string \<Rightarrow> bool" where
  "guarded_file n =
     (let n = strings_TrimSpace n in
      if strings_HasSuffix n ''_test.go'' then False else strings_HasSuffix n ''.go'')"

definition package_decls :: "go_file list \<Rightarrow> ast_decl list" where
  "package_decls files = concat (map (\<lambda>f. case snd f of None \<Rightarrow> [] | Some ds \<Rightarrow> ds)
     (filter (\<lambda>f. guarded_file (fst f)) files))"

definition buildAPIGuardPackageSymbols :: "(string \<Rightarrow> bool) \<Rightarrow> go_file list \<Rightarrow> string list option" where
  "buildAPIGuardPackageSymbols exported files =
     (if list_ex (\<lambda>f. guarded_file (fst f) \<and> snd f = None) files then None
      else Some (sorted_list_of_set
        (fold (storeAPIGuardDeclarationSymbols exported) (package_decls files) {})))"

fun buildAPIGuardPackageSymbolMap ::
    "(string \<Rightarrow> bool) \<Rightarrow> (string \<Rightarrow> go_file list) \<Rightarrow> string list \<Rightarrow> (string \<times> string list) list option" where
  "buildAPIGuardPackageSymbolMap exported dir [] = Some []"
| "buildAPIGuardPackageSymbolMap exported dir (p # ps) =
     (case buildAPIGuardPackageSymbols exported (dir p) of
        None \<Rightarrow> None
      | Some syms \<Rightarrow> map_option (\<lambda>rest. (p, syms) # rest) (buildAPIGuardPackageSymbolMap exported dir ps))"

section \<open>The checks\<close>

datatype guard_outcome =
    GuardPassed nat
  | BaselineStored "(string \<times> string list) list"
  | MissingSymbols "string list"
  | MissingSection string string
  | NoDocument "string list"
  | PackageUnreadable
  | BaselineUnreadable
  | UnknownCommand string

fun getAPIGuardDocumentationPath :: "(string \<Rightarrow> string option) \<Rightarrow> string list \<Rightarrow> string option" where
  "getAPIGuardDocumentationPath docs [] = None"
| "getAPIGuardDocumentationPath docs (p # ps) =
     (if docs p \<noteq> None then Some p else getAPIGuardDocumentationPath docs ps)"

definition doc_checks :: "(string list \<times> string list) list" where
  "doc_checks =
     [([''docs/core/API_COMPATIBILITY.md'', ''API_COMPATIBILITY.md''],
       [''## Deprecation Lifecycle'', ''## CI and Release Enforcement'']),
      ([''docs/core/MIGRATION.md'', ''MIGRATION.md''], [''## Old to New Mapping''])]"

fun doc_loop :: "(string \<Rightarrow> string option) \<Rightarrow> (string list \<times> string list) list \<Rightarrow> guard_outcome option" where
  "doc_loop docs [] = None"
| "doc_loop docs ((paths, patterns) # checks) =
     (case getAPIGuardDocumentationPath docs paths of
        None \<Rightarrow> Some (NoDocument paths)
      | Some p \<Rightarrow>
          (case find (\<lambda>s. \<not> strings_Contains (default_to [] (docs p)) s) patterns of
             Some s \<Rightarrow> Some (MissingSection p s)
           | None \<Rightarrow> doc_loop docs checks))"

definition handleAPIGuardDocumentationCheck :: "(string \<Rightarrow> string option) \<Rightarrow> guard_outcome option" where
  "handleAPIGuardDocumentationCheck docs = doc_loop docs doc_checks"

text \<open>The baseline's packages come in the order in which Go iterates over the decoded map.\<close>

definition missing_of :: "(string \<times> string list) list \<Rightarrow> string \<times> string list \<Rightarrow> string list" where
  "missing_of current b =
     map (\<lambda>s. fst b @ ''::'' @ s)
       (filter (\<lambda>s. s \<notin> set (default_to [] (map_of current (fst b)))) (snd b))"

definition handleAPIGuardBaselineCheck ::
    "(string \<times> string list) list option \<Rightarrow> (string \<times> string list) list \<Rightarrow> guard_outcome" where
  "handleAPIGuardBaselineCheck baseline current =
     (case baseline of
        None \<Rightarrow> BaselineUnreadable
      | Some base \<Rightarrow>
          (let missing = concat (map (missing_of current) base) in
           if missing \<noteq> [] then MissingSymbols (sort missing) else GuardPassed (length base)))"

definition guarded_packages :: "string list" where
  "guarded_packages = [''pkg/grpctunnel'', ''pkg/bridge'']"

definition handleAPIGuardMain ::
    "(string \<Rightarrow> bool) \<Rightarrow> (string \<Rightarrow> go_file list) \<Rightarrow> (string \<Rightarrow> string option) \<Rightarrow>
     (string \<times> string list) list option \<Rightarrow> string list \<Rightarrow> guard_outcome" where
  "handleAPIGuardMain exported dir docs baseline args =
     (let cmd = (case args of [] \<Rightarrow> ''check'' | a # _ \<Rightarrow> strings_TrimSpace a)
      in case buildAPIGuardPackageSymbolMap exported dir guarded_packages of
           None \<Rightarrow> PackageUnreadable
         | Some symbols \<Rightarrow>
             if cmd = ''check'' then
               (case handleAPIGuardDocumentationCheck docs of
                  Some e \<Rightarrow> e
                | None \<Rightarrow> handleAPIGuardBaselineCheck baseline symbols)
             else if cmd = ''update'' then BaselineStored symbols
             else UnknownCommand cmd)"

section \<open>What is collected\<close>

text \<open>The symbols of a declaration, read off it without an accumulator.\<close>

fun spec_symbols :: "(string \<Rightarrow> bool) \<Rightarrow> ast_tok \<Rightarrow> ast_spec \<Rightarrow> string set" where
  "spec_symbols exported TYPE_tok (TypeSpec n) = (if exported n then {''type '' @ n} else {})"
| "spec_symbols exported CONST_tok (ValueSpec ns) = {''const '' @ n | n. n \<in> set ns \<and> exported n}"
| "spec_symbols exported VAR_tok (ValueSpec ns) = {''var '' @ n | n. n \<in> set ns \<and> exported n}"
| "spec_symbols exported _ _ = {}"

fun decl_symbols :: "(string \<Rightarrow> bool) \<Rightarrow> ast_decl \<Rightarrow> string set" where
  "decl_symbols exported (GenDecl tok specs) = \<Union> (spec_symbols exported tok ` set specs)"
| "decl_symbols exported (FuncDecl n []) = (if exported n then {''func '' @ n} else {})"
| "decl_symbols exported (FuncDecl n (r # rs)) =
     (if exported n then {''method ('' @ getAPIGuardReceiverTypeName r @ '') '' @ n} else {})"
| "decl_symbols exported OtherDecl = {}"

definition package_symbols :: "(string \<Rightarrow> bool) \<Rightarrow> go_file list \<Rightarrow> string set" where
  "package_symbols exported files = \<Union> (decl_symbols exported ` set (package_decls files))"

lemma type_specs: "store_type_specs exported specs acc = acc \<union> \<Union> (spec_symbols exported TYPE_tok ` set specs)"
  by (induction exported specs acc rule: store_type_specs.induct) auto

lemma fold_names:
  "fold (\<lambda>n acc. if exported n then insert (w @ n) acc else acc) ns acc = acc \<union> {w @ n | n. n \<in> set ns \<and> exported n}"
  by (induction ns arbitrary: acc) auto

lemma const_specs:
  "store_value_specs exported ''const '' specs acc = acc \<union> \<Union> (spec_symbols exported CONST_tok ` set specs)"
  by (induction exported "''const ''" specs acc rule: store_value_specs.induct) (auto simp: fold_names)

lemma var_specs:
  "store_value_specs exported ''var '' specs acc = acc \<union> \<Union> (spec_symbols exported VAR_tok ` set specs)"
  by (induction exported "''var ''" specs acc rule: store_value_specs.induct) (auto simp: fold_names)

lemma no_specs: "spec_symbols exported OTHER_tok sp = {}"
  by (cases sp) simp_all

lemma decl_stored: "storeAPIGuardDeclarationSymbols exported d acc = acc \<union> decl_symbols exported d"
  by (cases "(exported, d)" rule: decl_symbols.cases)
    (auto simp: storeAPIGuardGenDeclarationSymbols_def storeAPIGuardFuncDeclarationSymbol_def
      type_specs const_specs var_specs no_specs split: ast_tok.splits)

lemma decls_stored:
  "fold (storeAPIGuardDeclarationSymbols exported) ds acc = acc \<union> \<Union> (decl_symbols exported ` set ds)"
  by (induction ds arbitrary: acc) (auto simp: decl_stored)

lemma finite_symbols: "finite (decl_symbols exported d)"
proof -
  have "finite (spec_symbols exported tok sp)" for tok sp
    by (cases "(exported, tok, sp)" rule: spec_symbols.cases) auto
  then show ?thesis by (cases "(exported, d)" rule: decl_symbols.cases) auto
qed

lemma package_symbols_built:
  "buildAPIGuardPackageSymbols exported files = Some syms \<Longrightarrow>
   set syms = package_symbols exported files \<and> sorted syms \<and> distinct syms"
  by (auto simp: buildAPIGuardPackageSymbols_def decls_stored package_symbols_def finite_symbols
      split: if_splits)

lemma symbol_map_built:
  "buildAPIGuardPackageSymbolMap exported dir ps = Some m \<Longrightarrow>
   map fst m = ps \<and> list_all (\<lambda>x. buildAPIGuardPackageSymbols exported (dir (fst x)) = Some (snd x)) m"
  by (induction ps arbitrary: m) (auto split: option.splits)

lemma symbol_map_entry:
  assumes "buildAPIGuardPackageSymbolMap exported dir ps = Some m" and "x \<in> set m"
  shows "fst x \<in> set ps" and "set (snd x) = package_symbols exported (dir (fst x))"
  using symbol_map_built [OF assms(1)] assms(2) package_symbols_built by (fastforce simp: list_all_iff)+

lemma symbol_map_lookup:
  assumes m: "buildAPIGuardPackageSymbolMap exported dir ps = Some m" and "distinct ps" and "p \<in> set ps"
  obtains x where "x \<in> set m" and "fst x = p" and "map_of m p = Some (snd x)"
proof -
  from symbol_map_built [OF m] assms(2,3) obtain x where x: "x \<in> set m" "fst x = p" and "distinct (map fst m)"
    by force
  then have "map_of m p = Some (snd x)" by (metis map_of_is_SomeI prod.collapse)
  with x show thesis by (rule that)
qed

lemma set_missing_of:
  assumes "buildAPIGuardPackageSymbolMap exported dir ps = Some m" and "distinct ps" and "fst x \<in> set ps"
  shows "set (missing_of m x) = {fst x @ ''::'' @ s | s. s \<in> set (snd x) \<and> s \<notin> package_symbols exported (dir (fst x))}"
proof -
  from symbol_map_lookup [OF assms] obtain y where "y \<in> set m" "fst y = fst x" "map_of m (fst x) = Some (snd y)" .
  with symbol_map_entry(2) [OF assms(1), of y]
  have "set (default_to [] (map_of m (fst x))) = package_symbols exported (dir (fst x))" by simp
  then show ?thesis by (auto simp: missing_of_def)
qed

section \<open>What the guard guarantees\<close>

definition gone :: "(string \<Rightarrow> bool) \<Rightarrow> (string \<Rightarrow> go_file list) \<Rightarrow> (string \<Rightarrow> go_file list) \<Rightarrow> string set" where
  "gone exported old new =
     {p @ ''::'' @ s | p s. p \<in> set guarded_packages \<and>
        s \<in> package_symbols exported (old p) \<and> s \<notin> package_symbols exported (new p)}"

text \<open>What a check against a stored baseline finds missing, in whatever order it visits the packages.\<close>

lemma missing_is_gone:
  assumes b: "buildAPIGuardPackageSymbolMap exported old guarded_packages = Some base"
    and c: "buildAPIGuardPackageSymbolMap exported to guarded_packages = Some cur"
    and same: "set base' = set base"
  shows "set (concat (map (missing_of cur) base')) = gone exported old to"
proof -
  have d: "distinct guarded_packages" by (simp add: guarded_packages_def)
  have "set (concat (map (missing_of cur) base')) = (\<Union>x \<in> set base. set (missing_of cur x))" by (simp add: same)
  also have "\<dots> = (\<Union>x \<in> set base. {fst x @ ''::'' @ s | s. s \<in> package_symbols exported (old (fst x)) \<and>
      s \<notin> package_symbols exported (to (fst x))})"
    using set_missing_of [OF c d] symbol_map_entry [OF b] by (intro SUP_cong refl) auto
  also have "\<dots> = (\<Union>p \<in> fst ` set base. {p @ ''::'' @ s | s. s \<in> package_symbols exported (old p) \<and>
      s \<notin> package_symbols exported (to p)})"
    by blast
  also have "fst ` set base = set guarded_packages"
    using symbol_map_built [OF b] by (metis list.set_map)
  finally show ?thesis by (auto simp: gone_def)
qed

text \<open>
  C36. A baseline stored from one state of the repository, read back by JSON with its packages in any
  order, and checked against another: with the documents in place the check passes exactly when no
  exported name of the guarded packages is gone, and otherwise its report is the sorted list of
  exactly the names that are. New names never fail it; the state it was stored from passes.
\<close>

theorem api_guard_reports_removals:
  assumes stored: "handleAPIGuardMain exported old docs0 b0 [''update''] = BaselineStored base"
    and json: "mset base' = mset base"
    and readable: "buildAPIGuardPackageSymbolMap exported new guarded_packages \<noteq> None"
    and docs: "handleAPIGuardDocumentationCheck docs = None"
  defines "result \<equiv> handleAPIGuardMain exported new docs (Some base') []"
  shows "(if gone exported old new = {} then result = GuardPassed 2
      else \<exists>report. result = MissingSymbols report \<and> set report = gone exported old new \<and> sorted report) \<and>
    handleAPIGuardMain exported old docs (Some base') [''check''] = GuardPassed 2"
proof -
  have trims: "strings_TrimSpace ''update'' = ''update''" "strings_TrimSpace ''check'' = ''check''"
    by code_simp+
  from stored have b: "buildAPIGuardPackageSymbolMap exported old guarded_packages = Some base"
    by (simp add: handleAPIGuardMain_def trims Let_def split: option.splits)
  have "length base = 2" using symbol_map_built [OF b] by (auto simp: guarded_packages_def dest: arg_cong [of _ _ length])
  with json have len: "length base' = 2" and same: "set base' = set base"
    using mset_eq_length mset_eq_setD by metis+
  note missing = missing_is_gone [OF b _ same]
  have check: "handleAPIGuardBaselineCheck (Some base') cur =
      (if gone exported old to = {} then GuardPassed 2
       else MissingSymbols (sort (concat (map (missing_of cur) base'))))"
    if "buildAPIGuardPackageSymbolMap exported to guarded_packages = Some cur" for cur to
    using missing [OF that] len unfolding handleAPIGuardBaselineCheck_def
    by (simp only: Let_def option.case set_empty [symmetric]) auto
  obtain cur where cur: "buildAPIGuardPackageSymbolMap exported new guarded_packages = Some cur"
    using readable by blast
  have "gone exported old old = {}" by (auto simp: gone_def)
  with check [OF b] b docs have "handleAPIGuardMain exported old docs (Some base') [''check''] = GuardPassed 2"
    by (simp add: handleAPIGuardMain_def trims Let_def)
  moreover have "result = (if gone exported old new = {} then GuardPassed 2
      else MissingSymbols (sort (concat (map (missing_of cur) base'))))"
    using check [OF cur] cur docs by (simp add: result_def handleAPIGuardMain_def Let_def)
  ultimately show ?thesis using missing [OF cur] by auto
qed

definition starts_upper :: "string \<Rightarrow> bool" where
  "starts_upper n = (case n of [] \<Rightarrow> False | c # cs \<Rightarrow> c \<in> set ''ABCDEFGHIJKLMNOPQRSTUVWXYZ'')"

abbreviation dial_package :: "string \<Rightarrow> string \<Rightarrow> go_file list" where
  "dial_package n p \<equiv> [(''client.go'', Some [FuncDecl n []]), (''client_test.go'', None)]"

abbreviation both_documents :: "string \<Rightarrow> string option" where
  "both_documents p \<equiv>
     if p = ''MIGRATION.md'' then Some ''## Old to New Mapping''
     else if p = ''API_COMPATIBILITY.md'' then Some ''## Deprecation Lifecycle ## CI and Release Enforcement''
     else None"

theorem api_guard_reports_removals_witness:
  "\<exists>report. handleAPIGuardMain starts_upper (dial_package ''dial'') both_documents
     (Some [(''pkg/bridge'', [''func Dial'']), (''pkg/grpctunnel'', [''func Dial''])]) [] = MissingSymbols report \<and>
   set report = {''pkg/grpctunnel::func Dial'', ''pkg/bridge::func Dial''} \<and> sorted report"
proof -
  have stored: "handleAPIGuardMain starts_upper (dial_package ''Dial'') both_documents None [''update''] =
      BaselineStored [(''pkg/grpctunnel'', [''func Dial'']), (''pkg/bridge'', [''func Dial''])]"
    by code_simp
  have docs: "handleAPIGuardDocumentationCheck both_documents = None" by code_simp
  have readable: "buildAPIGuardPackageSymbolMap starts_upper (dial_package ''dial'') guarded_packages \<noteq> None"
    by (simp add: guarded_packages_def buildAPIGuardPackageSymbols_def guarded_file_def) code_simp
  have gone: "gone starts_upper (dial_package ''Dial'') (dial_package ''dial'') =
      {''pkg/grpctunnel::func Dial'', ''pkg/bridge::func Dial''}"
    by (auto simp: gone_def package_symbols_def package_decls_def guarded_file_def guarded_packages_def
        starts_upper_def) code_simp+
  show ?thesis
    using api_guard_reports_removals [OF stored _ readable docs,
        of "[(''pkg/bridge'', [''func Dial'']), (''pkg/grpctunnel'', [''func Dial''])]"]
    unfolding gone by simp
qed

text \<open>
  The files of both builds are parsed together: a name that leaves the browser build alone is not
  reported as long as the other build has it.
\<close>

lemma build_variants_merged:
  "gone starts_upper
     (\<lambda>p. [(''client.go'', Some [FuncDecl ''Dial'' []]), (''client_wasm.go'', Some [FuncDecl ''Dial'' []])])
     (\<lambda>p. [(''client.go'', Some [FuncDecl ''Dial'' []]), (''client_wasm.go'', Some [])]) = {}"
proof -
  have "guarded_file ''client.go''" by code_simp
  then show ?thesis by (auto simp: gone_def package_symbols_def package_decls_def)
qed

end
