(* ===== verification/Runner.thy ===== *)
theory Runner
  imports Prelude Go_Float "HOL-Library.State_Monad" "HOL-Library.Char_ord" "HOL-Library.List_Lexorder" "HOL-Library.Multiset"
begin

text \<open>
  The repository's task runner (\<open>tools/runner.go\<close>), its frame: the processes and files it uses,
  the environment it gives to processes, the commands and their dispatch. The operating system is
  an oracle: what an action answers may depend on everything done before.
\<close>

section \<open>Actions and their answers\<close>

text \<open>A path is a base directory and the names joined to it.\<close>

datatype path = Path string "string list"

fun filepath_Join :: "path \<Rightarrow> string list \<Rightarrow> path" where
  "filepath_Join (Path base names) elems = Path base (names @ elems)"

datatype proc = Proc (pr_dir: path) (pr_env: "string list") (pr_name: string) (pr_args: "string list")

text \<open>
  \<open>Run True\<close> captures the output of a process, \<open>Run False\<close> lets it through. \<open>Report\<close> prints a line
  with numbers, \<open>Wait\<close> is a timer that can lose to the cancellation of the context.
\<close>

datatype action =
    Run bool proc
  | LookPath string
  | Stat path
  | ReadFile path
  | WriteFile path string
  | MkdirAll path
  | MkdirTemp string
  | RemoveAll path
  | Remove path
  | Chmod path
  | Print string
  | Report string "float64 list"
  | Wait

datatype reply = Done string | Not_Exist | Fails string

fun rp_ok :: "reply \<Rightarrow> bool" where
  "rp_ok (Done s) = True"
| "rp_ok r = False"

fun rp_out :: "reply \<Rightarrow> string" where
  "rp_out (Done s) = s"
| "rp_out (Fails s) = s"
| "rp_out Not_Exist = []"

text \<open>The machine: the environment, the platform, and the oracle.\<close>

record shell =
  sh_environ :: "string list"
  sh_goos :: string
  sh_goarch :: string
  sh_answer :: "action list \<Rightarrow> action \<Rightarrow> reply"

type_synonym history = "action list"

datatype run_error =
    RootNotFound
  | RootInvalid path
  | UnknownCommand string
  | BinaryMissing string
  | ProcessFailed string "string list"
  | FileFailed string path
  | Cancelled
  | GateFailed string
  | ParseFailed string
  | Wrapped string run_error

type_synonym 'a run = "(history, run_error + 'a) state"

definition succeed :: "'a \<Rightarrow> 'a run" where
  "succeed x = State_Monad.return (Inr x)"

definition fail_with :: "run_error \<Rightarrow> 'a run" where
  "fail_with e = State_Monad.return (Inl e)"

text \<open>\<open>if err != nil { return err }\<close> after a call.\<close>

definition attempt :: "'a run \<Rightarrow> ('a \<Rightarrow> 'b run) \<Rightarrow> 'b run" where
  "attempt m k = do {
     r \<leftarrow> m;
     case r of Inl e \<Rightarrow> fail_with e | Inr x \<Rightarrow> k x
   }"

text \<open>The same with the error wrapped.\<close>

definition wrapping :: "string \<Rightarrow> 'a run \<Rightarrow> 'a run" where
  "wrapping what m = do {
     r \<leftarrow> m;
     State_Monad.return (case r of Inl e \<Rightarrow> Inl (Wrapped what e) | Inr x \<Rightarrow> Inr x)
   }"

definition perform :: "shell \<Rightarrow> action \<Rightarrow> (history, reply) state" where
  "perform sh a = do {
     h \<leftarrow> State_Monad.get;
     _ \<leftarrow> State_Monad.set (h @ [a]);
     State_Monad.return (sh_answer sh h a)
   }"

text \<open>An action whose failure is the error \<open>e\<close>; the result is what it answers.\<close>

definition demand :: "shell \<Rightarrow> action \<Rightarrow> run_error \<Rightarrow> string run" where
  "demand sh a e = do {
     r \<leftarrow> perform sh a;
     State_Monad.return (if rp_ok r then Inr (rp_out r) else Inl e)
   }"

text \<open>An action whose failure is ignored.\<close>

definition ignoring :: "shell \<Rightarrow> action \<Rightarrow> unit run" where
  "ignoring sh a = do {
     _ \<leftarrow> perform sh a;
     succeed ()
   }"

text \<open>What runs when the function returns, on every path.\<close>

definition finally_do :: "'a run \<Rightarrow> unit run \<Rightarrow> 'a run" where
  "finally_do m d = do {
     r \<leftarrow> m;
     _ \<leftarrow> d;
     State_Monad.return r
   }"

section \<open>Running\<close>

abbreviation ends :: "'a run \<Rightarrow> history \<Rightarrow> 'a \<Rightarrow> history \<Rightarrow> bool" where
  "ends m h x h' \<equiv> run_state m h = (Inr x, h')"

named_theorems run_simps

lemma run_succeed [run_simps]: "run_state (succeed x) h = (r, h') \<longleftrightarrow> r = Inr x \<and> h' = h"
  by (auto simp: succeed_def)

lemma run_fail [run_simps]: "run_state (fail_with e) h = (r, h') \<longleftrightarrow> r = Inl e \<and> h' = h"
  by (auto simp: fail_with_def)

lemma ends_attempt [run_simps]:
  "ends (attempt m k) h y h'' \<longleftrightarrow> (\<exists>x h'. ends m h x h' \<and> ends (k x) h' y h'')"
  by (auto simp: attempt_def fail_with_def split: prod.splits sum.splits)

lemma can_attempt:
  "\<exists>h'. ends m h x h' \<Longrightarrow> (\<And>h'. \<exists>h''. ends (k x) h' y h'') \<Longrightarrow> \<exists>h''. ends (attempt m k) h y h''"
  unfolding ends_attempt by blast

lemma ends_wrapping [run_simps]: "ends (wrapping what m) h x h' \<longleftrightarrow> ends m h x h'"
  by (auto simp: wrapping_def split: prod.splits sum.splits)

lemma run_perform [run_simps]:
  "run_state (perform sh a) h = (r, h') \<longleftrightarrow> r = sh_answer sh h a \<and> h' = h @ [a]"
  by (auto simp: perform_def)

lemma ends_demand [run_simps]:
  "ends (demand sh a e) h s h' \<longleftrightarrow>
   rp_ok (sh_answer sh h a) \<and> s = rp_out (sh_answer sh h a) \<and> h' = h @ [a]"
  by (auto simp: demand_def perform_def)

lemma ends_ignoring [run_simps]: "ends (ignoring sh a) h x h' \<longleftrightarrow> h' = h @ [a]"
  by (auto simp: ignoring_def perform_def succeed_def)

text \<open>
  \<open>did sh h a\<close>: at some point of the history \<open>h\<close> the action was done and answered well.
\<close>

definition did :: "shell \<Rightarrow> history \<Rightarrow> action \<Rightarrow> bool" where
  "did sh h a \<longleftrightarrow> (\<exists>h1 h2. h = h1 @ a # h2 \<and> rp_ok (sh_answer sh h1 a))"

lemma did_last: "rp_ok (sh_answer sh h a) \<Longrightarrow> did sh (h @ [a]) a"
  by (auto simp: did_def)

lemma did_append: "did sh h a \<Longrightarrow> did sh (h @ h') a"
  by (auto simp: did_def) (metis append.assoc append_Cons)

text \<open>\<open>does P m\<close>: whatever happens, \<open>m\<close> only adds actions that satisfy \<open>P\<close> to the history.\<close>

definition does :: "(action \<Rightarrow> bool) \<Rightarrow> (history, 'a) state \<Rightarrow> bool" where
  "does P m \<longleftrightarrow> state_io_rel (\<lambda>h h'. \<exists>k. h' = h @ k \<and> list_all P k) m"

named_theorems does_intros

lemma doesI: "(\<And>h. \<exists>k. snd (run_state m h) = h @ k \<and> list_all P k) \<Longrightarrow> does P m"
  by (simp add: does_def state_io_rel_def)

lemma doesD: "does P m \<Longrightarrow> run_state m h = (r, h') \<Longrightarrow> \<exists>k. h' = h @ k \<and> list_all P k"
  unfolding does_def by (rule state_io_relD)

lemma does_return [does_intros]: "does P (State_Monad.return x)"
  by (rule doesI) simp

lemma does_bind [does_intros]:
  assumes "does P m" and "\<And>x. does P (k x)"
  shows "does P (State_Monad.bind m k)"
proof (rule doesI)
  fix h
  obtain x h' where m: "run_state m h = (x, h')" by fastforce
  obtain y h'' where k: "run_state (k x) h' = (y, h'')" by fastforce
  from doesD [OF assms(1) m] doesD [OF assms(2) k] m k
  show "\<exists>l. snd (run_state (State_Monad.bind m k) h) = h @ l \<and> list_all P l" by auto
qed

lemma does_perform [does_intros]: "P a \<Longrightarrow> does P (perform sh a)"
  by (rule doesI) (simp add: perform_def)

lemma does_basic [does_intros]:
  "does P (succeed x)" "does P (fail_with e)" "P a \<Longrightarrow> does P (demand sh a e)" "P a \<Longrightarrow> does P (ignoring sh a)"
  unfolding succeed_def fail_with_def demand_def ignoring_def
  by (intro does_intros; assumption)+

lemma does_attempt [does_intros]: "does P m \<Longrightarrow> (\<And>x. does P (k x)) \<Longrightarrow> does P (attempt m k)"
  unfolding attempt_def by (intro does_intros) (auto intro: does_intros split: sum.split)

lemma does_wrapping [does_intros]: "does P m \<Longrightarrow> does P (wrapping what m)"
  unfolding wrapping_def by (intro does_intros)

lemma does_finally [does_intros]: "does P m \<Longrightarrow> does P d \<Longrightarrow> does P (finally_do m d)"
  unfolding finally_do_def by (intro does_intros)

lemma does_if [does_intros]: "does P m \<Longrightarrow> does P m' \<Longrightarrow> does P (if b then m else m')"
  by simp

text \<open>How a sequence ends, failures included.\<close>

lemma run_attempt:
  "run_state (attempt m k) h = (r, h') \<longleftrightarrow>
     (\<exists>e. run_state m h = (Inl e, h') \<and> r = Inl e) \<or>
     (\<exists>x h1. run_state m h = (Inr x, h1) \<and> run_state (k x) h1 = (r, h'))"
  by (auto simp: attempt_def fail_with_def split: prod.splits sum.splits)

section \<open>The environment of a process\<close>

text \<open>\<open>os.Getenv\<close>: the first entry of the name; a child sees the last one (\<open>os/exec\<close> keeps it).\<close>

definition os_Getenv :: "string list \<Rightarrow> string \<Rightarrow> string" where
  "os_Getenv es name =
     (case find (\<lambda>e. prefix (name @ ''='') e) es of
        None \<Rightarrow> []
      | Some e \<Rightarrow> drop (Suc (length name)) e)"

definition child_Getenv :: "string list \<Rightarrow> string \<Rightarrow> string" where
  "child_Getenv es = os_Getenv (rev es)"

text \<open>
  The inherited environment, two fixed entries, then the overrides; the code ranges over a map, so
  the overrides come in some order.
\<close>

fun path_string :: "path \<Rightarrow> string" where
  "path_string (Path base names) = base @ concat (map (\<lambda>n. ''/'' @ n) names)"

definition buildRunnerEnv :: "shell \<Rightarrow> path \<Rightarrow> (string \<times> string) list \<Rightarrow> string list" where
  "buildRunnerEnv sh repo overrides =
     sh_environ sh @ [''GOWORK=off'', ''RUNNER_ROOT='' @ path_string repo] @
     map (\<lambda>(n, v). n @ ''='' @ v) overrides"

definition handleRunnerProcess ::
    "shell \<Rightarrow> path \<Rightarrow> path \<Rightarrow> (string \<times> string) list \<Rightarrow> string \<Rightarrow> string list \<Rightarrow> unit run" where
  "handleRunnerProcess sh repo dir env bin args =
     attempt (demand sh (Run False (Proc dir (buildRunnerEnv sh repo env) bin args)) (ProcessFailed bin args))
       (\<lambda>_. succeed ())"

text \<open>The output comes back with the error too.\<close>

definition buildRunnerProcessOutput ::
    "shell \<Rightarrow> path \<Rightarrow> path \<Rightarrow> (string \<times> string) list \<Rightarrow> string \<Rightarrow> string list \<Rightarrow>
     (history, string \<times> run_error option) state" where
  "buildRunnerProcessOutput sh repo dir env bin args = do {
     r \<leftarrow> perform sh (Run True (Proc dir (buildRunnerEnv sh repo env) bin args));
     State_Monad.return (rp_out r, if rp_ok r then None else Some (ProcessFailed bin args))
   }"

text \<open>The callers that only look at the output of a process that succeeded.\<close>

definition output_of ::
    "shell \<Rightarrow> path \<Rightarrow> path \<Rightarrow> (string \<times> string) list \<Rightarrow> string \<Rightarrow> string list \<Rightarrow> string run" where
  "output_of sh repo dir env bin args = do {
     (out, err) \<leftarrow> buildRunnerProcessOutput sh repo dir env bin args;
     State_Monad.return (case err of Some e \<Rightarrow> Inl e | None \<Rightarrow> Inr out)
   }"

definition getRunnerBinaryError :: "shell \<Rightarrow> string \<Rightarrow> unit run" where
  "getRunnerBinaryError sh bin =
     attempt (demand sh (LookPath bin) (BinaryMissing bin)) (\<lambda>_. succeed ())"

abbreviation proc_at :: "shell \<Rightarrow> path \<Rightarrow> path \<Rightarrow> (string \<times> string) list \<Rightarrow> string \<Rightarrow> string list \<Rightarrow> proc" where
  "proc_at sh repo dir env bin args \<equiv> Proc dir (buildRunnerEnv sh repo env) bin args"

lemma ends_process [run_simps]:
  "ends (handleRunnerProcess sh repo dir env bin args) h x h' \<longleftrightarrow>
   rp_ok (sh_answer sh h (Run False (proc_at sh repo dir env bin args))) \<and>
   h' = h @ [Run False (proc_at sh repo dir env bin args)]"
  by (auto simp: handleRunnerProcess_def run_simps)

lemma ends_output [run_simps]:
  "ends (output_of sh repo dir env bin args) h s h' \<longleftrightarrow>
   rp_ok (sh_answer sh h (Run True (proc_at sh repo dir env bin args))) \<and>
   s = rp_out (sh_answer sh h (Run True (proc_at sh repo dir env bin args))) \<and>
   h' = h @ [Run True (proc_at sh repo dir env bin args)]"
  by (auto simp: output_of_def buildRunnerProcessOutput_def perform_def)

lemma ends_binary [run_simps]:
  "ends (getRunnerBinaryError sh bin) h x h' \<longleftrightarrow>
   rp_ok (sh_answer sh h (LookPath bin)) \<and> h' = h @ [LookPath bin]"
  by (auto simp: getRunnerBinaryError_def run_simps)

lemma does_process [does_intros]:
  "P (Run False (proc_at sh repo dir env bin args)) \<Longrightarrow> does P (handleRunnerProcess sh repo dir env bin args)"
  "P (Run True (proc_at sh repo dir env bin args)) \<Longrightarrow> does P (buildRunnerProcessOutput sh repo dir env bin args)"
  "P (Run True (proc_at sh repo dir env bin args)) \<Longrightarrow> does P (output_of sh repo dir env bin args)"
  "P (LookPath bin) \<Longrightarrow> does P (getRunnerBinaryError sh bin)"
  unfolding handleRunnerProcess_def buildRunnerProcessOutput_def output_of_def getRunnerBinaryError_def
  by (auto intro!: does_intros split: prod.split)

section \<open>What a process sees\<close>

lemma entry_name:
  assumes "CHR ''='' \<notin> set n" and "CHR ''='' \<notin> set name"
  shows "prefix (name @ ''='') (n @ ''='' @ v) \<longleftrightarrow> n = name"
proof
  assume "prefix (name @ ''='') (n @ ''='' @ v)"
  then obtain z where "name @ ''='' @ z = n @ ''='' @ v" by (auto simp: prefix_def)
  then have "takeWhile (\<lambda>c. c \<noteq> CHR ''='') (name @ ''='' @ z) = takeWhile (\<lambda>c. c \<noteq> CHR ''='') (n @ ''='' @ v)"
    by simp
  moreover have "takeWhile (\<lambda>c. c \<noteq> CHR ''='') (m @ ''='' @ y) = m" if "CHR ''='' \<notin> set m" for m y
    using that by (induction m) auto
  ultimately show "n = name" using assms by metis
qed simp

lemma child_Getenv_append:
  "child_Getenv (es @ es') name =
     (if \<exists>e \<in> set es'. prefix (name @ ''='') e then child_Getenv es' name else child_Getenv es name)"
proof -
  have find_append: "find P (xs @ ys) = (case find P xs of None \<Rightarrow> find P ys | Some x \<Rightarrow> Some x)" for P and xs ys :: "string list"
    by (induction xs) simp_all
  show ?thesis
    using find_None_iff [of "\<lambda>e. prefix (name @ ''='') e" "rev es'"]
    by (auto simp: child_Getenv_def os_Getenv_def find_append split: option.splits)
qed

lemma child_Getenv_overrides:
  assumes "CHR ''='' \<notin> set name" and "list_all (\<lambda>o'. CHR ''='' \<notin> set (fst o')) overrides"
  shows "child_Getenv (map (\<lambda>(n, v). n @ ''='' @ v) overrides) name =
    (case map_of (rev overrides) name of None \<Rightarrow> [] | Some v \<Rightarrow> v) \<and>
    ((\<exists>e \<in> set (map (\<lambda>(n, v). n @ ''='' @ v) overrides). prefix (name @ ''='') e) \<longleftrightarrow>
     map_of (rev overrides) name \<noteq> None)"
  using assms(2)
proof (induction overrides rule: rev_induct)
  case (snoc o' os)
  obtain n v where o': "o' = (n, v)" by fastforce
  with snoc.prems have n: "CHR ''='' \<notin> set n" by simp
  have "child_Getenv [n @ ''='' @ v] name = (if n = name then v else [])"
    using entry_name [OF n assms(1), of v] by (simp add: child_Getenv_def os_Getenv_def)
  with snoc o' entry_name [OF n assms(1), of v] show ?case
    by (auto simp: child_Getenv_append)
qed (simp add: child_Getenv_def os_Getenv_def)

text \<open>
  A process sees the overrides before anything else, whatever the order in which the code's map
  gives them; then no workspace and the root of the repository; then the inherited environment.
\<close>

theorem runner_env_effective:
  assumes "CHR ''='' \<notin> set name" and "list_all (\<lambda>o'. CHR ''='' \<notin> set (fst o')) overrides"
    and "distinct (map fst overrides)" and "mset overrides = mset overrides'"
  shows "child_Getenv (buildRunnerEnv sh repo overrides) name =
    (case map_of overrides' name of
       Some v \<Rightarrow> v
     | None \<Rightarrow>
         if name = ''RUNNER_ROOT'' then path_string repo
         else if name = ''GOWORK'' then ''off'' else child_Getenv (sh_environ sh) name)"
proof -
  have "set overrides = set overrides'" by (metis assms(4) mset_eq_setD)
  moreover have "distinct (map fst overrides')"
    using assms(3,4) by (metis mset_map mset_eq_imp_distinct_iff)
  ultimately have same: "map_of (rev overrides) = map_of overrides'"
    using assms(3) map_of_inject_set [of "rev overrides" overrides'] by (simp add: rev_map [symmetric])
  have fixed: "CHR ''='' \<notin> set ''GOWORK''" "CHR ''='' \<notin> set ''RUNNER_ROOT''" by simp_all
  obtain r where r: "r = ''RUNNER_ROOT='' @ path_string repo" by blast
  have p: "prefix (name @ ''='') ''GOWORK=off'' \<longleftrightarrow> name = ''GOWORK''"
    "prefix (name @ ''='') r \<longleftrightarrow> name = ''RUNNER_ROOT''"
    using entry_name [OF fixed(1) assms(1), of "''off''"] entry_name [OF fixed(2) assms(1), of "path_string repo"]
    unfolding r by auto
  have "drop (Suc (length ''RUNNER_ROOT'')) r = path_string repo" by (simp add: r)
  then have two: "child_Getenv [''GOWORK=off'', r] name =
      (if name = ''RUNNER_ROOT'' then path_string repo else if name = ''GOWORK'' then ''off'' else [])"
    by (simp add: child_Getenv_def os_Getenv_def p)
  have "child_Getenv (sh_environ sh @ [''GOWORK=off'', r]) name =
      (if name = ''RUNNER_ROOT'' then path_string repo
       else if name = ''GOWORK'' then ''off'' else child_Getenv (sh_environ sh) name)"
    unfolding child_Getenv_append two by (simp add: p)
  moreover obtain ov where ov: "ov = map (\<lambda>(n, v). n @ ''='' @ v) overrides" by blast
  moreover have "buildRunnerEnv sh repo overrides = (sh_environ sh @ [''GOWORK=off'', r]) @ ov"
    by (simp add: buildRunnerEnv_def r ov)
  moreover note child_Getenv_overrides [OF assms(1,2), folded ov]
  ultimately show ?thesis
    using child_Getenv_append [of "sh_environ sh @ [''GOWORK=off'', r]" ov name] same
    by (cases "map_of overrides' name") simp_all
qed

definition plain_shell :: shell where
  "plain_shell = \<lparr>sh_environ = [''GOOS=linux''], sh_goos = ''linux'', sh_goarch = ''amd64'', sh_answer = (\<lambda>_ _. Not_Exist)\<rparr>"

theorem runner_env_effective_witness:
  "child_Getenv (buildRunnerEnv plain_shell (Path ''/repo'' []) [(''GOOS'', ''js''), (''GOARCH'', ''wasm'')]) ''GOOS'' = ''js''"
  using runner_env_effective [of "''GOOS''" "[(''GOOS'', ''js''), (''GOARCH'', ''wasm'')]"
      "[(''GOARCH'', ''wasm''), (''GOOS'', ''js'')]" plain_shell "Path ''/repo'' []"]
  by simp

end
