(* ===== verification/Api_Guard_Store.thy ===== *)
theory Api_Guard_Store
  imports Api_Guard Runner
begin

text \<open>
  The API guard's command (\<open>src/tools/api_compat_guard/main.go\<close>) with its effects, in the frame of the
  task runner: it finds the repository, and either checks the stored baseline or stores a new one.
  \<open>encode\<close> and \<open>decode\<close> are \<open>encoding/json\<close>; \<open>caller\<close> is the repository as the runtime knows it.
\<close>

section \<open>The command\<close>

record storeAPIGuardBaseline =
  ab_GeneratedAtUTC :: string
  ab_StorePackages :: "(string \<times> string list) list"

definition getAPIGuardRepositoryRootPath :: "shell \<Rightarrow> path option \<Rightarrow> path run" where
  "getAPIGuardRepositoryRootPath sh caller =
     (case caller of
        None \<Rightarrow> fail_with RootNotFound
      | Some repo \<Rightarrow>
          attempt (demand sh (Stat (filepath_Join repo [''go.mod''])) (RootInvalid repo)) (\<lambda>_. succeed repo))"

definition api_baseline_path :: "path \<Rightarrow> path" where
  "api_baseline_path repo =
     filepath_Join repo [''tools'', ''api_compat_guard'', ''api_compatibility_baseline.json'']"

definition storeAPIGuardBaselineFile ::
    "(storeAPIGuardBaseline \<Rightarrow> string option) \<Rightarrow> string \<Rightarrow> shell \<Rightarrow> path \<Rightarrow> (string \<times> string list) list \<Rightarrow> unit run"
where
  "storeAPIGuardBaselineFile encode now sh file symbols =
     (case encode \<lparr>ab_GeneratedAtUTC = now, ab_StorePackages = symbols\<rparr> of
        None \<Rightarrow> fail_with (ParseFailed ''marshal'')
      | Some content \<Rightarrow>
          attempt (demand sh (WriteFile file (content @ [CHR 0x0A])) (FileFailed ''write'' file)) (\<lambda>_.
          ignoring sh (Print ''stored API compatibility baseline'')))"

definition check_baseline_file ::
    "(string \<Rightarrow> storeAPIGuardBaseline option) \<Rightarrow> shell \<Rightarrow> path \<Rightarrow> (string \<times> string list) list \<Rightarrow> unit run"
where
  "check_baseline_file decode sh file symbols =
     attempt (demand sh (ReadFile file) (FileFailed ''read'' file)) (\<lambda>content.
     (case decode content of
        None \<Rightarrow> fail_with (ParseFailed ''API baseline'')
      | Some b \<Rightarrow>
          (case handleAPIGuardBaselineCheck (Some (ab_StorePackages b)) symbols of
             GuardPassed n \<Rightarrow> ignoring sh (Print ''API compatibility guard passed'')
           | _ \<Rightarrow> fail_with (GateFailed ''missing exported symbols''))))"

definition api_guard_command ::
    "(string \<Rightarrow> bool) \<Rightarrow> (string \<Rightarrow> go_file list) \<Rightarrow> (string \<Rightarrow> string option) \<Rightarrow>
     (storeAPIGuardBaseline \<Rightarrow> string option) \<Rightarrow> (string \<Rightarrow> storeAPIGuardBaseline option) \<Rightarrow> string \<Rightarrow>
     shell \<Rightarrow> path option \<Rightarrow> string list \<Rightarrow> unit run" where
  "api_guard_command exported dir docs encode decode now sh caller args =
     (let cmd = (case args of [] \<Rightarrow> ''check'' | a # _ \<Rightarrow> strings_TrimSpace a)
      in attempt (getAPIGuardRepositoryRootPath sh caller) (\<lambda>repo.
         (case buildAPIGuardPackageSymbolMap exported dir guarded_packages of
            None \<Rightarrow> fail_with (ParseFailed ''packages'')
          | Some symbols \<Rightarrow>
              if cmd = ''check'' then
                (case handleAPIGuardDocumentationCheck docs of
                   Some e \<Rightarrow> fail_with (GateFailed ''documentation'')
                 | None \<Rightarrow> check_baseline_file decode sh (api_baseline_path repo) symbols)
              else if cmd = ''update''
              then storeAPIGuardBaselineFile encode now sh (api_baseline_path repo) symbols
              else fail_with (run_error.UnknownCommand cmd))))"

section \<open>Update, then check\<close>

lemma own_symbols_present:
  "distinct (map fst symbols) \<Longrightarrow> handleAPIGuardBaselineCheck (Some symbols) symbols = GuardPassed (length symbols)"
proof -
  assume d: "distinct (map fst symbols)"
  have "missing_of symbols b = []" if "b \<in> set symbols" for b
    using map_of_is_SomeI [OF d, of "fst b" "snd b"] that by (auto simp: missing_of_def filter_empty_conv)
  then have "concat (map (missing_of symbols) symbols) = []" by simp
  then show ?thesis by (simp add: handleAPIGuardBaselineCheck_def Let_def)
qed

lemma guard_commands: "strings_TrimSpace ''update'' = ''update''" "strings_TrimSpace ''check'' = ''check''"
  by code_simp+

text \<open>
  After a successful \<open>update\<close>, a \<open>check\<close> of the same packages passes: what one wrote is what the other
  reads, through JSON and the file. The hypotheses are the round trip of \<open>encoding/json\<close> up to a
  final newline, and that the file keeps what was written to it.
\<close>

theorem guard_update_then_check:
  fixes repo
  defines "file \<equiv> api_baseline_path repo" and "stat \<equiv> Stat (filepath_Join repo [''go.mod''])"
  assumes json: "\<And>b c. encode b = Some c \<Longrightarrow> decode (c @ [CHR 0x0A]) = Some b"
    and update: "ends (api_guard_command exported dir docs0 encode decode now sh (Some repo) [''update'']) [] x h"
    and docs: "handleAPIGuardDocumentationCheck docs = None"
    and kept: "\<And>content. WriteFile file content \<in> set h \<Longrightarrow> sh_answer sh' [stat] (ReadFile file) = Done content"
    and found: "rp_ok (sh_answer sh' [] stat)"
  shows "\<exists>h'. ends (api_guard_command exported dir docs encode decode now' sh' (Some repo) [''check'']) [] () h'"
proof -
  from update obtain symbols where sym: "buildAPIGuardPackageSymbolMap exported dir guarded_packages = Some symbols"
    by (auto simp: api_guard_command_def getAPIGuardRepositoryRootPath_def Let_def run_simps split: option.splits)
  with update obtain h0 where "ends (storeAPIGuardBaselineFile encode now sh file symbols) h0 x h"
    by (auto simp: api_guard_command_def getAPIGuardRepositoryRootPath_def guard_commands Let_def run_simps file_def)
  then obtain c where c: "encode \<lparr>ab_GeneratedAtUTC = now, ab_StorePackages = symbols\<rparr> = Some c"
    "WriteFile file (c @ [CHR 0x0A]) \<in> set h"
    by (auto simp: storeAPIGuardBaselineFile_def run_simps split: option.splits)
  have "distinct (map fst symbols)" using symbol_map_built [OF sym] by (simp add: guarded_packages_def)
  from own_symbols_present [OF this] json [OF c(1)] kept [OF c(2)]
  have "\<exists>h'. ends (check_baseline_file decode sh' file symbols) [stat] () h'"
    by (simp add: check_baseline_file_def run_simps)
  then show ?thesis
    using found by (simp add: api_guard_command_def getAPIGuardRepositoryRootPath_def guard_commands sym docs
        Let_def run_simps file_def stat_def)
qed

text \<open>A repository whose two packages export one function each.\<close>

definition demo_encode :: "storeAPIGuardBaseline \<Rightarrow> string option" where
  "demo_encode b = (if b = \<lparr>ab_GeneratedAtUTC = ''now'', ab_StorePackages =
     [(''pkg/grpctunnel'', [''func Dial'']), (''pkg/bridge'', [''func Dial''])]\<rparr> then Some ''{}'' else None)"

definition demo_decode :: "string \<Rightarrow> storeAPIGuardBaseline option" where
  "demo_decode s = (if s = ''{}'' @ [CHR 0x0A] then Some \<lparr>ab_GeneratedAtUTC = ''now'', ab_StorePackages =
     [(''pkg/grpctunnel'', [''func Dial'']), (''pkg/bridge'', [''func Dial''])]\<rparr> else None)"

definition demo_machine :: shell where
  "demo_machine = \<lparr>sh_environ = [], sh_goos = ''linux'', sh_goarch = ''amd64'',
     sh_answer = (\<lambda>_ a. Done (''{}'' @ [CHR 0x0A]))\<rparr>"

theorem guard_update_then_check_witness:
  "\<exists>h'. ends (api_guard_command starts_upper (dial_package ''Dial'') both_documents demo_encode demo_decode ''later''
     demo_machine (Some (Path ''/repo'' [])) [''check'']) [] () h'"
proof -
  let ?update = "api_guard_command starts_upper (dial_package ''Dial'') both_documents demo_encode demo_decode ''now''
     demo_machine (Some (Path ''/repo'' [])) [''update'']"
  have sym: "buildAPIGuardPackageSymbolMap starts_upper (dial_package ''Dial'') guarded_packages =
      Some [(''pkg/grpctunnel'', [''func Dial'']), (''pkg/bridge'', [''func Dial''])]" by code_simp
  have docs: "handleAPIGuardDocumentationCheck both_documents = None" by code_simp
  let ?file = "api_baseline_path (Path ''/repo'' [])"
  have run: "ends ?update [] () [Stat (filepath_Join (Path ''/repo'' []) [''go.mod'']),
      WriteFile ?file (''{}'' @ [CHR 0x0A]), Print ''stored API compatibility baseline'']"
    unfolding api_guard_command_def sym
    by (simp add: getAPIGuardRepositoryRootPath_def guard_commands storeAPIGuardBaselineFile_def
        demo_encode_def demo_machine_def Let_def run_simps)
  show ?thesis
    by (rule guard_update_then_check [OF _ run docs])
      (auto simp: demo_encode_def demo_decode_def demo_machine_def split: if_splits)
qed

end
