(* ===== verification/Tunnel_Link.thy ===== *)
theory Tunnel_Link
  imports Ws_Conn Wasm_Conn
begin

text \<open>
  A whole tunnel: two connections of the repository facing each other over a websocket, each end the
  browser connection, the tunnel's adapter or the proxy's adapter. The steps are the calls and
  callbacks of the code, in any order; the frames in flight are two queues. The two directions are
  two interpretations of one contract, a pipe for bytes.
\<close>

section \<open>A pipe for bytes\<close>

text \<open>The runs of a step relation.\<close>

inductive run_of :: "('s \<Rightarrow> 'ev \<Rightarrow> 's \<Rightarrow> bool) \<Rightarrow> 's \<Rightarrow> 'ev list \<Rightarrow> 's \<Rightarrow> bool" for step where
  run_nil: "run_of step s [] s"
| run_snoc: "run_of step s evs s' \<Longrightarrow> step s' ev s'' \<Longrightarrow> run_of step s (evs @ [ev]) s''"

lemma run_one: "step s ev s' \<Longrightarrow> run_of step s [ev] s'"
  using run_snoc [of step s "[]" s ev s'] by (simp add: run_nil)

text \<open>
  \<open>written\<close> and \<open>got\<close> are what the two ends have put in and taken out, \<open>transit\<close> what is on its way,
  \<open>live\<close> whether the pipe has lost nothing. A step may write and read at once; a pipe that is not
  live hands out nothing.
\<close>

locale byte_pipe =
  fixes step :: "'s \<Rightarrow> 'ev \<Rightarrow> 's \<Rightarrow> bool"
    and written :: "'s \<Rightarrow> bytes" and got :: "'s \<Rightarrow> bytes" and transit :: "'s \<Rightarrow> bytes"
    and live :: "'s \<Rightarrow> bool" and sound :: "'s \<Rightarrow> bool"
  assumes step_sound: "sound s \<Longrightarrow> step s ev s' \<Longrightarrow> sound s'"
    and step_moves: "sound s \<Longrightarrow> step s ev s' \<Longrightarrow>
      \<exists>a b. written s' = written s @ a \<and> got s' = got s @ b \<and>
        (live s' \<longrightarrow> live s \<and> transit s @ a = b @ transit s') \<and>
        (if live s then prefix b (transit s @ a) else b = [])"
begin

abbreviation balanced :: "'s \<Rightarrow> bool" where
  "balanced s \<equiv> prefix (got s) (written s) \<and> (live s \<longrightarrow> written s = got s @ transit s)"

lemma step_balanced:
  assumes "sound s" and "step s ev s'" and "balanced s"
  shows "balanced s'"
proof -
  from step_moves [OF assms(1,2)] obtain a b where
    ab: "written s' = written s @ a" "got s' = got s @ b"
      "live s' \<Longrightarrow> live s \<and> transit s @ a = b @ transit s'"
      "if live s then prefix b (transit s @ a) else b = []" by blast
  have "prefix (got s') (written s')"
    using ab(1,2,4) assms(3) by (cases "live s") (auto simp: prefix_def)
  moreover have "live s' \<Longrightarrow> written s' = got s' @ transit s'"
    using ab assms(3) by auto
  ultimately show ?thesis by simp
qed

lemma run_balanced:
  "run_of step s evs s' \<Longrightarrow> sound s \<Longrightarrow> balanced s \<Longrightarrow> sound s' \<and> balanced s'"
proof (induction rule: run_of.induct)
  case (run_snoc s evs s' ev s'')
  then show ?case using step_sound [of s' ev s''] step_balanced [of s' ev s''] by blast
qed simp

end

section \<open>The ends of a tunnel\<close>

text \<open>
  The websocket library under an adapter: the operations the adapter calls, and \<open>lib_receive\<close>, the
  arrival of a frame from the network. \<open>lib_current\<close>, \<open>lib_future\<close> and \<open>lib_sent\<close> are what it
  holds, \<open>lib_dead\<close> whether a read has failed.
\<close>

type_synonym frame = "nat \<times> bytes"

record ('w, 'e) gorilla =
  lib_next :: "('w, 'e) next_reader"
  lib_read :: "('w, 'e) reader_read"
  lib_write :: "('w, 'e) write_message"
  lib_close :: "'w \<Rightarrow> 'e option"
  lib_receive :: "'w \<Rightarrow> frame \<Rightarrow> 'w"
  lib_current :: "'w \<Rightarrow> bytes"
  lib_future :: "'w \<Rightarrow> frame list"
  lib_sent :: "'w \<Rightarrow> frame list"
  lib_dead :: "'w \<Rightarrow> bool"

text \<open>
  What the adapters rely on: reads hand out messages in order (\<open>gorilla_reads\<close>) and touch nothing
  else; the error of a read is permanent; a write sends one message or, when it fails, none; a frame
  that arrives is queued behind the others.
\<close>

definition gorilla_link :: "('w, 'e) gorilla \<Rightarrow> bool" where
  "gorilla_link lib \<longleftrightarrow>
     gorilla_reads (lib_next lib) (lib_read lib) (lib_current lib) (lib_future lib) \<and>
     (\<forall>w w' r. lib_next lib w = (w', r) \<longrightarrow> lib_sent lib w' = lib_sent lib w \<and>
        lib_dead lib w' = (\<exists>e. r = Inl e) \<and> (lib_dead lib w \<longrightarrow> (\<exists>e. r = Inl e))) \<and>
     (\<forall>w n w' bs st. lib_read lib w n = (w', bs, st) \<longrightarrow> lib_sent lib w' = lib_sent lib w \<and>
        lib_dead lib w' = (\<exists>e. st = Read_err e) \<and>
        (lib_dead lib w \<longrightarrow> bs = [] \<and> (\<exists>e. st = Read_err e))) \<and>
     (\<forall>w ty p w' err. lib_write lib w ty p = (w', err) \<longrightarrow>
        lib_sent lib w' = lib_sent lib w @ (if err = None then [(ty, p)] else []) \<and>
        lib_current lib w' = lib_current lib w \<and> lib_future lib w' = lib_future lib w \<and>
        lib_dead lib w' = lib_dead lib w) \<and>
     (\<forall>w f. lib_future lib (lib_receive lib w f) = lib_future lib w @ [f] \<and>
        lib_current lib (lib_receive lib w f) = lib_current lib w \<and>
        lib_sent lib (lib_receive lib w f) = lib_sent lib w \<and>
        lib_dead lib (lib_receive lib w f) = lib_dead lib w)"

datatype 'w endpoint =
    Browser browserWebSocketConnection
  | Tunnel_Conn "'w webSocketConn"
  | Bridge_Conn "'w webSocketConn"

text \<open>
  \<open>Write\<close>: the frames it puts on the wire and the bytes it accepted. A browser socket sends one
  binary message or, when \<open>ok\<close> does not hold, panics.
\<close>

fun ep_write :: "('w, 'e) gorilla \<Rightarrow> bool \<Rightarrow> 'w endpoint \<Rightarrow> bytes \<Rightarrow> 'w endpoint \<times> frame list \<times> bytes" where
  "ep_write lib ok (Browser c) p =
     (case browser_Write (\<lambda>wire m. if ok then Some (wire @ [(BinaryMessage, m)]) else None) c [] p of
        (fs, Wrote k) \<Rightarrow> (Browser c, fs, take k p)
      | (fs, _) \<Rightarrow> (Browser c, fs, []))"
| "ep_write lib ok (Tunnel_Conn c) p =
     (case webSocketConn_Write (lib_write lib) c p of
        (c', k, _) \<Rightarrow> (Tunnel_Conn c', drop (length (sent_by (lib_sent lib) c)) (sent_by (lib_sent lib) c'), take k p))"
| "ep_write lib ok (Bridge_Conn c) p =
     (case bridge_Write (lib_write lib) c p of
        (c', k, _) \<Rightarrow> (Bridge_Conn c', drop (length (sent_by (lib_sent lib) c)) (sent_by (lib_sent lib) c'), take k p))"

text \<open>\<open>Read\<close> and the bytes it hands out; \<open>None\<close> for a read that does not return.\<close>

fun ep_read :: "('w, 'e) gorilla \<Rightarrow> bool \<Rightarrow> 'w endpoint \<Rightarrow> nat \<Rightarrow> ('w endpoint \<times> bytes) option" where
  "ep_read lib ef (Browser c) n =
     (case browser_Read ef c n of
        (c', Got bs) \<Rightarrow> Some (Browser c', bs)
      | (c', _) \<Rightarrow> Some (Browser c', []))"
| "ep_read lib ef (Tunnel_Conn c) n =
     map_option (\<lambda>(c', bs, err). (Tunnel_Conn c', bs)) (webSocketConn_Read (lib_next lib) (lib_read lib) c n)"
| "ep_read lib ef (Bridge_Conn c) n =
     map_option (\<lambda>(c', bs, err). (Bridge_Conn c', bs)) (bridge_Read (lib_next lib) (lib_read lib) c n)"

text \<open>The arrival of a frame: a callback of the browser, the library's buffer of an adapter.\<close>

fun ep_arrive :: "('w, 'e) gorilla \<Rightarrow> (nat \<Rightarrow> nat) \<Rightarrow> bool \<Rightarrow> frame \<Rightarrow> 'w endpoint \<Rightarrow> 'w endpoint" where
  "ep_arrive lib grow reading f (Browser c) =
     Browser (wasm_step grow (Message reading (if fst f = BinaryMessage then Inr (snd f) else Inl ''string'')) c)"
| "ep_arrive lib grow reading f (Tunnel_Conn c) =
     Tunnel_Conn (c\<lparr>wc_ws := map_option (\<lambda>w. lib_receive lib w f) (wc_ws c)\<rparr>)"
| "ep_arrive lib grow reading f (Bridge_Conn c) =
     Bridge_Conn (c\<lparr>wc_ws := map_option (\<lambda>w. lib_receive lib w f) (wc_ws c)\<rparr>)"

fun ep_close :: "('w, 'e) gorilla \<Rightarrow> bool \<Rightarrow> 'w endpoint \<Rightarrow> 'w endpoint" where
  "ep_close lib reading (Browser c) = Browser (browser_Close reading c)"
| "ep_close lib reading (Tunnel_Conn c) = Tunnel_Conn (fst (webSocketConn_Close (lib_close lib) c))"
| "ep_close lib reading (Bridge_Conn c) = Bridge_Conn (fst (bridge_Close (lib_close lib) c))"

text \<open>The other callbacks, which only the browser has.\<close>

fun ep_fault :: "bool \<Rightarrow> bool \<Rightarrow> 'w endpoint \<Rightarrow> 'w endpoint" where
  "ep_fault closed reading (Browser c) =
     Browser (wasm_step id (if closed then Socket_Closed reading else Socket_Error) c)"
| "ep_fault closed reading e = e"

section \<open>The link\<close>

text \<open>
  One side of the link: its connection, the frames it sent that have not arrived, and what its
  writes accepted and its reads handed out so far.
\<close>

record 'w side =
  sd_conn :: "'w endpoint"
  sd_wire :: "frame list"
  sd_written :: bytes
  sd_got :: bytes

type_synonym 'w link = "bool \<Rightarrow> 'w side"

datatype link_event =
    Do_Write bool bool bytes
  | Do_Read bool bool nat
  | Do_Deliver bool bool
  | Do_Close bool bool
  | Do_Fault bool bool bool

inductive link_step ::
    "('w, 'e) gorilla \<Rightarrow> (nat \<Rightarrow> nat) \<Rightarrow> 'w link \<Rightarrow> link_event \<Rightarrow> 'w link \<Rightarrow> bool" for lib grow where
  write_step: "ep_write lib ok (sd_conn (s i)) p = (e, fs, bs) \<Longrightarrow>
     link_step lib grow s (Do_Write i ok p)
       (s(i := (s i)\<lparr>sd_conn := e, sd_wire := sd_wire (s i) @ fs, sd_written := sd_written (s i) @ bs\<rparr>))"
| read_step: "ep_read lib ef (sd_conn (s i)) n = Some (e, bs) \<Longrightarrow>
     link_step lib grow s (Do_Read i ef n) (s(i := (s i)\<lparr>sd_conn := e, sd_got := sd_got (s i) @ bs\<rparr>))"
| deliver_step: "sd_wire (s (\<not> i)) = f # fs \<Longrightarrow>
     link_step lib grow s (Do_Deliver i reading)
       (s(i := (s i)\<lparr>sd_conn := ep_arrive lib grow reading f (sd_conn (s i))\<rparr>,
          \<not> i := (s (\<not> i))\<lparr>sd_wire := fs\<rparr>))"
| close_step: "link_step lib grow s (Do_Close i reading)
     (s(i := (s i)\<lparr>sd_conn := ep_close lib reading (sd_conn (s i))\<rparr>))"
| fault_step: "link_step lib grow s (Do_Fault i closed reading)
     (s(i := (s i)\<lparr>sd_conn := ep_fault closed reading (sd_conn (s i))\<rparr>))"

inductive_cases link_stepE: "link_step lib grow s ev s'"

definition link_start :: "'w endpoint \<Rightarrow> 'w endpoint \<Rightarrow> 'w link" where
  "link_start a b =
     (\<lambda>i. \<lparr>sd_conn = (if i then a else b), sd_wire = [], sd_written = [], sd_got = []\<rparr>)"


section \<open>What each call does to an end\<close>

abbreviation binary :: "frame list \<Rightarrow> bool" where
  "binary fs \<equiv> list_all (\<lambda>f. fst f = BinaryMessage) fs"

abbreviation payload :: "frame list \<Rightarrow> bytes" where
  "payload fs \<equiv> concat (map snd fs)"

lemma binary_prefix_all [simp]: "binary fs \<Longrightarrow> binary_prefix fs = payload fs"
  by (induction fs) auto

lemma gorilla_link_reads:
  "gorilla_link lib \<Longrightarrow> gorilla_reads (lib_next lib) (lib_read lib) (lib_current lib) (lib_future lib)"
  by (simp add: gorilla_link_def)

lemma gorilla_link_next:
  "gorilla_link lib \<Longrightarrow> lib_next lib w = (w', r) \<Longrightarrow> lib_sent lib w' = lib_sent lib w \<and>
     lib_dead lib w' = (\<exists>e. r = Inl e) \<and> (lib_dead lib w \<longrightarrow> (\<exists>e. r = Inl e))"
  unfolding gorilla_link_def by blast

lemma gorilla_link_read:
  "gorilla_link lib \<Longrightarrow> lib_read lib w n = (w', bs, st) \<Longrightarrow> lib_sent lib w' = lib_sent lib w \<and>
     lib_dead lib w' = (\<exists>e. st = Read_err e) \<and> (lib_dead lib w \<longrightarrow> bs = [] \<and> (\<exists>e. st = Read_err e))"
  unfolding gorilla_link_def by blast

lemma gorilla_link_write:
  "gorilla_link lib \<Longrightarrow> lib_write lib w ty p = (w', err) \<Longrightarrow>
     lib_sent lib w' = lib_sent lib w @ (if err = None then [(ty, p)] else []) \<and>
     lib_current lib w' = lib_current lib w \<and> lib_future lib w' = lib_future lib w \<and>
     lib_dead lib w' = lib_dead lib w"
  unfolding gorilla_link_def by blast

lemma gorilla_link_receive [simp]:
  assumes "gorilla_link lib"
  shows "lib_future lib (lib_receive lib w f) = lib_future lib w @ [f]"
    and "lib_current lib (lib_receive lib w f) = lib_current lib w"
    and "lib_sent lib (lib_receive lib w f) = lib_sent lib w"
    and "lib_dead lib (lib_receive lib w f) = lib_dead lib w"
  using assms unfolding gorilla_link_def by blast+

text \<open>One call of the adapters' read loop, on a library that holds binary messages only.\<close>

definition loop_moves where
  "loop_moves lib active w r \<longleftrightarrow>
     (case r of (w', active', bs, err) \<Rightarrow>
        (lib_dead lib w' \<or> binary (lib_future lib w')) \<and> lib_sent lib w' = lib_sent lib w \<and>
        (lib_dead lib w \<longrightarrow> bs = [] \<and> lib_dead lib w') \<and>
        (\<not> lib_dead lib w' \<longrightarrow>
           rest_of (lib_current lib) (lib_future lib) active w =
           bs @ rest_of (lib_current lib) (lib_future lib) active' w') \<and>
        prefix bs (rest_of (lib_current lib) (lib_future lib) active w))"

lemma acquire_moves:
  assumes "gorilla_link lib" and "acquire_reader (lib_next lib) wt active w = (w', err)"
    and "lib_dead lib w \<or> binary (lib_future lib w)"
  shows "lib_sent lib w' = lib_sent lib w \<and>
    (case err of
       Some e \<Rightarrow> lib_dead lib w'
     | None \<Rightarrow> (lib_dead lib w' \<or> binary (lib_future lib w')) \<and> lib_dead lib w' = lib_dead lib w \<and>
         (\<not> lib_dead lib w \<longrightarrow> rest_of (lib_current lib) (lib_future lib) active w =
            lib_current lib w' @ payload (lib_future lib w')))"
proof (cases active)
  case True
  with assms show ?thesis by (auto simp: acquire_reader_def)
next
  case False
  obtain w1 r where nx: "lib_next lib w = (w1, r)" by fastforce
  note link = gorilla_link_next [OF assms(1) nx]
  show ?thesis
  proof (cases r)
    case (Inl e)
    with False nx assms(2) link show ?thesis by (auto simp: acquire_reader_def)
  next
    case (Inr ty)
    with gorilla_next [OF gorilla_link_reads [OF assms(1)]] nx
    have "lib_future lib w = (ty, lib_current lib w1) # lib_future lib w1" by blast
    with Inr False nx assms(2,3) link show ?thesis by (auto simp: acquire_reader_def)
  qed
qed

lemma loop_moves_all:
  assumes link: "gorilla_link lib"
  shows "\<exists>r. read_frames (lib_next lib) (lib_read lib) wt active w n = Some r \<and>
    (lib_dead lib w \<or> binary (lib_future lib w) \<longrightarrow> loop_moves lib active w r)"
proof (rule read_frames_rule [OF gorilla_link_reads [OF link]])
  fix active w w1 err
  assume "acquire_reader (lib_next lib) wt active w = (w1, Some err)"
  from acquire_moves [OF link this]
  show "lib_dead lib w \<or> binary (lib_future lib w) \<longrightarrow> loop_moves lib active w (w1, False, [], Some err)"
    by (simp add: loop_moves_def)
next
  fix active w w1 w2 bs st
  assume acq: "acquire_reader (lib_next lib) wt active w = (w1, None)"
    and rd: "lib_read lib w1 n = (w2, bs, st)"
  from acquire_moves [OF link acq] gorilla_read [OF gorilla_link_reads [OF link] rd]
    gorilla_link_read [OF link rd]
  show "lib_dead lib w \<or> binary (lib_future lib w) \<longrightarrow> loop_moves lib active w
      (w2, st \<noteq> Read_eof, bs, case st of Read_err e \<Rightarrow> Some (WsError e) | _ \<Rightarrow> None)"
    by (cases st) (auto simp: loop_moves_def)
next
  fix active w w1 w2 r
  assume acq: "acquire_reader (lib_next lib) wt active w = (w1, None)"
    and rd: "lib_read lib w1 n = (w2, [], Read_eof)"
    and "lib_dead lib w2 \<or> binary (lib_future lib w2) \<longrightarrow> loop_moves lib False w2 r"
  with acquire_moves [OF link acq] gorilla_read [OF gorilla_link_reads [OF link] rd]
    gorilla_link_read [OF link rd]
  show "lib_dead lib w \<or> binary (lib_future lib w) \<longrightarrow> loop_moves lib active w r"
    by (auto simp: loop_moves_def)
qed

text \<open>
  What an end still has to hand out, whether it has lost anything, and its invariant: an adapter's
  library that can still be read holds binary messages only.
\<close>

fun ep_conn :: "'w endpoint \<Rightarrow> 'w webSocketConn option" where
  "ep_conn (Browser c) = None"
| "ep_conn (Tunnel_Conn c) = Some c"
| "ep_conn (Bridge_Conn c) = Some c"

definition conn_live :: "('w, 'e) gorilla \<Rightarrow> 'w webSocketConn \<Rightarrow> bool" where
  "conn_live lib c \<longleftrightarrow> (case wc_ws c of None \<Rightarrow> False | Some w \<Rightarrow> \<not> lib_dead lib w)"

definition conn_sound :: "('w, 'e) gorilla \<Rightarrow> 'w webSocketConn \<Rightarrow> bool" where
  "conn_sound lib c \<longleftrightarrow>
     (case wc_ws c of None \<Rightarrow> True | Some w \<Rightarrow> lib_dead lib w \<or> binary (lib_future lib w))"

abbreviation conn_unread :: "('w, 'e) gorilla \<Rightarrow> 'w webSocketConn \<Rightarrow> bytes" where
  "conn_unread lib \<equiv> adapter_unread (lib_current lib) (lib_future lib)"

fun ep_unread :: "('w, 'e) gorilla \<Rightarrow> 'w endpoint \<Rightarrow> bytes" where
  "ep_unread lib (Browser c) = browser_unread c"
| "ep_unread lib (Tunnel_Conn c) = conn_unread lib c"
| "ep_unread lib (Bridge_Conn c) = conn_unread lib c"

fun ep_live :: "('w, 'e) gorilla \<Rightarrow> 'w endpoint \<Rightarrow> bool" where
  "ep_live lib (Browser c) \<longleftrightarrow> \<not> bc_isClosed c"
| "ep_live lib (Tunnel_Conn c) \<longleftrightarrow> conn_live lib c"
| "ep_live lib (Bridge_Conn c) \<longleftrightarrow> conn_live lib c"

fun ep_sound :: "('w, 'e) gorilla \<Rightarrow> 'w endpoint \<Rightarrow> bool" where
  "ep_sound lib (Browser c) \<longleftrightarrow> browser_ok c"
| "ep_sound lib (Tunnel_Conn c) \<longleftrightarrow> conn_sound lib c"
| "ep_sound lib (Bridge_Conn c) \<longleftrightarrow> conn_sound lib c"

text \<open>
  A change of an end by which \<open>a\<close> joins what it has to hand out and \<open>b\<close> is handed out; such changes
  compose with nothing else to prove.
\<close>

definition conn_moves where
  "conn_moves lib c a b c' \<longleftrightarrow>
     (conn_live lib c' \<longrightarrow> conn_live lib c \<and> conn_unread lib c @ a = b @ conn_unread lib c') \<and>
     (if conn_live lib c then prefix b (conn_unread lib c @ a) else b = []) \<and>
     conn_sound lib c'"

definition ep_moves where
  "ep_moves lib e a b e' \<longleftrightarrow>
     (ep_live lib e' \<longrightarrow> ep_live lib e \<and> ep_unread lib e @ a = b @ ep_unread lib e') \<and>
     (if ep_live lib e then prefix b (ep_unread lib e @ a) else b = []) \<and>
     ep_sound lib e'"

lemma ep_moves_conn [simp]:
  "ep_moves lib (Tunnel_Conn c) a b (Tunnel_Conn c') = conn_moves lib c a b c'"
  "ep_moves lib (Bridge_Conn c) a b (Bridge_Conn c') = conn_moves lib c a b c'"
  by (simp_all add: ep_moves_def conn_moves_def)

lemma conn_moves_refl [simp]: "conn_sound lib c \<Longrightarrow> conn_moves lib c [] [] c"
  by (simp add: conn_moves_def)

lemma conn_read_moves:
  assumes link: "gorilla_link lib" and sound: "conn_sound lib c"
    and rd: "adapter_Read (lib_next lib) (lib_read lib) wt cl c n = Some (c', bs, err)"
  shows "conn_moves lib c [] bs c'"
proof (cases "wc_isClosed c \<or> wc_ws c = None")
  case True
  with rd have "c' = c" "bs = []" by (auto simp: adapter_Read_def split: if_splits)
  with sound show ?thesis by simp
next
  case False
  then obtain w where w: "wc_ws c = Some w" "\<not> wc_isClosed c" by auto
  from loop_moves_all [OF link, of wt "wc_reader c" w n] sound w(1) obtain r where
    r: "read_frames (lib_next lib) (lib_read lib) wt (wc_reader c) w n = Some r"
      "loop_moves lib (wc_reader c) w r" by (auto simp: conn_sound_def)
  obtain w' a where "r = (w', a, bs, err)" "c' = c\<lparr>wc_ws := Some w', wc_reader := a\<rparr>"
    using rd r(1) w by (cases r) (simp add: adapter_Read_def)
  with r(2) w show ?thesis
    by (auto simp: loop_moves_def conn_moves_def conn_live_def conn_sound_def adapter_unread_def)
qed

lemma conn_write_moves:
  assumes link: "gorilla_link lib" and sound: "conn_sound lib c"
    and wr: "adapter_Write (lib_write lib) cl c p = (c', k, err)"
    and fs: "fs = drop (length (sent_by (lib_sent lib) c)) (sent_by (lib_sent lib) c')"
  shows "conn_moves lib c [] [] c' \<and> binary fs \<and> payload fs = take k p"
proof (cases "wc_isClosed c \<or> wc_ws c = None")
  case True
  with wr have "c' = c" "k = 0" by (auto simp: adapter_Write_def split: if_splits)
  with sound fs show ?thesis by simp
next
  case False
  then obtain w where w: "wc_ws c = Some w" "\<not> wc_isClosed c" by auto
  obtain w' e where ww: "lib_write lib w BinaryMessage p = (w', e)" by fastforce
  from gorilla_link_write [OF link ww] ww w wr fs sound show ?thesis
    by (cases e) (auto simp: adapter_Write_def conn_moves_def conn_live_def conn_sound_def
        adapter_unread_def sent_by_def)
qed

lemma conn_arrive_moves:
  assumes "gorilla_link lib" and "conn_sound lib c" and "fst f = BinaryMessage"
  shows "conn_moves lib c (snd f) [] (c\<lparr>wc_ws := map_option (\<lambda>w. lib_receive lib w f) (wc_ws c)\<rparr>)"
  using assms
  by (cases f) (auto simp: conn_moves_def conn_live_def conn_sound_def adapter_unread_def split: option.splits)

lemma conn_close_moves:
  "conn_sound lib c \<Longrightarrow> conn_moves lib c [] [] (fst (webSocketConn_Close cl c))"
  by (auto simp: webSocketConn_Close_def Let_def conn_moves_def conn_live_def conn_sound_def
      adapter_unread_def split: option.splits)

text \<open>The same of the browser, from the lemmas of its own theory.\<close>

lemma browser_arrive_moves:
  assumes ok: "browser_ok c"
  shows "ep_moves lib (Browser c) m [] (Browser (wasm_step grow (Message reading (Inr m)) c))"
proof (cases "bc_isClosed c")
  case True
  with ok have "\<not> bc_attached c" by (simp add: browser_ok_def)
  with True ok show ?thesis by (simp add: ep_moves_def)
next
  case False
  with ok have "wasm_step grow (Message reading (Inr m)) c = storeIncomingMessage grow reading m c"
    by (simp add: browser_ok_def on_message_def)
  then show ?thesis
    using False browser.arrive_unread [OF ok, of grow reading m] browser.arrive_sound [OF ok]
    by (simp add: ep_moves_def)
qed

lemma browser_other_moves:
  assumes ok: "browser_ok c" and ev: "ev = Socket_Error \<or> ev = Socket_Closed reading \<or> ev = Close_Call reading"
  shows "ep_moves lib (Browser c) [] [] (Browser (wasm_step grow ev c))"
proof -
  have unread: "browser_unread c = []" if "bc_isClosed c" using that by (simp add: browser_unread_def)
  show ?thesis
    using ev wasm_step_ok [OF ok, of grow ev] ok
    by (cases "bc_isClosed c")
      (auto simp: ep_moves_def on_error_def on_close_def browser_Close_def browser_ok_def)
qed

lemma browser_read_moves:
  assumes ok: "browser_ok c" and rd: "browser_Read ef c n = (c', out)"
  shows "ep_moves lib (Browser c) [] (case out of Got bs \<Rightarrow> bs | _ \<Rightarrow> []) (Browser c')"
proof -
  note after = browser_Read_ok [OF ok rd]
  show ?thesis
  proof (cases out)
    case (Got bs)
    from browser_Read_got [OF ok] rd Got have "browser_unread c = bs @ browser_unread c'" by blast
    moreover from rd Got have "\<not> bc_isClosed c" by (auto simp: browser_Read_def)
    ultimately show ?thesis using Got after by (simp add: ep_moves_def)
  next
    case Blocked
    with rd browser_Read_blocked [OF ok, of ef n c'] have
      none: "browser_unread c = []" and c': "c' = c\<lparr>bc_token := False\<rparr>" by (simp_all add: browser_unread_def)
    from c' have "browser_unread c' = browser_unread c" by (simp add: browser_unread_def)
    with none Blocked after show ?thesis by (simp add: ep_moves_def)
  next
    case (Failed e)
    show ?thesis
    proof (cases "bc_isClosed c")
      case False
      with rd Failed have buf: "bc_readMessageBuffer c = []" and loop: "read_loop ef c n = (c', Failed e)"
        by (auto simp: browser_Read_def split: if_splits)
      from read_loop_cases [OF ok loop buf] buf False after Failed show ?thesis
        by (simp add: ep_moves_def browser_unread_def)
    qed (use Failed after ok in \<open>simp add: ep_moves_def\<close>)
  qed
qed

text \<open>The calls of an end, whichever it is.\<close>

lemma ep_read_moves:
  assumes "gorilla_link lib" and "ep_sound lib e" and "ep_read lib ef e n = Some (e', bs)"
  shows "ep_moves lib e [] bs e'"
proof (cases e)
  case (Browser c)
  obtain c' out where rd: "browser_Read ef c n = (c', out)" by fastforce
  with Browser assms(3) have "e' = Browser c'" "bs = (case out of Got bs \<Rightarrow> bs | _ \<Rightarrow> [])"
    by (auto split: read_outcome.splits)
  with browser_read_moves [OF _ rd] Browser assms(2) show ?thesis by simp
next
  case (Tunnel_Conn c)
  with assms(3) obtain c' err where "webSocketConn_Read (lib_next lib) (lib_read lib) c n = Some (c', bs, err)"
    "e' = Tunnel_Conn c'" by auto
  with conn_read_moves [OF assms(1)] Tunnel_Conn assms(2) show ?thesis
    unfolding webSocketConn_Read_def by simp
next
  case (Bridge_Conn c)
  with assms(3) obtain c' err where "bridge_Read (lib_next lib) (lib_read lib) c n = Some (c', bs, err)"
    "e' = Bridge_Conn c'" by auto
  with conn_read_moves [OF assms(1)] Bridge_Conn assms(2) show ?thesis
    unfolding bridge_Read_def by simp
qed

lemma ep_write_moves:
  assumes "gorilla_link lib" and "ep_sound lib e" and "ep_write lib ok e p = (e', fs, bs)"
  shows "ep_moves lib e [] [] e' \<and> binary fs \<and> payload fs = bs"
proof (cases e)
  case (Browser c)
  with assms show ?thesis
    by (auto simp: browser_Write_def ep_moves_def split: if_splits)
next
  case (Tunnel_Conn c)
  obtain c' k err where wr: "webSocketConn_Write (lib_write lib) c p = (c', k, err)" by (metis prod_cases3)
  then have "adapter_Write (lib_write lib) ErrClosedPipe c p = (c', k, err)" by (simp add: webSocketConn_Write_def)
  from conn_write_moves [OF assms(1) _ this refl] Tunnel_Conn assms(2,3) wr show ?thesis by auto
next
  case (Bridge_Conn c)
  obtain c' k err where wr: "bridge_Write (lib_write lib) c p = (c', k, err)" by (metis prod_cases3)
  then have "adapter_Write (lib_write lib) NetErrClosed c p = (c', k, err)" by (simp add: bridge_Write_def)
  from conn_write_moves [OF assms(1) _ this refl] Bridge_Conn assms(2,3) wr show ?thesis by auto
qed

lemma ep_arrive_moves:
  assumes "gorilla_link lib" and "ep_sound lib e" and "fst f = BinaryMessage"
  shows "ep_moves lib e (snd f) [] (ep_arrive lib grow reading f e)"
  using assms conn_arrive_moves [OF assms(1)] browser_arrive_moves
  by (cases e) (simp_all del: wasm_step.simps)

lemma ep_close_moves:
  assumes "ep_sound lib e"
  shows "ep_moves lib e [] [] (ep_close lib reading e)"
  using assms conn_close_moves browser_other_moves [of _ "Close_Call reading" reading lib id]
  by (cases e) (simp_all add: bridge_Close_same)

lemma ep_fault_moves:
  assumes "ep_sound lib e"
  shows "ep_moves lib e [] [] (ep_fault closed reading e)"
  using assms browser_other_moves [where grow = id and lib = lib and reading = reading]
  by (cases e; cases closed) (simp_all del: wasm_step.simps)

section \<open>Both directions\<close>

text \<open>What side \<open>i\<close> has still to read: what its connection holds and the frames sent to it.\<close>

definition link_transit :: "('w, 'e) gorilla \<Rightarrow> bool \<Rightarrow> 'w link \<Rightarrow> bytes" where
  "link_transit lib i s = ep_unread lib (sd_conn (s i)) @ payload (sd_wire (s (\<not> i)))"

definition link_sound :: "('w, 'e) gorilla \<Rightarrow> 'w link \<Rightarrow> bool" where
  "link_sound lib s \<longleftrightarrow> gorilla_link lib \<and> (\<forall>i. ep_sound lib (sd_conn (s i)) \<and> binary (sd_wire (s i)))"

lemma link_soundD:
  assumes "link_sound lib s"
  shows "gorilla_link lib" "ep_sound lib (sd_conn (s i))" "binary (sd_wire (s i))"
  using assms by (simp_all add: link_sound_def)

lemma link_step_sound:
  assumes sound: "link_sound lib s" and step: "link_step lib grow s ev s'"
  shows "link_sound lib s'"
  using step
proof cases
  case (write_step ok i p e fs bs)
  with ep_write_moves [OF link_soundD(1,2) [OF sound] write_step(3)] sound show ?thesis
    by (simp add: link_sound_def ep_moves_def)
next
  case (read_step ef i n e bs)
  with ep_read_moves [OF link_soundD(1,2) [OF sound] read_step(3)] sound show ?thesis
    by (simp add: link_sound_def ep_moves_def)
next
  case (deliver_step i f fs reading)
  from link_soundD(3) [OF sound, of "\<not> i"] deliver_step(3) have "fst f = BinaryMessage" "binary fs"
    by simp_all
  with deliver_step ep_arrive_moves [OF link_soundD(1,2) [OF sound]] sound show ?thesis
    by (auto simp: link_sound_def ep_moves_def)
next
  case (close_step i reading)
  with ep_close_moves [OF link_soundD(2) [OF sound]] sound show ?thesis
    by (simp add: link_sound_def ep_moves_def)
next
  case (fault_step i closed reading)
  with ep_fault_moves [OF link_soundD(2) [OF sound]] sound show ?thesis
    by (simp add: link_sound_def ep_moves_def)
qed

lemma link_step_moves:
  assumes sound: "link_sound lib s" and step: "link_step lib grow s ev s'"
  shows "\<exists>a b. sd_written (s' (\<not> i)) = sd_written (s (\<not> i)) @ a \<and> sd_got (s' i) = sd_got (s i) @ b \<and>
    (ep_live lib (sd_conn (s' i)) \<longrightarrow>
       ep_live lib (sd_conn (s i)) \<and> link_transit lib i s @ a = b @ link_transit lib i s') \<and>
    (if ep_live lib (sd_conn (s i)) then prefix b (link_transit lib i s @ a) else b = [])"
  using step
proof cases
  case (write_step ok j p e fs bs)
  note mv = ep_write_moves [OF link_soundD(1,2) [OF sound] write_step(3)]
  show ?thesis
    by (rule exI [of _ "if j = i then [] else bs"], rule exI [of _ "[]"])
      (use mv in \<open>auto simp: write_step link_transit_def ep_moves_def\<close>)
next
  case (read_step ef j n e bs)
  note mv = ep_read_moves [OF link_soundD(1,2) [OF sound] read_step(3)]
  show ?thesis
    by (rule exI [of _ "[]"], rule exI [of _ "if j = i then bs else []"])
      (use mv in \<open>auto simp: read_step link_transit_def ep_moves_def\<close>)
next
  case (deliver_step j f fs reading)
  from link_soundD(3) [OF sound, of "\<not> j"] deliver_step(3) have "fst f = BinaryMessage" by simp
  note mv = ep_arrive_moves [OF link_soundD(1,2) [OF sound] this, of j]
  show ?thesis
    by (rule exI [of _ "[]"], rule exI [of _ "[]"])
      (use mv [of grow reading] deliver_step(3) in \<open>auto simp: deliver_step link_transit_def ep_moves_def\<close>)
next
  case (close_step j reading)
  note mv = ep_close_moves [OF link_soundD(2) [OF sound], of j]
  show ?thesis
    by (rule exI [of _ "[]"], rule exI [of _ "[]"])
      (use mv [of reading] in \<open>auto simp: close_step link_transit_def ep_moves_def\<close>)
next
  case (fault_step j closed reading)
  note mv = ep_fault_moves [OF link_soundD(2) [OF sound], of j]
  show ?thesis
    by (rule exI [of _ "[]"], rule exI [of _ "[]"])
      (use mv [of closed reading] in \<open>auto simp: fault_step link_transit_def ep_moves_def\<close>)
qed

interpretation direction: byte_pipe "link_step lib grow" "\<lambda>s. sd_written (s (\<not> i))" "\<lambda>s. sd_got (s i)"
    "link_transit lib i" "\<lambda>s. ep_live lib (sd_conn (s i))" "link_sound lib"
  for lib :: "('w, 'e) gorilla" and grow and i
  by unfold_locales (blast intro: link_step_sound link_step_moves)+

text \<open>A fresh connection of any kind; its library has nothing to read.\<close>

definition fresh_end :: "('w, 'e) gorilla \<Rightarrow> 'w endpoint \<Rightarrow> bool" where
  "fresh_end lib e \<longleftrightarrow>
     (case e of
        Browser c \<Rightarrow> c = NewBrowserConn
      | Tunnel_Conn c \<Rightarrow> (\<exists>w. c = newWebSocketConn (Some w) \<and> lib_future lib w = [])
      | Bridge_Conn c \<Rightarrow> (\<exists>w. c = bridge_NewWebSocketConn (Some w) \<and> lib_future lib w = []))"

lemma fresh_end_start: "fresh_end lib e \<Longrightarrow> ep_sound lib e \<and> ep_unread lib e = []"
proof (cases e)
  case (Browser c)
  have "browser_unread NewBrowserConn = []"
    by (simp add: browser_unread_def NewBrowserConn_def pending_def)
  moreover assume "fresh_end lib e"
  ultimately show ?thesis using Browser by (simp add: fresh_end_def browser_ok_new)
qed (auto simp: fresh_end_def conn_sound_def adapter_unread_def newWebSocketConn_def
      bridge_NewWebSocketConn_def)

lemma link_reached:
  assumes "gorilla_link lib" and "fresh_end lib a" and "fresh_end lib b"
    and "run_of (link_step lib grow) (link_start a b) evs s"
  shows "link_sound lib s"
    and "ep_live lib (sd_conn (s i)) \<Longrightarrow>
      sd_written (s (\<not> i)) = sd_got (s i) @ ep_unread lib (sd_conn (s i)) @ payload (sd_wire (s (\<not> i)))"
    and "prefix (sd_got (s i)) (sd_written (s (\<not> i)))"
proof -
  have ends: "ep_sound lib (sd_conn (link_start a b j)) \<and> ep_unread lib (sd_conn (link_start a b j)) = []" for j
    using assms(2,3) fresh_end_start [of lib] by (simp add: link_start_def)
  then have sound: "link_sound lib (link_start a b)"
    using assms(1) by (simp add: link_sound_def) (simp add: link_start_def)
  have "link_transit lib i (link_start a b) = []"
    using ends by (simp add: link_transit_def) (simp add: link_start_def)
  with direction.run_balanced [OF assms(4) sound, of i]
  have "link_sound lib s \<and> prefix (sd_got (s i)) (sd_written (s (\<not> i))) \<and>
      (ep_live lib (sd_conn (s i)) \<longrightarrow> sd_written (s (\<not> i)) = sd_got (s i) @ link_transit lib i s)"
    by (simp add: link_start_def)
  then show "link_sound lib s" "prefix (sd_got (s i)) (sd_written (s (\<not> i)))"
    and "ep_live lib (sd_conn (s i)) \<Longrightarrow>
      sd_written (s (\<not> i)) = sd_got (s i) @ ep_unread lib (sd_conn (s i)) @ payload (sd_wire (s (\<not> i)))"
    by (simp_all add: link_transit_def)
qed


text \<open>A library that satisfies the contract: the lists of \<open>list_next\<close> with a record of the writes.\<close>

type_synonym list_socket = "(frame list \<times> bytes) \<times> frame list \<times> bool"

definition list_lib :: "(list_socket, unit) gorilla" where
  "list_lib =
     \<lparr>lib_next = (\<lambda>(q, out, dead).
        if dead then ((q, out, True), Inl ())
        else case list_next q of (q', r) \<Rightarrow> ((q', out, (case r of Inl _ \<Rightarrow> True | Inr _ \<Rightarrow> False)), r)),
      lib_read = (\<lambda>(q, out, dead) n.
        if dead then ((q, out, True), [], Read_err ())
        else case list_read q n of (q', bs, st) \<Rightarrow> ((q', out, False), bs, st)),
      lib_write = (\<lambda>(q, out, dead) ty p. ((q, out @ [(ty, p)], dead), None)),
      lib_close = (\<lambda>_. None),
      lib_receive = (\<lambda>((fs, cur), rest) f. ((fs @ [f], cur), rest)),
      lib_current = (\<lambda>w. snd (fst w)), lib_future = (\<lambda>w. fst (fst w)),
      lib_sent = (\<lambda>w. fst (snd w)), lib_dead = (\<lambda>w. snd (snd w))\<rparr>"

lemma list_lib_simps [simp]:
  "lib_next list_lib (q, out, dead) =
     (if dead then ((q, out, True), Inl ())
      else case list_next q of (q', r) \<Rightarrow> ((q', out, (case r of Inl _ \<Rightarrow> True | Inr _ \<Rightarrow> False)), r))"
  "lib_read list_lib (q, out, dead) n =
     (if dead then ((q, out, True), [], Read_err ())
      else case list_read q n of (q', bs, st) \<Rightarrow> ((q', out, False), bs, st))"
  "lib_write list_lib (q, out, dead) ty p = ((q, out @ [(ty, p)], dead), None)"
  "lib_close list_lib w = None"
  "lib_receive list_lib ((fs, cur), out, dead) f = ((fs @ [f], cur), out, dead)"
  "lib_current list_lib (q, out, dead) = snd q" "lib_future list_lib (q, out, dead) = fst q"
  "lib_sent list_lib (q, out, dead) = out" "lib_dead list_lib (q, out, dead) = dead"
  by (simp_all add: list_lib_def)

lemma list_read_no_error: "list_read q n = (q', bs, st) \<Longrightarrow> st \<noteq> Read_err e"
  by (cases q) (auto split: if_splits)

lemma list_lib_link: "gorilla_link list_lib"
proof -
  have nx: "(lib_dead list_lib w' = (\<exists>e. r = Inl e) \<and> (lib_dead list_lib w \<longrightarrow> (\<exists>e. r = Inl e)) \<and>
      lib_sent list_lib w' = lib_sent list_lib w) \<and>
      (\<forall>ty. r = Inr ty \<longrightarrow> lib_future list_lib w = (ty, lib_current list_lib w') # lib_future list_lib w')"
    if "lib_next list_lib w = (w', r)" for w w' r
  proof -
    obtain q out dead where w: "w = (q, out, dead)" by (metis prod_cases3)
    obtain q' r' where n: "list_next q = (q', r')" by fastforce
    from that w n gorilla_next [OF list_contract, of q q'] show ?thesis
      by (cases dead; cases r') auto
  qed
  have rd: "lib_current list_lib w = bs @ lib_current list_lib w' \<and> lib_future list_lib w' = lib_future list_lib w \<and>
      length bs \<le> n \<and> (st = Read_eof \<longrightarrow> lib_current list_lib w' = []) \<and>
      lib_sent list_lib w' = lib_sent list_lib w \<and> lib_dead list_lib w' = (\<exists>e. st = Read_err e) \<and>
      (lib_dead list_lib w \<longrightarrow> bs = [] \<and> (\<exists>e. st = Read_err e))"
    if "lib_read list_lib w n = (w', bs, st)" for w n w' bs st
  proof -
    obtain q out dead where w: "w = (q, out, dead)" by (metis prod_cases3)
    obtain q' bs' st' where r: "list_read q n = (q', bs', st')" by (metis prod_cases3)
    from that w r gorilla_read [OF list_contract r] list_read_no_error [OF r] show ?thesis
      by (cases dead) (auto simp del: list_read.simps)
  qed
  have wr: "lib_sent list_lib w' = lib_sent list_lib w @ (if err = None then [(ty, p)] else []) \<and>
     lib_current list_lib w' = lib_current list_lib w \<and> lib_future list_lib w' = lib_future list_lib w \<and>
     lib_dead list_lib w' = lib_dead list_lib w" if "lib_write list_lib w ty p = (w', err)" for w ty p w' err
    using that by (cases w rule: prod_cases3) auto
  have rc: "lib_future list_lib (lib_receive list_lib w f) = lib_future list_lib w @ [f] \<and>
        lib_current list_lib (lib_receive list_lib w f) = lib_current list_lib w \<and>
        lib_sent list_lib (lib_receive list_lib w f) = lib_sent list_lib w \<and>
        lib_dead list_lib (lib_receive list_lib w f) = lib_dead list_lib w" for w f
    by (cases w rule: prod_cases3; cases "fst w") simp
  show ?thesis unfolding gorilla_link_def gorilla_reads_def
    by (intro conjI allI impI) (blast dest: nx rd wr | simp only: rc)+
qed

text \<open>A tunnel in which the browser has sent a frame and the server has read a byte of it.\<close>

definition demo_conn :: "list_socket webSocketConn" where
  "demo_conn = newWebSocketConn (Some (([], []), [], False))"

definition demo_link :: "list_socket link" where
  "demo_link = (\<lambda>i. if i
     then \<lparr>sd_conn = Browser NewBrowserConn, sd_wire = [], sd_written = ''ab'', sd_got = []\<rparr>
     else \<lparr>sd_conn = Tunnel_Conn (demo_conn\<lparr>wc_ws := Some (([], ''b''), [], False), wc_reader := True\<rparr>),
            sd_wire = [], sd_written = [], sd_got = ''a''\<rparr>)"

lemma demo_ends: "fresh_end list_lib (Browser NewBrowserConn)" "fresh_end list_lib (Tunnel_Conn demo_conn)"
  by (auto simp: fresh_end_def demo_conn_def list_lib_def)

lemma demo_run:
  "run_of (link_step list_lib Suc) (link_start (Browser NewBrowserConn) (Tunnel_Conn demo_conn))
     [Do_Write True True ''ab'', Do_Deliver False False, Do_Read False False 1] demo_link"
proof -
  let ?s0 = "link_start (Browser NewBrowserConn) (Tunnel_Conn demo_conn) :: list_socket link"
  let ?s1 = "?s0(True := (?s0 True)\<lparr>sd_wire := [(2, ''ab'')], sd_written := ''ab''\<rparr>)"
  let ?s2 = "?s1(False := (?s1 False)\<lparr>sd_conn := ep_arrive list_lib Suc False (2, ''ab'') (sd_conn (?s1 False))\<rparr>,
                 True := (?s1 True)\<lparr>sd_wire := []\<rparr>)"
  have "ep_write list_lib True (sd_conn (?s0 True)) ''ab'' = (Browser NewBrowserConn, [(2, ''ab'')], ''ab'')"
    by (simp add: link_start_def browser_Write_def NewBrowserConn_def BinaryMessage_def)
  from write_step [where s = ?s0 and i = True and grow = Suc, OF this]
  have one: "link_step list_lib Suc ?s0 (Do_Write True True ''ab'') ?s1"
    by (simp add: link_start_def)
  have two: "link_step list_lib Suc ?s1 (Do_Deliver False False) ?s2"
    using deliver_step [of ?s1 False "(2, ''ab'')" "[]" list_lib Suc False] by simp
  have "ep_read list_lib False (sd_conn (?s2 False)) 1 =
      Some (Tunnel_Conn (demo_conn\<lparr>wc_ws := Some (([], ''b''), [], False), wc_reader := True\<rparr>), ''a'')"
    by (simp add: link_start_def demo_conn_def newWebSocketConn_def list_lib_def webSocketConn_Read_def
        adapter_Read_def acquire_reader_def BinaryMessage_def read_frames.simps)
  from read_step [where s = ?s2 and i = False and grow = Suc, OF this]
  have three: "link_step list_lib Suc ?s2 (Do_Read False False 1) demo_link"
    by (rule back_subst [where P = "link_step list_lib Suc ?s2 (Do_Read False False 1)"])
      (rule ext, simp add: demo_link_def link_start_def)
  let ?run = "run_of (link_step list_lib Suc) ?s0"
  have "?run ([Do_Write True True ''ab''] @ [Do_Deliver False False]) ?s2"
    by (rule run_snoc [where s' = ?s1]) (rule run_one, rule one, rule two)
  then have "?run (([Do_Write True True ''ab''] @ [Do_Deliver False False]) @ [Do_Read False False 1]) demo_link"
    by (rule run_snoc [where s' = ?s2]) (rule three)
  then show ?thesis by simp
qed


section \<open>Progress\<close>

lemma run_of_append: "run_of step t evs' u \<Longrightarrow> run_of step s evs t \<Longrightarrow> run_of step s (evs @ evs') u"
proof (induction rule: run_of.induct)
  case (run_snoc t evs' t' ev u)
  then show ?case using run_of.run_snoc [of step s "evs @ evs'" t' ev u] by simp
qed simp

text \<open>
  What a schedule of side \<open>i\<close> that only takes frames and reads with buffers of \<open>n\<close> bytes reaches:
  the browser connection \<open>c\<close> and the frames \<open>fs\<close> left on the wire.
\<close>

definition drains_to ::
    "('w, 'e) gorilla \<Rightarrow> (nat \<Rightarrow> nat) \<Rightarrow> bool \<Rightarrow> nat \<Rightarrow> 'w link \<Rightarrow> browserWebSocketConnection \<Rightarrow>
     frame list \<Rightarrow> link_event list \<Rightarrow> 'w link \<Rightarrow> bool" where
  "drains_to lib grow i n s c fs evs s' \<longleftrightarrow>
     run_of (link_step lib grow) s evs s' \<and>
     list_all (\<lambda>ev. ev = Do_Deliver i False \<or> ev = Do_Read i False n) evs \<and>
     sd_conn (s' i) = Browser c \<and> sd_wire (s' (\<not> i)) = fs \<and> sd_written (s' (\<not> i)) = sd_written (s (\<not> i))"

lemma drains_append:
  "drains_to lib grow i n s c fs evs t \<Longrightarrow> drains_to lib grow i n t c' fs' evs' u \<Longrightarrow>
   drains_to lib grow i n s c' fs' (evs @ evs') u"
  by (auto simp: drains_to_def intro: run_of_append)

lemma drains_one:
  assumes "link_step lib grow s ev s'" and "ev = Do_Deliver i False \<or> ev = Do_Read i False n"
    and "sd_conn (s' i) = Browser c" and "sd_wire (s' (\<not> i)) = fs"
    and "sd_written (s' (\<not> i)) = sd_written (s (\<not> i))"
  shows "drains_to lib grow i n s c fs [ev] s'"
  using assms run_one [where step = "link_step lib grow", OF assms(1)] by (simp add: drains_to_def)

definition drained :: "browserWebSocketConnection \<Rightarrow> bool" where
  "drained c \<longleftrightarrow> browser_ok c \<and> \<not> bc_isClosed c \<and> bc_readMessageBuffer c = [] \<and> pending c = []"

lemma drained_unread: "drained c \<Longrightarrow> browser_unread c = []"
  by (simp add: drained_def browser_unread_def)

text \<open>A read of a connection that holds something takes from it.\<close>

lemma browser_read_progress:
  assumes ok: "browser_ok c" "\<not> bc_isClosed c" and "0 < n"
    and some: "bc_readMessageBuffer c \<noteq> [] \<or> pending c \<noteq> []"
  obtains c' bs where "browser_Read ef c n = (c', Got bs)" "browser_ok c'" "\<not> bc_isClosed c'"
    "length (bc_readMessageBuffer c') + (\<Sum>m\<leftarrow>pending c'. Suc (length m)) <
     length (bc_readMessageBuffer c) + (\<Sum>m\<leftarrow>pending c. Suc (length m))"
proof (cases "bc_readMessageBuffer c = []")
  case False
  let ?c = "c\<lparr>bc_readMessageBuffer := drop n (bc_readMessageBuffer c)\<rparr>"
  have "browser_Read ef c n = (?c, Got (take n (bc_readMessageBuffer c)))"
    using False ok by (simp add: browser_Read_def)
  then show thesis using False ok \<open>0 < n\<close> by (intro that [of ?c]) simp_all
next
  case True
  with some obtain m ms where p: "pending c = m # ms" by (cases "pending c") auto
  obtain c' out where loop: "read_loop ef c n = (c', out)" by fastforce
  with read_pending [OF ok(1) p, of ef n] have out: "out = Got (take n m)" by simp
  from read_loop_cases [OF ok(1) loop True] out p have
    after: "browser_ok c'" "\<not> bc_isClosed c'" "pending c' = ms"
    and buf: "bc_readMessageBuffer c' = drop n m"
    using ok(2) \<open>0 < n\<close> by auto
  have "browser_Read ef c n = (c', Got (take n m))"
    using loop out True ok by (simp add: browser_Read_def)
  then show thesis using after buf p True by (intro that [of c']) simp_all
qed

lemma drain_reads:
  assumes "0 < n"
  shows "sd_conn (s i) = Browser c \<Longrightarrow> browser_ok c \<Longrightarrow> \<not> bc_isClosed c \<Longrightarrow>
    \<exists>evs s' c'. drains_to lib grow i n s c' (sd_wire (s (\<not> i))) evs s' \<and> drained c'"
proof (induction "length (bc_readMessageBuffer c) + (\<Sum>m\<leftarrow>pending c. Suc (length m))"
    arbitrary: s c rule: less_induct)
  case less
  show ?case
  proof (cases "bc_readMessageBuffer c = [] \<and> pending c = []")
    case True
    with less.prems have "drains_to lib grow i n s c (sd_wire (s (\<not> i))) [] s" "drained c"
      by (simp_all add: drains_to_def drained_def run_nil)
    then show ?thesis by blast
  next
    case False
    then obtain c1 bs where rd: "browser_Read False c n = (c1, Got bs)"
      and c1: "browser_ok c1" "\<not> bc_isClosed c1"
        "length (bc_readMessageBuffer c1) + (\<Sum>m\<leftarrow>pending c1. Suc (length m)) <
         length (bc_readMessageBuffer c) + (\<Sum>m\<leftarrow>pending c. Suc (length m))"
      using browser_read_progress [OF less.prems(2,3) assms] by metis
    let ?s = "s(i := (s i)\<lparr>sd_conn := Browser c1, sd_got := sd_got (s i) @ bs\<rparr>)"
    have "link_step lib grow s (Do_Read i False n) ?s"
      using rd less.prems(1) by (intro read_step) simp
    then have one: "drains_to lib grow i n s c1 (sd_wire (s (\<not> i))) [Do_Read i False n] ?s"
      by (rule drains_one) simp_all
    from less.hyps [OF c1(3) _ c1(1,2), of ?s] obtain evs s' c' where
      "drains_to lib grow i n ?s c' (sd_wire (s (\<not> i))) evs s'" "drained c'" by auto
    with drains_append [OF one] show ?thesis by blast
  qed
qed

text \<open>A drained connection takes any frame of at most 16 MiB, so the wire can be emptied.\<close>

lemma drain_wire:
  assumes "0 < n"
  shows "sd_conn (s i) = Browser c \<Longrightarrow> drained c \<Longrightarrow> sd_wire (s (\<not> i)) = fs \<Longrightarrow> binary fs \<Longrightarrow>
    list_all (\<lambda>f. int (length (snd f)) \<le> limitConnectionQueuedBytes) fs \<Longrightarrow>
    \<exists>evs s' c'. drains_to lib grow i n s c' [] evs s' \<and> drained c'"
proof (induction fs arbitrary: s c)
  case Nil
  then have "drains_to lib grow i n s c [] [] s" by (simp add: drains_to_def run_nil)
  with Nil show ?case by blast
next
  case (Cons f fs)
  let ?c = "storeIncomingMessage grow False (snd f) c"
  let ?s = "s(i := (s i)\<lparr>sd_conn := Browser ?c\<rparr>, \<not> i := (s (\<not> i))\<lparr>sd_wire := fs\<rparr>)"
  from Cons.prems(2) have ok: "browser_ok c" "\<not> bc_isClosed c" "pending c = []"
    by (simp_all add: drained_def)
  from Cons.prems(5) ok(3) have "fits c (snd f)" by (simp add: fits_def limitConnectionQueuedMessages_def)
  with ok have c: "browser_ok ?c" "\<not> bc_isClosed ?c"
    by (auto intro: store_cases [OF ok(1), of grow False "snd f"])
  have "ep_arrive lib grow False f (Browser c) = Browser ?c"
    using ok Cons.prems(4) by (simp add: browser_ok_def on_message_def)
  then have "link_step lib grow s (Do_Deliver i False) ?s"
    using deliver_step [of s i f fs lib grow False] Cons.prems(1,3) by simp
  then have one: "drains_to lib grow i n s ?c fs [Do_Deliver i False] ?s"
    by (rule drains_one) simp_all
  from drain_reads [OF assms _ c, where s = ?s and i = i and lib = lib and grow = grow]
  obtain evs t c1 where two: "drains_to lib grow i n ?s c1 fs evs t" "drained c1" by auto
  then have "sd_conn (t i) = Browser c1" "sd_wire (t (\<not> i)) = fs" by (simp_all add: drains_to_def)
  from Cons.IH [OF this(1) two(2) this(2)] Cons.prems(4,5) obtain evs' u c2 where
    "drains_to lib grow i n t c2 [] evs' u" "drained c2" by auto
  with drains_append [OF drains_append [OF one two(1)]] show ?case by blast
qed


lemma demo_reply:
  "run_of (link_step list_lib Suc) (link_start (Browser NewBrowserConn) (Tunnel_Conn demo_conn))
     [Do_Write False True ''ab'']
     ((link_start (Browser NewBrowserConn) (Tunnel_Conn demo_conn))(False :=
        \<lparr>sd_conn = Tunnel_Conn (demo_conn\<lparr>wc_ws := Some (([], []), [(2, ''ab'')], False)\<rparr>),
         sd_wire = [(2, ''ab'')], sd_written = ''ab'', sd_got = []\<rparr>))"
proof -
  let ?s0 = "link_start (Browser NewBrowserConn) (Tunnel_Conn demo_conn) :: list_socket link"
  have "ep_write list_lib True (sd_conn (?s0 False)) ''ab'' =
      (Tunnel_Conn (demo_conn\<lparr>wc_ws := Some (([], []), [(2, ''ab'')], False)\<rparr>), [(2, ''ab'')], ''ab'')"
    by (simp add: link_start_def demo_conn_def newWebSocketConn_def list_lib_def webSocketConn_Write_def
        adapter_Write_def sent_by_def BinaryMessage_def)
  from run_one [where step = "link_step list_lib Suc", OF write_step [where s = ?s0 and i = False and grow = Suc, OF this]]
  show ?thesis by (simp add: link_start_def)
qed


end
