(* ===== verification/Example_Helpers.thy ===== *)
theory Example_Helpers
  imports Proxy_Handler Bridge_Instance
begin

text \<open>
  The helpers of the examples (\<open>src/examples/_shared/helpers\<close>): a proxy and a server handler without
  guard, keepalive or limits, and their own cache of buffer pools. At the end the life of a websocket
  as all four upgrade handlers of the repository share it, stated as a locale.
\<close>

section \<open>Buffer pools\<close>

definition helper_isCacheableWebSocketWriteBufferSize :: "int \<Rightarrow> bool" where
  "helper_isCacheableWebSocketWriteBufferSize bufferSize \<longleftrightarrow>
     bufferSize \<in> {4096, 8 * 1024, 16 * 1024, 32 * 1024, 64 * 1024}"

definition helper_buildWebSocketWriteBufferPool :: "pool_cache \<Rightarrow> int \<Rightarrow> pool_cache \<times> nat" where
  "helper_buildWebSocketWriteBufferPool c bufferSize =
     (let bufferSize = (if bufferSize \<le> 0 then 4096 else bufferSize);
          fresh = pools_made c;
          made = c\<lparr>pools_made := Suc fresh\<rparr>
      in if \<not> helper_isCacheableWebSocketWriteBufferSize bufferSize then (made, fresh)
         else case cached_pools c bufferSize of
           Some pool \<Rightarrow> (c, pool)
         | None \<Rightarrow> (made\<lparr>cached_pools := (cached_pools c)(bufferSize \<mapsto> fresh)\<rparr>, fresh))"

lemma helper_pools_same: "helper_buildWebSocketWriteBufferPool = buildWebSocketWriteBufferPool"
  by (simp add: helper_buildWebSocketWriteBufferPool_def buildWebSocketWriteBufferPool_def fun_eq_iff
      helper_isCacheableWebSocketWriteBufferSize_def isCacheableWebSocketWriteBufferSize_def
      parseDefaultWebSocketBufferSize_def)

section \<open>The session both handlers run\<close>

text \<open>
  What a request meets: whether gorilla's \<open>Upgrade\<close> succeeds and which of the calls panic. After
  the upgrade both handlers have the same code; \<open>OnDisconnect\<close> is deferred only once \<open>OnConnect\<close> has
  returned.
\<close>

record helper_env =
  he_upgrade :: "Upgrader \<Rightarrow> http_request \<Rightarrow> bool"
  he_connect_panics :: bool
  he_serve_panics :: bool
  he_disconnect_panics :: bool

definition helper_connected :: "hook option \<Rightarrow> helper_env \<Rightarrow> h_event list" where
  [handler_defs]: "helper_connected onDisconnect env =
     deferring
       (case onDisconnect of
          None \<Rightarrow> []
        | Some h \<Rightarrow> OnDisconnectCalled h # (if he_disconnect_panics env then [Panicked] else []))
       (deferring [ConnClose] (ServedConn [] # (if he_serve_panics env then [Panicked] else [])))"

definition helper_session :: "hook option \<Rightarrow> hook option \<Rightarrow> helper_env \<Rightarrow> h_event list" where
  [handler_defs]: "helper_session onConnect onDisconnect env =
     deferring [WsClose]
       (case onConnect of
          None \<Rightarrow> helper_connected onDisconnect env
        | Some h \<Rightarrow> OnConnectCalled h #
            (if he_connect_panics env then [Panicked] else helper_connected onDisconnect env))"

section \<open>The server\<close>

record ServerConfig =
  sv_GRPCServer_nil :: bool
  sv_CheckOrigin :: "(http_request option \<Rightarrow> bool) option"
  sv_ReadBufferSize :: int
  sv_WriteBufferSize :: int
  sv_OnConnect :: "hook option"
  sv_OnDisconnect :: "hook option"

definition helper_upgrader :: "int \<Rightarrow> int \<Rightarrow> (http_request option \<Rightarrow> bool) option \<Rightarrow> Upgrader" where
  "helper_upgrader readSize writeSize check =
     \<lparr>up_ReadBufferSize = readSize, up_WriteBufferSize = writeSize, up_CheckOrigin = check,
      up_EnableCompression = False\<rparr>"

definition ServeHandler ::
    "pool_cache \<Rightarrow> ServerConfig \<Rightarrow> pool_cache \<times> nat \<times> (helper_env \<Rightarrow> http_request \<Rightarrow> h_event list)" where
  [handler_defs]: "ServeHandler pools cfg =
     (let cfg = (if sv_ReadBufferSize cfg = 0
                 then cfg\<lparr>sv_ReadBufferSize := parseDefaultWebSocketBufferSize\<rparr> else cfg);
          cfg = (if sv_WriteBufferSize cfg = 0
                 then cfg\<lparr>sv_WriteBufferSize := parseDefaultWebSocketBufferSize\<rparr> else cfg);
          made = helper_buildWebSocketWriteBufferPool pools (sv_WriteBufferSize cfg);
          upgrader = helper_upgrader (sv_ReadBufferSize cfg) (sv_WriteBufferSize cfg) (sv_CheckOrigin cfg)
      in (fst made, snd made,
          (\<lambda>env r.
            if \<not> he_upgrade env upgrader r then [UpgradeTried False]
            else UpgradeTried True # helper_session (sv_OnConnect cfg) (sv_OnDisconnect cfg) env)))"

text \<open>\<open>Serve\<close>: the handler on a listener, with the timeouts of its \<open>http.Server\<close>.\<close>

record helper_server =
  hv_handler :: "helper_env \<Rightarrow> http_request \<Rightarrow> h_event list"
  hv_ReadTimeout :: duration
  hv_WriteTimeout :: duration
  hv_IdleTimeout :: duration

definition helper_Serve :: "pool_cache \<Rightarrow> bool \<Rightarrow> 'l \<Rightarrow> 'l \<times> helper_server" where
  "helper_Serve pools grpcServer_nil listener =
     (listener,
      \<lparr>hv_handler = snd (snd (ServeHandler pools
         \<lparr>sv_GRPCServer_nil = grpcServer_nil, sv_CheckOrigin = None, sv_ReadBufferSize = 0,
          sv_WriteBufferSize = 0, sv_OnConnect = None, sv_OnDisconnect = None\<rparr>)),
       hv_ReadTimeout = 15 * second, hv_WriteTimeout = 15 * second, hv_IdleTimeout = 60 * second\<rparr>)"

section \<open>The proxy\<close>

record HelperConfig =
  hp_TargetAddress :: string
  hp_CheckOrigin :: "(http_request option \<Rightarrow> bool) option"
  hp_ReadBufferSize :: int
  hp_WriteBufferSize :: int
  hp_Logger :: "hook option"
  hp_OnConnect :: "hook option"
  hp_OnDisconnect :: "hook option"

definition parseProxyTargetURL :: "string \<Rightarrow> target_error + URL" where
  "parseProxyTargetURL address =
     (if address = [] then Inl TargetRequired
      else case url_Parse (''http://'' @ address) of
        Inl e \<Rightarrow> Inl (InvalidTarget e)
      | Inr u \<Rightarrow> if u_Host u = [] then Inl TargetWithoutHost else Inr u)"

definition shouldWarnProxyPlaintextBackend :: "string \<Rightarrow> bool" where
  "shouldWarnProxyPlaintextBackend host =
     (let host = strings_TrimSpace host in
      if host = [] then True
      else if strings_EqualFold_ascii host ''localhost'' then False
      else case net_ParseIP host of
        Some ip \<Rightarrow> \<not> ip_IsLoopback ip
      | None \<Rightarrow> True)"

text \<open>A handler with an \<open>initErr\<close> has no proxy; \<open>hh_dialTimeout\<close> is the backend dialer's timeout.\<close>

record helper_handler =
  hh_config :: HelperConfig
  hh_upgrader :: Upgrader
  hh_pool :: nat
  hh_target :: "URL option"
  hh_dialTimeout :: duration
  hh_initErr :: "target_error option"

definition helper_NewHandler ::
    "pool_cache \<Rightarrow> HelperConfig \<Rightarrow> pool_cache \<times> helper_handler \<times> h_event list" where
  [handler_defs]: "helper_NewHandler pools cfg =
     (let cfg = (if hp_ReadBufferSize cfg = 0
                 then cfg\<lparr>hp_ReadBufferSize := parseDefaultWebSocketBufferSize\<rparr> else cfg);
          cfg = (if hp_WriteBufferSize cfg = 0
                 then cfg\<lparr>hp_WriteBufferSize := parseDefaultWebSocketBufferSize\<rparr> else cfg);
          cfg = (if hp_Logger cfg = None then cfg\<lparr>hp_Logger := Some ''default''\<rparr> else cfg);
          made = helper_buildWebSocketWriteBufferPool pools (hp_WriteBufferSize cfg);
          h = \<lparr>hh_config = cfg,
               hh_upgrader = helper_upgrader (hp_ReadBufferSize cfg) (hp_WriteBufferSize cfg) (hp_CheckOrigin cfg),
               hh_pool = snd made, hh_target = None, hh_dialTimeout = 0, hh_initErr = None\<rparr>
      in case parseProxyTargetURL (hp_TargetAddress cfg) of
           Inl e \<Rightarrow> (fst made, h\<lparr>hh_initErr := Some e\<rparr>, [LogEvent [] ''Bridge configuration warning''])
         | Inr target \<Rightarrow>
             (fst made, h\<lparr>hh_target := Some target, hh_dialTimeout := 10 * second\<rparr>,
              if shouldWarnProxyPlaintextBackend (url_Hostname target)
              then [LogEvent [] ''Bridge security warning''] else []))"

definition helper_director :: "URL \<Rightarrow> URL \<times> string \<Rightarrow> URL \<times> string" where
  "helper_director target req =
     ((fst req)\<lparr>u_Scheme := u_Scheme target, u_Host := u_Host target\<rparr>, u_Host target)"

definition helper_ErrorHandler :: "h_event list" where
  "helper_ErrorHandler = [LogEvent [] ''Proxy error'', WriteStatus StatusBadGateway]"

definition helper_ServeHTTP :: "helper_handler \<Rightarrow> helper_env \<Rightarrow> http_request \<Rightarrow> h_event list" where
  [handler_defs]: "helper_ServeHTTP h env r =
     (if hh_initErr h \<noteq> None
      then [LogEvent [] ''Bridge request rejected'', WriteStatus StatusInternalServerError]
      else if \<not> he_upgrade env (hh_upgrader h) r
      then [UpgradeTried False, LogEvent [] ''WebSocket upgrade failed'']
      else UpgradeTried True #
        helper_session (hp_OnConnect (hh_config h)) (hp_OnDisconnect (hh_config h)) env)"

section \<open>The life of a websocket\<close>

text \<open>The events of a connection's life, and those by which it is served (a lifetime limit closes it).\<close>

fun life_event :: "h_event \<Rightarrow> bool" where
  "life_event (UpgradeTried ok) = True"
| "life_event WsClose = True"
| "life_event (OnConnectCalled h) = True"
| "life_event (OnDisconnectCalled h) = True"
| "life_event ConnClose = True"
| "life_event (Delivered ok) = True"
| "life_event (ServedConn hdr) = True"
| "life_event _ = False"

fun serving :: "h_event \<Rightarrow> bool" where
  "serving (ServedConn hdr) = True"
| "serving (Delivered ok) = True"
| "serving _ = False"

definition life :: "h_event list \<Rightarrow> h_event list" where
  "life tr = filter life_event tr"

lemma life_simps [simp]:
  "life [] = []"
  "life (e # tr) = (if life_event e then e # life tr else life tr)"
  "life (tr @ tr') = life tr @ life tr'"
  "life (deferring d tr) = life tr @ life d"
  by (simp_all add: life_def)

text \<open>
  The shape of a life: no upgrade; or the upgrade, some of connect, service, close and disconnect,
  and the close of the socket.
\<close>

definition middle_ok :: "hook option \<Rightarrow> hook option \<Rightarrow> h_event list \<Rightarrow> bool" where
  "middle_ok c d mid \<longleftrightarrow>
     mid = [] \<or> mid = map OnConnectCalled (the_list c) \<or>
     (\<exists>s extra. serving s \<and> set extra \<subseteq> {ConnClose} \<and>
        mid = map OnConnectCalled (the_list c) @ [s] @ extra @ [ConnClose] @ map OnDisconnectCalled (the_list d))"

definition life_ok :: "hook option \<Rightarrow> hook option \<Rightarrow> h_event list \<Rightarrow> bool" where
  "life_ok c d l \<longleftrightarrow>
     l = [] \<or> l = [UpgradeTried False] \<or> (\<exists>mid. l = UpgradeTried True # mid @ [WsClose] \<and> middle_ok c d mid)"

text \<open>
  What users of a handler rely on: an upgraded socket is closed exactly once, after everything else;
  a request is served only on an upgraded socket, after \<open>OnConnect\<close>, and at most once;
  \<open>OnDisconnect\<close> runs only for a served request, directly after its connection is closed.
\<close>

definition well_lived :: "hook option \<Rightarrow> hook option \<Rightarrow> h_event list \<Rightarrow> bool" where
  "well_lived c d tr \<longleftrightarrow>
     count_list tr WsClose = (if UpgradeTried True \<in> set tr then 1 else 0) \<and>
     (if UpgradeTried True \<in> set tr then last (life tr) = WsClose else True) \<and>
     length (filter serving tr) \<le> 1 \<and>
     (if list_ex serving tr
      then prefix (UpgradeTried True # map OnConnectCalled (the_list c)) (life tr) \<and>
           suffix (ConnClose # map OnDisconnectCalled (the_list d) @ [WsClose]) (life tr)
      else list_all (\<lambda>e. case e of OnDisconnectCalled h \<Rightarrow> False | _ \<Rightarrow> True) tr)"

locale upgrade_lifecycle =
  fixes trace :: "'env \<Rightarrow> http_request \<Rightarrow> h_event list"
    and on_connect :: "hook option" and on_disconnect :: "hook option"
  assumes life_shape: "life_ok on_connect on_disconnect (life (trace env r))"
begin

lemma in_life: "life_event e \<Longrightarrow> e \<in> set (life tr) \<longleftrightarrow> e \<in> set tr"
  by (simp add: life_def)

lemma count_life: "count_list (life tr) WsClose = count_list tr WsClose"
  by (induction tr) auto

lemma serving_life: "filter serving (life tr) = filter serving tr"
proof -
  have "life_event e" if "serving e" for e using that by (cases e) simp_all
  then show ?thesis by (auto simp: life_def filter_filter intro!: filter_cong)
qed

lemma no_disconnects: "list_all (\<lambda>e. case e of OnDisconnectCalled h \<Rightarrow> False | _ \<Rightarrow> True) (life tr) \<longleftrightarrow>
    list_all (\<lambda>e. case e of OnDisconnectCalled h \<Rightarrow> False | _ \<Rightarrow> True) tr"
  by (induction tr) (auto split: h_event.splits)

lemma lives_well: "well_lived on_connect on_disconnect (trace env r)"
proof -
  let ?l = "life (trace env r)"
  have ex: "list_ex serving (trace env r) \<longleftrightarrow> filter serving ?l \<noteq> []"
    by (simp add: serving_life list_ex_iff filter_empty_conv)
  have goal: "well_lived on_connect on_disconnect (trace env r) \<longleftrightarrow>
      count_list ?l WsClose = (if UpgradeTried True \<in> set ?l then 1 else 0) \<and>
      (if UpgradeTried True \<in> set ?l then last ?l = WsClose else True) \<and>
      length (filter serving ?l) \<le> 1 \<and>
      (if filter serving ?l \<noteq> []
       then prefix (UpgradeTried True # map OnConnectCalled (the_list on_connect)) ?l \<and>
            suffix (ConnClose # map OnDisconnectCalled (the_list on_disconnect) @ [WsClose]) ?l
       else list_all (\<lambda>e. case e of OnDisconnectCalled h \<Rightarrow> False | _ \<Rightarrow> True) ?l)"
    unfolding well_lived_def ex count_life no_disconnects serving_life by (simp add: in_life)
  have closes: "count_list extra WsClose = 0" "filter serving extra = []" if "set extra \<subseteq> {ConnClose}" for extra
    using that by (induction extra) auto
  have hooks: "count_list (map OnConnectCalled xs) WsClose = 0" "filter serving (map OnConnectCalled xs) = []"
    "count_list (map OnDisconnectCalled xs) WsClose = 0" "filter serving (map OnDisconnectCalled xs) = []" for xs
    by (induction xs) simp_all
  from life_shape [of env r] consider "?l = []" | "?l = [UpgradeTried False]"
    | (mid) mid where "?l = UpgradeTried True # mid @ [WsClose]" "middle_ok on_connect on_disconnect mid"
    unfolding life_ok_def by blast
  then show ?thesis
  proof cases
    case mid
    from mid(2) consider (short) "mid = [] \<or> mid = map OnConnectCalled (the_list on_connect)"
      | (served) s extra where "serving s" "set extra \<subseteq> {ConnClose}"
        "mid = map OnConnectCalled (the_list on_connect) @ [s] @ extra @ [ConnClose] @
           map OnDisconnectCalled (the_list on_disconnect)"
      unfolding middle_ok_def by blast
    then show ?thesis
    proof cases
      case short
      with mid(1) show ?thesis unfolding goal by (auto simp: hooks list_all_iff)
    next
      case served
      from served(1) have "s \<noteq> WsClose" by auto
      with mid(1) served closes [OF served(2)] show ?thesis
        unfolding goal by (simp add: hooks suffix_def)
    qed
  qed (unfold goal, simp_all)
qed

end

section \<open>The four handlers\<close>

lemma middle_none: "middle_ok c d []"
  and middle_connect: "middle_ok c d (map OnConnectCalled (the_list c))"
  by (simp_all add: middle_ok_def)

lemma middle_served:
  "serving s \<Longrightarrow> set extra \<subseteq> {ConnClose} \<Longrightarrow>
   middle_ok c d (map OnConnectCalled (the_list c) @ s # extra @ ConnClose # map OnDisconnectCalled (the_list d))"
  unfolding middle_ok_def by fastforce

lemma life_upgraded: "middle_ok c d mid \<Longrightarrow> life_ok c d (UpgradeTried True # mid @ [WsClose])"
  by (simp add: life_ok_def)

lemma life_helper_session:
  "life (helper_session c d env) =
     map OnConnectCalled (the_list c) @
     (if c \<noteq> None \<and> he_connect_panics env then []
      else ServedConn [] # ConnClose # map OnDisconnectCalled (the_list d)) @ [WsClose]"
  by (simp add: helper_session_def helper_connected_def split: option.split)

lemma helper_session_ok: "life_ok c d (UpgradeTried True # life (helper_session c d env))"
proof -
  have "middle_ok c d (map OnConnectCalled (the_list c) @
     (if c \<noteq> None \<and> he_connect_panics env then []
      else ServedConn [] # ConnClose # map OnDisconnectCalled (the_list d)))"
    using middle_connect middle_served [of "ServedConn []" "[]" c d] by simp
  from life_upgraded [OF this] show ?thesis unfolding life_helper_session append_assoc .
qed

lemma ServeHandler_trace:
  "snd (snd (ServeHandler pools cfg)) env r =
     (let u = helper_upgrader (if sv_ReadBufferSize cfg = 0 then parseDefaultWebSocketBufferSize else sv_ReadBufferSize cfg)
        (if sv_WriteBufferSize cfg = 0 then parseDefaultWebSocketBufferSize else sv_WriteBufferSize cfg) (sv_CheckOrigin cfg)
      in if \<not> he_upgrade env u r then [UpgradeTried False]
         else UpgradeTried True # helper_session (sv_OnConnect cfg) (sv_OnDisconnect cfg) env)"
  by (simp add: ServeHandler_def Let_def)

interpretation helper_server: upgrade_lifecycle "snd (snd (ServeHandler pools cfg))" "sv_OnConnect cfg" "sv_OnDisconnect cfg"
  for pools cfg
proof
  fix env r
  show "life_ok (sv_OnConnect cfg) (sv_OnDisconnect cfg) (life (snd (snd (ServeHandler pools cfg)) env r))"
    unfolding ServeHandler_trace Let_def using helper_session_ok by (simp add: life_ok_def)
qed

interpretation helper_proxy: upgrade_lifecycle "helper_ServeHTTP h" "hp_OnConnect (hh_config h)" "hp_OnDisconnect (hh_config h)"
  for h
proof
  fix env r
  show "life_ok (hp_OnConnect (hh_config h)) (hp_OnDisconnect (hh_config h)) (life (helper_ServeHTTP h env r))"
    unfolding helper_ServeHTTP_def using helper_session_ok by (simp add: life_ok_def)
qed

lemma life_proxy_connected:
  "life (proxy_connected cfg env) = ServedConn [] # ConnClose # map OnDisconnectCalled (the_list (hc_OnDisconnect cfg))"
  by (simp add: proxy_connected_def split: option.split)

lemma life_proxy_upgraded:
  "life (proxy_upgraded cfg env) =
     (if applyHandlerConnectionSettings cfg (pe_deadline_ok env) (pe_setup_at env) = None then []
      else map OnConnectCalled (the_list (hc_OnConnect cfg)) @
        (if hc_OnConnect cfg \<noteq> None \<and> pe_connect_panics env then []
         else ServedConn [] # ConnClose # map OnDisconnectCalled (the_list (hc_OnDisconnect cfg)))) @ [WsClose]"
  by (simp add: proxy_upgraded_def life_proxy_connected Let_def split: option.split)

lemma life_proxy:
  "life (ServeHTTP h env r) =
     (if ph_initErr h \<noteq> None \<or> pe_reserve env \<noteq> None then []
      else if \<not> pe_upgrade env (ph_upgrader h) r then [UpgradeTried False]
      else UpgradeTried True # life (proxy_upgraded (ph_config h) env))"
  by (simp add: ServeHTTP_def Let_def split: option.split)

interpretation proxy: upgrade_lifecycle "ServeHTTP h" "hc_OnConnect (ph_config h)" "hc_OnDisconnect (ph_config h)"
  for h
proof
  fix env :: proxy_env and r
  let ?c = "hc_OnConnect (ph_config h)" and ?d = "hc_OnDisconnect (ph_config h)"
  have "middle_ok ?c ?d (if applyHandlerConnectionSettings (ph_config h) (pe_deadline_ok env) (pe_setup_at env) = None then []
      else map OnConnectCalled (the_list ?c) @
        (if ?c \<noteq> None \<and> pe_connect_panics env then []
         else ServedConn [] # ConnClose # map OnDisconnectCalled (the_list ?d)))"
    using middle_none middle_connect middle_served [of "ServedConn []" "[]" ?c ?d] by simp
  from life_upgraded [OF this]
  show "life_ok ?c ?d (life (ServeHTTP h env r))"
    unfolding life_proxy life_proxy_upgraded by (auto simp: life_ok_def simp del: the_list_simps)
qed

lemma life_session:
  "\<exists>s extra. serving s \<and> set extra \<subseteq> {ConnClose} \<and> life (serve_session cfg env r) = s # extra"
proof -
  let ?l = "life (serve_session cfg env r)"
  have "?l \<noteq> [] \<and> serving (hd ?l) \<and> set (tl ?l) \<subseteq> {ConnClose}"
    by (simp add: serve_session_def Let_def)
  then show ?thesis by (metis list.collapse)
qed

lemma life_bridge:
  "life_ok (OnConnect cfg) (OnDisconnect cfg) (life (bridgeHandler cfg env r))"
proof -
  let ?c = "OnConnect cfg" and ?d = "OnDisconnect cfg"
  obtain s extra where s: "serving s" "set extra \<subseteq> {ConnClose}" "life (serve_session cfg env r) = s # extra"
    using life_session by blast
  then have connected: "life (run_connected cfg env r) =
      s # extra @ ConnClose # map OnDisconnectCalled (the_list ?d)"
    by (simp add: run_connected_def split: option.split)
  have "life (run_upgraded cfg env r) =
     (if \<not> settings_ok cfg env then []
      else map OnConnectCalled (the_list ?c) @
        (if ?c \<noteq> None \<and> env_connect_panics env then []
         else s # extra @ ConnClose # map OnDisconnectCalled (the_list ?d))) @ [WsClose]"
    by (simp add: run_upgraded_def connected Let_def split: option.split)
  moreover have "middle_ok ?c ?d (if \<not> settings_ok cfg env then []
      else map OnConnectCalled (the_list ?c) @
        (if ?c \<noteq> None \<and> env_connect_panics env then []
         else s # extra @ ConnClose # map OnDisconnectCalled (the_list ?d)))"
    using middle_none middle_connect middle_served [OF s(1,2), of ?c ?d] by simp
  ultimately have "life_ok ?c ?d (UpgradeTried True # life (run_upgraded cfg env r))"
    using life_upgraded by simp
  then show ?thesis
    by (auto simp: bridgeHandler_def run_authorized_def Let_def life_ok_def split: option.split)
qed

interpretation bridge: upgrade_lifecycle "bridgeHandler cfg" "OnConnect cfg" "OnDisconnect cfg"
  for cfg
  by unfold_locales (rule life_bridge)


section \<open>The helper as the proxy without its limits\<close>

definition package_config :: "HelperConfig \<Rightarrow> HandlerConfig" where
  "package_config cfg =
     \<lparr>hc_TargetAddress = hp_TargetAddress cfg, hc_CheckOrigin = hp_CheckOrigin cfg,
      hc_ReadBufferSize = hp_ReadBufferSize cfg, hc_WriteBufferSize = hp_WriteBufferSize cfg,
      hc_ReadLimitBytes = 0, hc_ShouldDisableReadLimit = False, hc_PingInterval = 0,
      hc_IdleTimeout = 0, hc_BackendDialTimeout = 0, hc_ShouldRequireLoopbackBackend = False,
      hc_MaxActiveConnections = 0, hc_MaxConnectionsPerClient = 0,
      hc_MaxUpgradesPerClientPerMinute = 0, hc_ShouldEnableCompression = False,
      hc_Logger = hp_Logger cfg, hc_OnConnect = hp_OnConnect cfg, hc_OnDisconnect = hp_OnDisconnect cfg\<rparr>"

definition same_world :: "proxy_env \<Rightarrow> helper_env" where
  "same_world env =
     \<lparr>he_upgrade = pe_upgrade env, he_connect_panics = pe_connect_panics env,
      he_serve_panics = pe_serve_panics env, he_disconnect_panics = pe_disconnect_panics env\<rparr>"

lemma warnings_same: "shouldWarnProxyPlaintextBackend = shouldWarnBridgePlaintextBackend"
  by (simp add: shouldWarnProxyPlaintextBackend_def shouldWarnBridgePlaintextBackend_def fun_eq_iff)

lemma helper_target_of_bridge:
  assumes "parseBridgeTargetURL a = Inr u" and "strings_TrimSpace a = a" and "\<not> strings_Contains a ''://''"
  shows "parseProxyTargetURL a = Inr u"
  using assms by (auto simp: parseBridgeTargetURL_def parseProxyTargetURL_def Let_def split: sum.splits if_splits)



text \<open>
  With a scheme the two differ: the package's proxy reads \<open>http://localhost:50051\<close> as the backend
  \<open>localhost:50051\<close>, the helper as the host \<open>http:\<close> with a path, and reports no error.
\<close>

lemma scheme_misread:
  "(case parseProxyTargetURL ''http://localhost:50051'' of Inr u \<Rightarrow> u_Host u = ''http:'' | Inl e \<Rightarrow> False) \<and>
   (case parseBridgeTargetURL ''http://localhost:50051'' of Inr u \<Rightarrow> u_Host u = ''localhost:50051'' | Inl e \<Rightarrow> False)"
  by code_simp

end
