(* ===== verification/Todo_Store.thy ===== *)
theory Todo_Store
  imports Go_Url Go_Http
begin

text \<open>
  The to-do service of the example servers (\<open>src/examples/grpc-server/main.go\<close>; the server of
  \<open>src/examples/direct-bridge/main.go\<close> has the same code): to-dos in insertion order, an index by
  id, and a worker that writes snapshots to a file behind the clients' backs. Every operation runs
  under the server's mutex, so it is one step; the worker's steps come in between.
\<close>

section \<open>The store\<close>

record todo =
  td_Id :: string
  td_Text :: string
  td_Done :: bool

text \<open>
  \<open>container/list\<close>: elements are known by their identity, a number, and hold a value that need not
  be a to-do (\<open>None\<close>). \<open>ts_signal\<close> is the one-element channel \<open>persistSignal\<close>.
\<close>

record todoServer =
  ts_store :: "(nat \<times> todo option) list"
  ts_next :: nat
  ts_storeByID :: "string \<rightharpoonup> nat"
  ts_signal :: bool
  ts_action :: string

definition list_PushBack :: "todo option \<Rightarrow> todoServer \<Rightarrow> todoServer" where
  "list_PushBack v s = s\<lparr>ts_store := ts_store s @ [(ts_next s, v)], ts_next := Suc (ts_next s)\<rparr>"

definition list_Remove :: "nat \<Rightarrow> todoServer \<Rightarrow> todoServer" where
  "list_Remove k s = s\<lparr>ts_store := filter (\<lambda>n. fst n \<noteq> k) (ts_store s)\<rparr>"

definition node_value :: "todoServer \<Rightarrow> nat \<Rightarrow> todo option" where
  "node_value s k = (case map_of (ts_store s) k of Some v \<Rightarrow> v | None \<Rightarrow> None)"

definition set_node :: "nat \<Rightarrow> todo \<Rightarrow> todoServer \<Rightarrow> todoServer" where
  "set_node k t s =
     s\<lparr>ts_store := map (\<lambda>n. if fst n = k then (k, Some t) else n) (ts_store s)\<rparr>"

definition empty_store :: todoServer where
  "empty_store = \<lparr>ts_store = [], ts_next = 0, ts_storeByID = Map.empty, ts_signal = False, ts_action = []\<rparr>"

fun buildTodoStore_loop :: "todo option list \<Rightarrow> todoServer \<Rightarrow> todoServer" where
  "buildTodoStore_loop [] s = s"
| "buildTodoStore_loop (None # ts) s = buildTodoStore_loop ts s"
| "buildTodoStore_loop (Some t # ts) s =
     (if td_Id t = [] then buildTodoStore_loop ts s
      else if ts_storeByID s (td_Id t) \<noteq> None then buildTodoStore_loop ts s
      else buildTodoStore_loop ts
        ((list_PushBack (Some t) s)\<lparr>ts_storeByID := (ts_storeByID s)(td_Id t \<mapsto> ts_next s)\<rparr>))"

definition buildTodoStore :: "todo option list \<Rightarrow> todoServer" where
  "buildTodoStore ts = buildTodoStore_loop ts empty_store"

fun snapshot_loop :: "(nat \<times> todo option) list \<Rightarrow> todo list" where
  "snapshot_loop [] = []"
| "snapshot_loop ((k, None) # ns) = snapshot_loop ns"
| "snapshot_loop ((k, Some t) # ns) = t # snapshot_loop ns"

definition buildTodosSnapshot :: "todoServer \<Rightarrow> todo list" where
  "buildTodosSnapshot s = snapshot_loop (ts_store s)"

definition signalTodosPersistLocked :: "string \<Rightarrow> todoServer \<Rightarrow> todoServer" where
  "signalTodosPersistLocked action s = s\<lparr>ts_action := action, ts_signal := True\<rparr>"

text \<open>The operations; \<open>newID\<close> is the fresh UUID of a creation.\<close>

definition CreateTodo :: "string \<Rightarrow> string \<Rightarrow> todoServer \<Rightarrow> todoServer \<times> todo" where
  "CreateTodo newID txt s =
     (let t = \<lparr>td_Id = newID, td_Text = txt, td_Done = False\<rparr>
      in (signalTodosPersistLocked ''create''
            ((list_PushBack (Some t) s)\<lparr>ts_storeByID := (ts_storeByID s)(newID \<mapsto> ts_next s)\<rparr>), t))"

definition ListTodos :: "todoServer \<Rightarrow> todo list" where
  "ListTodos s = buildTodosSnapshot s"

definition UpdateTodo :: "string \<Rightarrow> string \<Rightarrow> bool \<Rightarrow> todoServer \<Rightarrow> todoServer \<times> todo option" where
  "UpdateTodo i txt d s =
     (case ts_storeByID s i of
        None \<Rightarrow> (s, None)
      | Some k \<Rightarrow>
          (case node_value s k of
             None \<Rightarrow> (list_Remove k (s\<lparr>ts_storeByID := (ts_storeByID s)(i := None)\<rparr>), None)
           | Some cur \<Rightarrow>
               (let t = \<lparr>td_Id = td_Id cur, td_Text = txt, td_Done = d\<rparr>
                in (signalTodosPersistLocked ''update'' (set_node k t s), Some t))))"

definition DeleteTodo :: "string \<Rightarrow> todoServer \<Rightarrow> todoServer \<times> bool" where
  "DeleteTodo i s =
     (case ts_storeByID s i of
        None \<Rightarrow> (s, False)
      | Some k \<Rightarrow>
          (signalTodosPersistLocked ''delete''
             ((list_Remove k s)\<lparr>ts_storeByID := (ts_storeByID s)(i := None)\<rparr>), True))"

section \<open>The invariant\<close>

text \<open>The index and the list name the same to-dos, each element once, all of them to-dos.\<close>

definition store_ok :: "todoServer \<Rightarrow> bool" where
  "store_ok s \<longleftrightarrow>
     distinct (map fst (ts_store s)) \<and> (\<forall>n \<in> set (ts_store s). fst n < ts_next s \<and> snd n \<noteq> None) \<and>
     (\<forall>i k. ts_storeByID s i = Some k \<longleftrightarrow> (\<exists>t. (k, Some t) \<in> set (ts_store s) \<and> td_Id t = i))"

lemma store_ok_empty: "store_ok empty_store"
  by (simp add: store_ok_def empty_store_def)

lemma snapshot_set: "set (snapshot_loop ns) = {t. \<exists>k. (k, Some t) \<in> set ns}"
  by (induction ns rule: snapshot_loop.induct) auto

lemma indexed: "store_ok s \<Longrightarrow> (k, Some t) \<in> set (ts_store s) \<Longrightarrow> ts_storeByID s (td_Id t) = Some k"
  by (auto simp: store_ok_def)

lemma index_dom: "store_ok s \<Longrightarrow> (ts_storeByID s i \<noteq> None) = (i \<in> td_Id ` set (buildTodosSnapshot s))"
  unfolding buildTodosSnapshot_def snapshot_set by (auto simp: store_ok_def)

lemma push_ok:
  assumes ok: "store_ok s" and new: "ts_storeByID s (td_Id t) = None"
  shows "store_ok ((list_PushBack (Some t) s)\<lparr>ts_storeByID := (ts_storeByID s)(td_Id t \<mapsto> ts_next s)\<rparr>)"
proof -
  have fresh: "(ts_next s, v) \<notin> set (ts_store s)" for v using ok by (auto simp: store_ok_def)
  have no: "td_Id u \<noteq> td_Id t" if "(k, Some u) \<in> set (ts_store s)" for k u
    using indexed [OF ok that] new by auto
  show ?thesis
    using ok fresh no by (auto simp: store_ok_def list_PushBack_def less_Suc_eq)
qed

lemma signal_ok [simp]: "store_ok (signalTodosPersistLocked a s) = store_ok s"
  by (simp add: store_ok_def signalTodosPersistLocked_def)

lemma signal_store [simp]:
  "buildTodosSnapshot (signalTodosPersistLocked a s) = buildTodosSnapshot s"
  "ts_signal (signalTodosPersistLocked a s)"
  by (simp_all add: buildTodosSnapshot_def signalTodosPersistLocked_def)

lemma node_value_indexed:
  assumes "store_ok s" and "ts_storeByID s i = Some k"
  obtains t where "node_value s k = Some t" and "td_Id t = i" and "(k, Some t) \<in> set (ts_store s)"
proof -
  from assms obtain t where "(k, Some t) \<in> set (ts_store s)" "td_Id t = i" "distinct (map fst (ts_store s))"
    unfolding store_ok_def by blast
  then show thesis by (intro that [of t]) (simp_all add: node_value_def)
qed

text \<open>In a good store an element is determined by its id.\<close>

lemma node_of_id:
  assumes "store_ok s" and "ts_storeByID s i = Some k" and "(k', Some t) \<in> set (ts_store s)"
  shows "k' = k \<longleftrightarrow> td_Id t = i"
proof
  assume "td_Id t = i"
  with assms show "k' = k" unfolding store_ok_def by (metis option.inject)
next
  assume "k' = k"
  moreover from assms obtain u where "(k, Some u) \<in> set (ts_store s)" "td_Id u = i"
    unfolding store_ok_def by blast
  ultimately show "td_Id t = i"
    using assms unfolding store_ok_def by (metis eq_key_imp_eq_value option.inject)
qed

lemma remove_ok:
  assumes ok: "store_ok s" and k: "ts_storeByID s i = Some k"
  shows "store_ok ((list_Remove k s)\<lparr>ts_storeByID := (ts_storeByID s)(i := None)\<rparr>)"
proof -
  have "distinct (map fst (filter (\<lambda>n. fst n \<noteq> k) (ts_store s)))"
    using ok by (simp add: store_ok_def distinct_map_filter)
  moreover have "((ts_storeByID s)(i := None)) j = Some m \<longleftrightarrow>
      (\<exists>t. (m, Some t) \<in> set (filter (\<lambda>n. fst n \<noteq> k) (ts_store s)) \<and> td_Id t = j)" for j m
    using ok node_of_id [OF ok k] unfolding store_ok_def by auto
  ultimately show ?thesis using ok by (auto simp: store_ok_def list_Remove_def)
qed

lemma set_node_ok:
  assumes ok: "store_ok s" and k: "ts_storeByID s i = Some k" and i: "td_Id t = i"
  shows "store_ok (set_node k t s)"
proof -
  have keys: "map fst (ts_store (set_node k t s)) = map fst (ts_store s)"
    by (simp add: set_node_def comp_def if_distrib [of fst] cong: if_cong)
  from ok k obtain u where u: "(k, Some u) \<in> set (ts_store s)" unfolding store_ok_def by blast
  have "(m, Some v) \<in> set (ts_store (set_node k t s)) \<longleftrightarrow>
      (if m = k then v = t else (m, Some v) \<in> set (ts_store s))" for m v
    using u by (force simp: set_node_def)
  moreover have "ts_storeByID s j = Some m \<longleftrightarrow>
      (\<exists>v. (if m = k then v = t else (m, Some v) \<in> set (ts_store s)) \<and> td_Id v = j)" for j m
  proof (cases "m = k")
    case True
    have "td_Id v = i" if "(k, Some v) \<in> set (ts_store s)" for v using node_of_id [OF ok k that] by simp
    with True show ?thesis using ok k i u unfolding store_ok_def by auto
  qed (use ok in \<open>simp add: store_ok_def\<close>)
  moreover have "\<forall>n \<in> set (ts_store (set_node k t s)). fst n < ts_next s \<and> snd n \<noteq> None"
    using ok u by (auto simp: set_node_def store_ok_def)
  ultimately show ?thesis using ok keys by (simp add: store_ok_def) (simp add: set_node_def)
qed

section \<open>The service as a list of to-dos\<close>

text \<open>What a client sees: a list in insertion order, without identities, index or signal.\<close>

datatype todo_op = Create string string | Update string string bool | Delete string | ListAll
datatype todo_reply = Todo "todo option" | Deleted bool | Todos "todo list"

fun todo_apply :: "todo_op \<Rightarrow> todoServer \<Rightarrow> todoServer \<times> todo_reply" where
  "todo_apply (Create i txt) s = map_prod id (Todo \<circ> Some) (CreateTodo i txt s)"
| "todo_apply (Update i txt d) s = map_prod id Todo (UpdateTodo i txt d s)"
| "todo_apply (Delete i) s = map_prod id Deleted (DeleteTodo i s)"
| "todo_apply ListAll s = (s, Todos (ListTodos s))"

fun list_apply :: "todo_op \<Rightarrow> todo list \<Rightarrow> todo list \<times> todo_reply" where
  "list_apply (Create i txt) ts =
     (let t = \<lparr>td_Id = i, td_Text = txt, td_Done = False\<rparr> in (ts @ [t], Todo (Some t)))"
| "list_apply (Update i txt d) ts =
     (let t = \<lparr>td_Id = i, td_Text = txt, td_Done = d\<rparr>
      in (map (\<lambda>u. if td_Id u = i then t else u) ts,
          Todo (if i \<in> td_Id ` set ts then Some t else None)))"
| "list_apply (Delete i) ts = (filter (\<lambda>u. td_Id u \<noteq> i) ts, Deleted (i \<in> td_Id ` set ts))"
| "list_apply ListAll ts = (ts, Todos ts)"

text \<open>The to-dos a file contributes: of those with an id, the first one with each id.\<close>

fun first_by_id :: "string set \<Rightarrow> todo option list \<Rightarrow> todo list" where
  "first_by_id seen [] = []"
| "first_by_id seen (None # ts) = first_by_id seen ts"
| "first_by_id seen (Some t # ts) =
     (if td_Id t = [] \<or> td_Id t \<in> seen then first_by_id seen ts
      else t # first_by_id (insert (td_Id t) seen) ts)"

lemma snapshot_append: "snapshot_loop (ns @ ms) = snapshot_loop ns @ snapshot_loop ms"
  by (induction ns rule: snapshot_loop.induct) simp_all

lemma snapshot_push [simp]:
  "buildTodosSnapshot (list_PushBack (Some t) s) = buildTodosSnapshot s @ [t]"
  by (simp add: buildTodosSnapshot_def list_PushBack_def snapshot_append)

lemma snapshot_index [simp]: "buildTodosSnapshot (s\<lparr>ts_storeByID := m\<rparr>) = buildTodosSnapshot s"
  by (simp add: buildTodosSnapshot_def)

text \<open>Removing or replacing an element by its identity is removing or replacing by its id.\<close>

lemma snapshot_remove:
  assumes "\<And>k' t. (k', Some t) \<in> set ns \<Longrightarrow> (k' = k) = (td_Id t = i)"
  shows "snapshot_loop (filter (\<lambda>n. fst n \<noteq> k) ns) = filter (\<lambda>t. td_Id t \<noteq> i) (snapshot_loop ns)"
  using assms by (induction ns rule: snapshot_loop.induct) auto

lemma snapshot_set_node:
  assumes "\<And>k' u. (k', Some u) \<in> set ns \<Longrightarrow> (k' = k) = (td_Id u = i)"
    and "\<forall>n \<in> set ns. snd n \<noteq> None"
  shows "snapshot_loop (map (\<lambda>n. if fst n = k then (k, Some t) else n) ns) =
    map (\<lambda>u. if td_Id u = i then t else u) (snapshot_loop ns)"
  using assms by (induction ns rule: snapshot_loop.induct) auto

lemma no_such_id:
  "store_ok s \<Longrightarrow> ts_storeByID s i = None \<Longrightarrow> t \<in> set (buildTodosSnapshot s) \<Longrightarrow> td_Id t \<noteq> i"
  using index_dom [of s i] by auto

lemma create_refines:
  assumes "store_ok s" and "i \<notin> td_Id ` set (buildTodosSnapshot s)"
  shows "store_ok (fst (todo_apply (Create i txt) s)) \<and>
    map_prod buildTodosSnapshot id (todo_apply (Create i txt) s) = list_apply (Create i txt) (buildTodosSnapshot s)"
  using assms index_dom [of s i] push_ok [of s "\<lparr>td_Id = i, td_Text = txt, td_Done = False\<rparr>"]
  by (simp add: CreateTodo_def Let_def)

lemma delete_refines:
  assumes ok: "store_ok s"
  shows "store_ok (fst (todo_apply (Delete i) s)) \<and>
    map_prod buildTodosSnapshot id (todo_apply (Delete i) s) = list_apply (Delete i) (buildTodosSnapshot s)"
proof (cases "ts_storeByID s i")
  case None
  with ok index_dom [OF ok, of i] no_such_id [OF ok None] show ?thesis
    by (auto simp: DeleteTodo_def intro: filter_True [symmetric])
next
  case (Some k)
  have "buildTodosSnapshot (list_Remove k s) = filter (\<lambda>t. td_Id t \<noteq> i) (buildTodosSnapshot s)"
    by (simp add: buildTodosSnapshot_def list_Remove_def snapshot_remove [OF node_of_id [OF ok Some]])
  with Some remove_ok [OF ok Some] index_dom [OF ok, of i] show ?thesis
    by (simp add: DeleteTodo_def)
qed

lemma update_refines:
  assumes ok: "store_ok s"
  shows "store_ok (fst (todo_apply (Update i txt d) s)) \<and>
    map_prod buildTodosSnapshot id (todo_apply (Update i txt d) s) =
      list_apply (Update i txt d) (buildTodosSnapshot s)"
proof (cases "ts_storeByID s i")
  case None
  with ok index_dom [OF ok, of i] no_such_id [OF ok None] show ?thesis
    by (auto simp: UpdateTodo_def Let_def intro: map_idI [symmetric])
next
  case (Some k)
  let ?t = "\<lparr>td_Id = i, td_Text = txt, td_Done = d\<rparr>"
  from node_value_indexed [OF ok Some] obtain cur where cur: "node_value s k = Some cur" "td_Id cur = i"
    by blast
  have "buildTodosSnapshot (set_node k ?t s) = map (\<lambda>u. if td_Id u = i then ?t else u) (buildTodosSnapshot s)"
    using ok by (simp add: buildTodosSnapshot_def set_node_def snapshot_set_node [OF node_of_id [OF ok Some]]
        store_ok_def)
  with Some cur set_node_ok [OF ok Some, of ?t] index_dom [OF ok, of i] show ?thesis
    by (simp add: UpdateTodo_def Let_def)
qed

text \<open>Whole runs. Ids of creations are UUIDs: not empty, and like no id in the store.\<close>

fun fresh_for :: "todo_op \<Rightarrow> todo list \<Rightarrow> bool" where
  "fresh_for (Create i txt) ts \<longleftrightarrow> i \<noteq> [] \<and> i \<notin> td_Id ` set ts"
| "fresh_for op ts \<longleftrightarrow> True"

fun todo_run :: "todo_op list \<Rightarrow> todoServer \<Rightarrow> todoServer \<times> todo_reply list" where
  "todo_run [] s = (s, [])"
| "todo_run (op # ops) s =
     (let (s', r) = todo_apply op s; (s'', rs) = todo_run ops s' in (s'', r # rs))"

fun list_run :: "todo_op list \<Rightarrow> todo list \<Rightarrow> todo list \<times> todo_reply list" where
  "list_run [] ts = (ts, [])"
| "list_run (op # ops) ts =
     (let (ts', r) = list_apply op ts; (ts'', rs) = list_run ops ts' in (ts'', r # rs))"

fun fresh_run :: "todo_op list \<Rightarrow> todo list \<Rightarrow> bool" where
  "fresh_run [] ts \<longleftrightarrow> True"
| "fresh_run (op # ops) ts \<longleftrightarrow> fresh_for op ts \<and> fresh_run ops (fst (list_apply op ts))"

lemma apply_refines:
  assumes "store_ok s" and "fresh_for op (buildTodosSnapshot s)"
  shows "store_ok (fst (todo_apply op s))"
    and "map_prod buildTodosSnapshot id (todo_apply op s) = list_apply op (buildTodosSnapshot s)"
  using assms create_refines [OF assms(1)] update_refines [OF assms(1)] delete_refines [OF assms(1)]
  by (cases op; simp add: ListTodos_def)+

lemma run_refines:
  "store_ok s \<Longrightarrow> fresh_run ops (buildTodosSnapshot s) \<Longrightarrow>
   store_ok (fst (todo_run ops s)) \<and>
   map_prod buildTodosSnapshot id (todo_run ops s) = list_run ops (buildTodosSnapshot s)"
proof (induction ops arbitrary: s)
  case (Cons op ops)
  from Cons.prems have fresh: "fresh_for op (buildTodosSnapshot s)" by simp
  obtain s' r where a: "todo_apply op s = (s', r)" by fastforce
  with apply_refines [OF Cons.prems(1) fresh] have ok: "store_ok s'"
    and l: "list_apply op (buildTodosSnapshot s) = (buildTodosSnapshot s', r)" by simp_all
  from Cons.prems l have "fresh_run ops (buildTodosSnapshot s')" by simp
  note IH = Cons.IH [OF ok this]
  then have "list_run ops (buildTodosSnapshot s') =
      map_prod buildTodosSnapshot id (todo_run ops s')" by (rule conjunct2 [THEN sym])
  with IH a l show ?case by (cases "todo_run ops s'") simp
qed simp

text \<open>The lists of a run have distinct ids, none of them empty.\<close>

definition ids_ok :: "todo list \<Rightarrow> bool" where
  "ids_ok ts \<longleftrightarrow> distinct (map td_Id ts) \<and> [] \<notin> td_Id ` set ts"

lemma update_ids: "map td_Id (map (\<lambda>u. if td_Id u = i then \<lparr>td_Id = i, td_Text = x, td_Done = d\<rparr> else u) ts) = map td_Id ts"
  by (induction ts) auto

lemma list_apply_ids: "ids_ok ts \<Longrightarrow> fresh_for op ts \<Longrightarrow> ids_ok (fst (list_apply op ts))"
proof (cases op)
  case (Update i x d)
  assume ids: "ids_ok ts"
  have e: "map td_Id (fst (list_apply op ts)) = map td_Id ts"
    unfolding Update list_apply.simps Let_def fst_conv by (rule update_ids)
  from ids show ?thesis unfolding ids_ok_def set_map [symmetric] e .
qed (auto simp: ids_ok_def Let_def distinct_map_filter)

lemma first_by_id_ids: "ids_ok (first_by_id seen items) \<and> td_Id ` set (first_by_id seen items) \<inter> seen = {}"
  by (induction seen items rule: first_by_id.induct) (auto simp: ids_ok_def)

lemma first_by_id_fix: "ids_ok ts \<Longrightarrow> td_Id ` set ts \<inter> seen = {} \<Longrightarrow> first_by_id seen (map Some ts) = ts"
  by (induction ts arbitrary: seen) (auto simp: ids_ok_def)

lemma build_loop:
  "store_ok s \<Longrightarrow> store_ok (buildTodoStore_loop ts s) \<and>
   buildTodosSnapshot (buildTodoStore_loop ts s) =
     buildTodosSnapshot s @ first_by_id (td_Id ` set (buildTodosSnapshot s)) ts"
proof (induction ts s rule: buildTodoStore_loop.induct)
  case (3 t ts s)
  note dom = index_dom [OF 3(4), of "td_Id t"]
  show ?case
  proof (cases "td_Id t = [] \<or> td_Id t \<in> td_Id ` set (buildTodosSnapshot s)")
    case True
    with 3 dom show ?thesis by auto
  next
    case False
    let ?s = "(list_PushBack (Some t) s)\<lparr>ts_storeByID := (ts_storeByID s)(td_Id t \<mapsto> ts_next s)\<rparr>"
    from False dom have new: "ts_storeByID s (td_Id t) = None" by auto
    from push_ok [OF 3(4) new] have "store_ok ?s" .
    with 3(3) False new show ?thesis by simp
  qed
qed simp_all

lemma build_ok: "store_ok (buildTodoStore items)"
    and build_snapshot: "buildTodosSnapshot (buildTodoStore items) = first_by_id {} items"
  using build_loop [OF store_ok_empty, of items]
  by (simp_all add: buildTodoStore_def) (simp add: buildTodosSnapshot_def empty_store_def)

text \<open>
  C35. A server started from the items of a file answers every sequence of requests like a plain list of
  to-dos with one entry per id: order of insertion, updates in place, a second deletion fails. The
  list's elements, the index and the branch for corrupt elements are invisible.
\<close>

theorem todo_store_refines_list:
  fixes items ops
  defines "s \<equiv> buildTodoStore items"
  assumes "fresh_run ops (first_by_id {} items)"
  shows "snd (todo_run ops s) = snd (list_run ops (first_by_id {} items)) \<and>
    ListTodos (fst (todo_run ops s)) = fst (list_run ops (first_by_id {} items)) \<and>
    distinct (map td_Id (ListTodos s))"
proof -
  have "distinct (map td_Id (first_by_id {} items))"
    using first_by_id_ids [of "{}" items] by (simp add: ids_ok_def)
  moreover from run_refines [OF build_ok, of ops items] assms
  have "map_prod buildTodosSnapshot id (todo_run ops s) = list_run ops (first_by_id {} items)"
    by (simp add: build_snapshot)
  ultimately show ?thesis
    by (cases "todo_run ops s") (auto simp: ListTodos_def s_def build_snapshot dest: sym)
qed

theorem todo_store_refines_list_witness:
  "snd (todo_run [Create ''b'' ''two'', Delete ''a'', Delete ''a''] (buildTodoStore
     [Some \<lparr>td_Id = ''a'', td_Text = ''one'', td_Done = True\<rparr>, None,
      Some \<lparr>td_Id = ''a'', td_Text = ''dup'', td_Done = False\<rparr>])) =
   [Todo (Some \<lparr>td_Id = ''b'', td_Text = ''two'', td_Done = False\<rparr>), Deleted True, Deleted False]"
proof -
  let ?items = "[Some \<lparr>td_Id = ''a'', td_Text = ''one'', td_Done = True\<rparr>, None,
    Some \<lparr>td_Id = ''a'', td_Text = ''dup'', td_Done = False\<rparr>]"
  let ?ops = "[Create ''b'' ''two'', Delete ''a'', Delete ''a'']"
  have "fresh_run ?ops (first_by_id {} ?items)" by simp
  from todo_store_refines_list [OF this]
  have "snd (todo_run ?ops (buildTodoStore ?items)) = snd (list_run ?ops (first_by_id {} ?items))" by blast
  also have "\<dots> = [Todo (Some \<lparr>td_Id = ''b'', td_Text = ''two'', td_Done = False\<rparr>), Deleted True, Deleted False]"
    by (auto simp: Let_def)
  finally show ?thesis .
qed

end
