(* ===== verification/Todo_Persist.thy ===== *)
theory Todo_Persist
  imports Todo_Store
begin

text \<open>
  How the to-do service of the examples keeps its file: start-up from the file, and the worker that
  writes a snapshot some time after a change, while clients go on. JSON is a parameter: \<open>encode\<close>
  and \<open>decode\<close> are \<open>json.Marshal\<close> and \<open>json.Unmarshal\<close> on lists of to-dos.
\<close>

section \<open>Loading\<close>

datatype load_error = DirectoryFailed | CreateFailed | ReadFailed

text \<open>
  \<open>file\<close> is the file's content, if it exists; \<open>write_ok\<close> and \<open>read_ok\<close> say whether those calls
  succeed, \<open>after_reset\<close> is what the reset of an invalid file leaves, whose error is ignored.
\<close>

definition loadTodos ::
    "(string \<Rightarrow> todo option list option) \<Rightarrow> bool \<Rightarrow> bool \<Rightarrow> string \<Rightarrow> string option \<Rightarrow>
     string option \<times> (load_error + todo option list)" where
  "loadTodos decode write_ok read_ok after_reset file =
     (case (case file of None \<Rightarrow> if write_ok then Some ''[]'' else None | Some b \<Rightarrow> Some b) of
        None \<Rightarrow> (None, Inl CreateFailed)
      | Some b \<Rightarrow>
          if \<not> read_ok then (Some b, Inl ReadFailed)
          else if b = [] then (Some b, Inr [])
          else case decode b of
            None \<Rightarrow> (Some after_reset, Inr [])
          | Some ts \<Rightarrow> (Some b, Inr ts))"

text \<open>The direct bridge makes the directory first.\<close>

definition direct_loadTodos ::
    "(string \<Rightarrow> todo option list option) \<Rightarrow> bool \<Rightarrow> bool \<Rightarrow> bool \<Rightarrow> string \<Rightarrow> string option \<Rightarrow>
     string option \<times> (load_error + todo option list)" where
  "direct_loadTodos decode mkdir_ok write_ok read_ok after_reset file =
     (if file = None \<and> \<not> mkdir_ok then (None, Inl DirectoryFailed)
      else loadTodos decode write_ok read_ok after_reset file)"

text \<open>\<open>newTodoServer\<close>, given what was loaded; its worker starts waiting.\<close>

definition newTodoServer :: "load_error + todo option list \<Rightarrow> load_error + todoServer" where
  "newTodoServer loaded = (case loaded of Inl e \<Rightarrow> Inl e | Inr ts \<Rightarrow> Inr (buildTodoStore ts))"

section \<open>The worker\<close>

text \<open>
  The worker waits for a signal, lets a timer run that every further signal restarts, takes a
  snapshot under the lock and writes it. Signals and the timer race, so both may come while it
  debounces. A write that fails leaves the file with some content.
\<close>

datatype worker_phase = Awaiting | Debouncing | Persisting "todo list"

record todo_system =
  sy_server :: todoServer
  sy_phase :: worker_phase
  sy_file :: string

datatype todo_event = Request todo_op | Wakes | Signalled | TimerFires | Saved | SaveFails string

fun todo_step :: "(todo list \<Rightarrow> string) \<Rightarrow> todo_event \<Rightarrow> todo_system \<Rightarrow> todo_system option" where
  "todo_step encode (Request op) y =
     (if fresh_for op (ListTodos (sy_server y))
      then Some (y\<lparr>sy_server := fst (todo_apply op (sy_server y))\<rparr>) else None)"
| "todo_step encode Wakes y =
     (if sy_phase y = Awaiting \<and> ts_signal (sy_server y)
      then Some (y\<lparr>sy_phase := Debouncing, sy_server := (sy_server y)\<lparr>ts_signal := False\<rparr>\<rparr>) else None)"
| "todo_step encode Signalled y =
     (if sy_phase y = Debouncing \<and> ts_signal (sy_server y)
      then Some (y\<lparr>sy_server := (sy_server y)\<lparr>ts_signal := False\<rparr>\<rparr>) else None)"
| "todo_step encode TimerFires y =
     (if sy_phase y = Debouncing
      then Some (y\<lparr>sy_phase := Persisting (buildTodosSnapshot (sy_server y))\<rparr>) else None)"
| "todo_step encode Saved y =
     (case sy_phase y of
        Persisting ts \<Rightarrow> Some (y\<lparr>sy_phase := Awaiting, sy_file := encode ts\<rparr>)
      | _ \<Rightarrow> None)"
| "todo_step encode (SaveFails content) y =
     (case sy_phase y of
        Persisting ts \<Rightarrow> Some (y\<lparr>sy_phase := Awaiting, sy_file := content\<rparr>)
      | _ \<Rightarrow> None)"

fun todo_runs :: "(todo list \<Rightarrow> string) \<Rightarrow> todo_event list \<Rightarrow> todo_system \<Rightarrow> todo_system option" where
  "todo_runs encode [] y = Some y"
| "todo_runs encode (e # es) y =
     (case todo_step encode e y of None \<Rightarrow> None | Some y' \<Rightarrow> todo_runs encode es y')"

definition todo_start :: "(todo list \<Rightarrow> string) \<Rightarrow> todo option list \<Rightarrow> todo_system" where
  "todo_start encode items =
     \<lparr>sy_server = buildTodoStore items, sy_phase = Awaiting, sy_file = encode (first_by_id {} items)\<rparr>"

fun is_failure :: "todo_event \<Rightarrow> bool" where
  "is_failure (SaveFails content) \<longleftrightarrow> True"
| "is_failure e \<longleftrightarrow> False"

text \<open>
  What a save must still pick up: while the worker waits, an unsaved change has left its signal;
  while it writes, one since the snapshot has.
\<close>

definition persist_ok :: "(todo list \<Rightarrow> string) \<Rightarrow> todo_system \<Rightarrow> bool" where
  "persist_ok encode y \<longleftrightarrow>
     (case sy_phase y of
        Awaiting \<Rightarrow> ts_signal (sy_server y) \<or> sy_file y = encode (ListTodos (sy_server y))
      | Debouncing \<Rightarrow> True
      | Persisting ts \<Rightarrow> ts_signal (sy_server y) \<or> ts = ListTodos (sy_server y))"

definition server_ok :: "todoServer \<Rightarrow> bool" where
  "server_ok s \<longleftrightarrow> store_ok s \<and> ids_ok (ListTodos s)"

lemma signal_frame [simp]:
  "server_ok (s\<lparr>ts_signal := b\<rparr>) = server_ok s" "ListTodos (s\<lparr>ts_signal := b\<rparr>) = ListTodos s"
  by (simp_all add: server_ok_def store_ok_def ListTodos_def buildTodosSnapshot_def)

lemma server_ok_apply:
  assumes "server_ok s" and "fresh_for op (ListTodos s)"
  shows "server_ok (fst (todo_apply op s))"
proof -
  from assms have ok: "store_ok s" and f: "fresh_for op (buildTodosSnapshot s)"
    and ids: "ids_ok (buildTodosSnapshot s)" by (simp_all add: server_ok_def ListTodos_def)
  from apply_refines(2) [OF ok f]
  have "buildTodosSnapshot (fst (todo_apply op s)) = fst (list_apply op (buildTodosSnapshot s))"
    by (metis fst_map_prod)
  with apply_refines(1) [OF ok f] list_apply_ids [OF ids f] show ?thesis
    by (simp add: server_ok_def ListTodos_def)
qed

text \<open>A request that changes the list signals; one that does not leaves the signal.\<close>

lemma apply_signals:
  assumes "store_ok s"
  shows "ts_signal (fst (todo_apply op s)) \<or>
    ListTodos (fst (todo_apply op s)) = ListTodos s \<and> ts_signal (fst (todo_apply op s)) = ts_signal s"
proof (cases op)
  case (Update i x d)
  show ?thesis
  proof (cases "ts_storeByID s i")
    case (Some k)
    from node_value_indexed [OF assms Some] obtain cur where "node_value s k = Some cur" by blast
    with Update Some show ?thesis by (simp add: UpdateTodo_def Let_def)
  qed (use Update in \<open>simp add: UpdateTodo_def\<close>)
next
  case (Delete i)
  then show ?thesis by (cases "ts_storeByID s i") (simp_all add: DeleteTodo_def)
qed (simp_all add: CreateTodo_def Let_def)

lemma todo_step_ok:
  assumes "todo_step encode e y = Some y'" and "server_ok (sy_server y)" and "persist_ok encode y"
    and "\<not> is_failure e"
  shows "server_ok (sy_server y') \<and> persist_ok encode y'"
proof (cases e)
  case (Request op)
  with assms have y': "y' = y\<lparr>sy_server := fst (todo_apply op (sy_server y))\<rparr>"
    and f: "fresh_for op (ListTodos (sy_server y))" by (auto split: if_splits)
  have "store_ok (sy_server y)" using assms(2) by (simp add: server_ok_def)
  from apply_signals [OF this, of op] assms(3) server_ok_apply [OF assms(2) f] show ?thesis
    by (auto simp: y' persist_ok_def split: worker_phase.splits)
qed (use assms in \<open>auto simp: persist_ok_def ListTodos_def split: if_splits worker_phase.splits\<close>)

lemma todo_runs_append:
  "todo_runs encode es y = Some y' \<Longrightarrow> todo_runs encode (es @ es') y = todo_runs encode es' y'"
  by (induction es arbitrary: y) (auto split: option.splits)

lemma todo_runs_ok:
  "todo_runs encode es y = Some y' \<Longrightarrow> server_ok (sy_server y) \<Longrightarrow> persist_ok encode y \<Longrightarrow>
   list_all (\<lambda>e. \<not> is_failure e) es \<Longrightarrow> server_ok (sy_server y') \<and> persist_ok encode y'"
  by (induction es arbitrary: y) (auto split: option.splits dest: todo_step_ok)

lemma todo_start_ok: "server_ok (sy_server (todo_start encode items))" "persist_ok encode (todo_start encode items)"
  using first_by_id_ids [of "{}" items]
  by (simp_all add: todo_start_def server_ok_def persist_ok_def ListTodos_def build_ok build_snapshot)

section \<open>Every change reaches the file\<close>

text \<open>What the worker does when the clients pause: at most five steps.\<close>

fun drain :: "worker_phase \<Rightarrow> bool \<Rightarrow> todo_event list" where
  "drain Awaiting signal = (if signal then [Wakes, TimerFires, Saved] else [])"
| "drain Debouncing signal = (if signal then [Signalled] else []) @ [TimerFires, Saved]"
| "drain (Persisting ts) signal = Saved # (if signal then [Wakes, TimerFires, Saved] else [])"

lemma drain_saves:
  assumes "persist_ok encode y"
  shows "\<exists>y'. todo_runs encode (drain (sy_phase y) (ts_signal (sy_server y))) y = Some y' \<and>
    sy_phase y' = Awaiting \<and> \<not> ts_signal (sy_server y') \<and>
    ListTodos (sy_server y') = ListTodos (sy_server y) \<and> sy_file y' = encode (ListTodos (sy_server y))"
  using assms by (cases "sy_phase y"; cases "ts_signal (sy_server y)")
    (auto simp: persist_ok_def ListTodos_def buildTodosSnapshot_def)



text \<open>A failed write is not tried again until the next change, although the worker is idle.\<close>

lemma failed_save_not_retried:
  "map_option (\<lambda>y. (sy_phase y, ts_signal (sy_server y), sy_file y))
     (todo_runs (\<lambda>ts. ''saved'') [Request (Create ''a'' ''one''), Wakes, TimerFires, SaveFails ''[{'']
        (todo_start (\<lambda>ts. ''[]'') [])) = Some (Awaiting, False, ''[{'')"
  by code_simp

section \<open>Restart\<close>

text \<open>
  A server restarted from the file of a quiet one, in either example, lists the same to-dos and
  leaves the file alone, provided JSON reads back what it wrote.
\<close>

theorem todo_restart_keeps_todos:
  fixes left write_ok mkdir_ok
  assumes "todo_runs encode es (todo_start encode items) = Some y"
    and "list_all (\<lambda>e. \<not> is_failure e) es"
    and "sy_phase y = Awaiting" and "\<not> ts_signal (sy_server y)"
    and json: "decode (encode (ListTodos (sy_server y))) = Some (map Some (ListTodos (sy_server y)))"
      "encode (ListTodos (sy_server y)) \<noteq> []"
  defines "restart \<equiv> loadTodos decode write_ok True left (Some (sy_file y))"
  shows "fst restart = Some (sy_file y) \<and>
    direct_loadTodos decode mkdir_ok write_ok True left (Some (sy_file y)) = restart \<and>
    map_sum id ListTodos (newTodoServer (snd restart)) = Inr (ListTodos (sy_server y))"
proof -
  from todo_runs_ok [OF assms(1) todo_start_ok assms(2)]
  have ids: "ids_ok (ListTodos (sy_server y))" and ok: "persist_ok encode y" by (simp_all add: server_ok_def)
  from ok assms(3,4) have "sy_file y = encode (ListTodos (sy_server y))" by (simp add: persist_ok_def)
  with json have r: "restart = (Some (sy_file y), Inr (map Some (ListTodos (sy_server y))))"
    by (simp add: restart_def loadTodos_def)
  have "ListTodos (buildTodoStore (map Some (ListTodos (sy_server y)))) = ListTodos (sy_server y)"
    using first_by_id_fix [OF ids, of "{}"] by (simp add: ListTodos_def build_snapshot)
  then show ?thesis using r by (simp add: newTodoServer_def direct_loadTodos_def restart_def)
qed

theorem todo_restart_keeps_todos_witness:
  "map_sum id ListTodos (newTodoServer (snd (loadTodos
     (\<lambda>b. Some [Some \<lparr>td_Id = ''a'', td_Text = b, td_Done = False\<rparr>]) True True [] (Some ''one'')))) =
   Inr [\<lparr>td_Id = ''a'', td_Text = ''one'', td_Done = False\<rparr>]"
proof -
  let ?enc = "\<lambda>ts. concat (map td_Text ts)" and ?item = "Some \<lparr>td_Id = ''a'', td_Text = ''one'', td_Done = False\<rparr>"
  let ?dec = "\<lambda>b. Some [Some \<lparr>td_Id = ''a'', td_Text = b, td_Done = False\<rparr>]"
  let ?y = "todo_start ?enc [?item]"
  have l: "ListTodos (sy_server ?y) = [\<lparr>td_Id = ''a'', td_Text = ''one'', td_Done = False\<rparr>]"
    by (simp add: todo_start_def ListTodos_def build_snapshot)
  have run: "todo_runs ?enc [] ?y = Some ?y" and idle: "sy_phase ?y = Awaiting" and f: "sy_file ?y = ''one''"
    by (simp_all add: todo_start_def)
  have sig: "\<not> ts_signal (sy_server ?y)"
    by (simp add: todo_start_def buildTodoStore_def empty_store_def list_PushBack_def)
  from todo_restart_keeps_todos [OF run _ idle sig, of ?dec True "[]" True] show ?thesis by (simp add: l f)
qed

end
