(* ===== verification/Example_Todo.thy ===== *)
theory Example_Todo
  imports Todo_Persist Bridge_Instance
begin

text \<open>
  The example servers around the to-do service: how the worker writes its file
  (\<open>src/examples/grpc-server/main.go\<close>), and the direct bridge (\<open>src/examples/direct-bridge/main.go\<close>),
  which has the same service and serves it through the package's handler to local origins only.
\<close>

section \<open>Saving\<close>

text \<open>
  \<open>json.Marshal\<close> is \<open>encode\<close>. A write that fails leaves \<open>partial\<close> in the file. The results are the
  file and whether there was no error.
\<close>

definition saveTodos ::
    "(todo list \<Rightarrow> string option) \<Rightarrow> bool \<Rightarrow> string \<Rightarrow> string \<Rightarrow> todo list \<Rightarrow> string \<times> bool" where
  "saveTodos encode write_ok partial file ts =
     (case encode ts of
        None \<Rightarrow> (file, False)
      | Some out \<Rightarrow> if write_ok then (out, True) else (partial, False))"

definition handleTodosPersistResult :: "duration \<Rightarrow> bool \<Rightarrow> h_event list" where
  "handleTodosPersistResult took no_error =
     (if \<not> no_error then [LogEvent ''ERROR'' ''failed to persist todos'']
      else if took > 150 * millisecond then [LogEvent ''WARN'' ''persisting todos was slow''] else [])"

text \<open>The end of a run of the worker, and the two events by which the persistence model ends it.\<close>

definition worker_saves ::
    "(todo list \<Rightarrow> string option) \<Rightarrow> bool \<Rightarrow> string \<Rightarrow> duration \<Rightarrow> todo list \<Rightarrow> todo_system \<Rightarrow> todo_system \<times> h_event list"
where
  "worker_saves encode write_ok partial took ts y =
     (case saveTodos encode write_ok partial (sy_file y) ts of
        (file, ok) \<Rightarrow> (y\<lparr>sy_phase := Awaiting, sy_file := file\<rparr>, handleTodosPersistResult took ok))"

text \<open>
  The two events are exactly what the code does: a save either is \<open>Saved\<close>, with no error logged, or
  \<open>SaveFails\<close> with what it left in the file, and an error is logged.
\<close>

lemma save_is_step:
  assumes "sy_phase y = Persisting ts"
  shows "(if encode ts \<noteq> None \<and> write_ok
    then todo_step (the \<circ> encode) Saved y = Some (fst (worker_saves encode write_ok partial took ts y)) \<and>
         LogEvent ''ERROR'' ''failed to persist todos'' \<notin> set (snd (worker_saves encode write_ok partial took ts y))
    else todo_step (the \<circ> encode) (SaveFails (if encode ts = None then sy_file y else partial)) y =
           Some (fst (worker_saves encode write_ok partial took ts y)) \<and>
         snd (worker_saves encode write_ok partial took ts y) = [LogEvent ''ERROR'' ''failed to persist todos''])"
  using assms by (auto simp: worker_saves_def saveTodos_def handleTodosPersistResult_def split: option.split)

section \<open>The direct bridge\<close>

text \<open>Its service: the same code as that of the gRPC server.\<close>

definition direct_buildTodoStore :: "todo option list \<Rightarrow> todoServer" where
  "direct_buildTodoStore = buildTodoStore"

definition direct_buildTodosSnapshot :: "todoServer \<Rightarrow> todo list" where
  "direct_buildTodosSnapshot = buildTodosSnapshot"

definition direct_signalTodosPersistLocked :: "string \<Rightarrow> todoServer \<Rightarrow> todoServer" where
  "direct_signalTodosPersistLocked = signalTodosPersistLocked"

definition direct_saveTodos ::
    "(todo list \<Rightarrow> string option) \<Rightarrow> bool \<Rightarrow> string \<Rightarrow> string \<Rightarrow> todo list \<Rightarrow> string \<times> bool" where
  "direct_saveTodos = saveTodos"

definition direct_handleTodosPersistResult :: "duration \<Rightarrow> bool \<Rightarrow> h_event list" where
  "direct_handleTodosPersistResult = handleTodosPersistResult"

definition direct_todo_step :: "(todo list \<Rightarrow> string) \<Rightarrow> todo_event \<Rightarrow> todo_system \<Rightarrow> todo_system option" where
  "direct_todo_step = todo_step"

definition direct_newTodoServer :: "load_error + todo option list \<Rightarrow> load_error + todoServer" where
  "direct_newTodoServer = newTodoServer"

definition direct_CreateTodo :: "string \<Rightarrow> string \<Rightarrow> todoServer \<Rightarrow> todoServer \<times> todo" where
  "direct_CreateTodo = CreateTodo"

definition direct_ListTodos :: "todoServer \<Rightarrow> todo list" where
  "direct_ListTodos = ListTodos"

definition direct_UpdateTodo :: "string \<Rightarrow> string \<Rightarrow> bool \<Rightarrow> todoServer \<Rightarrow> todoServer \<times> todo option" where
  "direct_UpdateTodo = UpdateTodo"

definition direct_DeleteTodo :: "string \<Rightarrow> todoServer \<Rightarrow> todoServer \<times> bool" where
  "direct_DeleteTodo = DeleteTodo"

text \<open>
  The origin check. \<open>uni\<close> is \<open>strings.ToLower\<close> beyond ASCII; gorilla always passes a request.
\<close>

definition isBridgeOriginAllowed :: "(string \<Rightarrow> string) \<Rightarrow> http_request option \<Rightarrow> bool" where
  "isBridgeOriginAllowed uni r =
     (case r of
        None \<Rightarrow> False
      | Some q \<Rightarrow>
          (let origin = header_Get (Header q) ''Origin''
           in if origin = [] then True
              else case url_Parse origin of
                Inl e \<Rightarrow> False
              | Inr u \<Rightarrow>
                  if u_Host u = [] then False
                  else strings_ToLower uni (url_Hostname u) \<in> {''localhost'', ''127.0.0.1'', ''::1''}))"

definition direct_options :: "(string \<Rightarrow> string) \<Rightarrow> ServerOption list" where
  "direct_options uni =
     [WithOriginCheck (Some (isBridgeOriginAllowed uni)), WithConnectHook (Some ''Client connected''),
      WithDisconnectHook (Some ''Client disconnected'')]"

definition direct_main ::
    "(string \<Rightarrow> string) \<Rightarrow> load_error + todo option list \<Rightarrow> load_error + todoServer \<times> 'l serve_call" where
  "direct_main uni loaded =
     (case direct_newTodoServer loaded of
        Inl e \<Rightarrow> Inl e
      | Inr s \<Rightarrow> Inr (s, ListenAndServe ''127.0.0.1:5000'' False (direct_options uni)))"

section \<open>Who can reach the to-dos\<close>

text \<open>What the check lets pass.\<close>

lemma origin_allowed_iff:
  "isBridgeOriginAllowed uni (Some r) \<longleftrightarrow>
     header_Get (Header r) ''Origin'' = [] \<or>
     (\<exists>u. url_Parse (header_Get (Header r) ''Origin'') = Inr u \<and> u_Host u \<noteq> [] \<and>
        strings_ToLower uni (url_Hostname u) \<in> {''localhost'', ''127.0.0.1'', ''::1''})"
  by (auto simp: isBridgeOriginAllowed_def Let_def split: sum.split)

abbreviation direct_config :: "(string \<Rightarrow> string) \<Rightarrow> BridgeConfig" where
  "direct_config uni \<equiv> buildBridgeConfig (buildServerOptions (direct_options uni))"

lemma direct_config_facts:
  "CheckOrigin (direct_config uni) = Some (isBridgeOriginAllowed uni)"
  "Authorize (direct_config uni) = None"
  "BuildBridgeHandler False (direct_config uni) = Inr (bridgeHandler (applyBridgeKeepaliveDefaults (direct_config uni)))"
  by (simp_all add: BuildBridgeHandler_def direct_options_def config_defs buildServerOptions_def
      defaultServerOptions_def defaultWebSocketBufferSize_def)

lemma direct_server:
  assumes "direct_main uni loaded = Inr (s, Listens srv)"
  shows "hs_Addr srv = ''127.0.0.1:5000''"
    and "hs_Handler srv = bridgeHandler (applyBridgeKeepaliveDefaults (direct_config uni))"
  using assms
  by (auto simp: direct_main_def ListenAndServe_def NewServer_def Wrap_def direct_config_facts split: sum.splits)

text \<open>
  C10. The direct bridge serves its to-dos to local pages only. It listens on a loopback address, and,
  given that gorilla's upgrader refuses what its \<open>CheckOrigin\<close> refuses, every request for which a
  hook is called or a session is served has either no \<open>Origin\<close> header or one that is a URL whose
  host is \<open>localhost\<close>, \<open>127.0.0.1\<close> or \<open>::1\<close>.
\<close>

theorem direct_bridge_is_local:
  assumes "direct_main uni loaded = Inr (s, Listens srv)"
    and gorilla: "\<And>u q f. up_CheckOrigin u = Some f \<Longrightarrow> \<not> f (Some q) \<Longrightarrow> \<not> env_upgrade env u q"
    and "hook_trace (hs_Handler srv env r) \<noteq> []"
  shows "(\<exists>ip port. net_SplitHostPort (hs_Addr srv) = Inr (''127.0.0.1'', port) \<and>
      net_ParseIP ''127.0.0.1'' = Some ip \<and> ip_IsLoopback ip) \<and>
    (header_Get (Header r) ''Origin'' = [] \<or>
     (\<exists>u. url_Parse (header_Get (Header r) ''Origin'') = Inr u \<and> u_Host u \<noteq> [] \<and>
        strings_ToLower uni (url_Hostname u) \<in> {''localhost'', ''127.0.0.1'', ''::1''}))"
proof -
  note srv = direct_server [OF assms(1)]
  have "(case net_SplitHostPort ''127.0.0.1:5000'' of Inr (h, p) \<Rightarrow> h = ''127.0.0.1'' | Inl e \<Rightarrow> False) \<and>
      (case net_ParseIP ''127.0.0.1'' of Some ip \<Rightarrow> ip_IsLoopback ip | None \<Rightarrow> False)"
    by code_simp
  then have address: "\<exists>ip port. net_SplitHostPort (hs_Addr srv) = Inr (''127.0.0.1'', port) \<and>
      net_ParseIP ''127.0.0.1'' = Some ip \<and> ip_IsLoopback ip"
    unfolding srv(1) by (auto split: sum.splits option.splits prod.splits)
  have "env_upgrade env (buildUpgrader (applyBridgeKeepaliveDefaults (direct_config uni))) r"
    using assms(3) hooks_outside [of "applyBridgeKeepaliveDefaults (direct_config uni)" env r]
    unfolding srv(2) reaches_hooks_def by blast
  moreover have "up_CheckOrigin (buildUpgrader (applyBridgeKeepaliveDefaults (direct_config uni))) =
      Some (isBridgeOriginAllowed uni)"
    using direct_config_facts(1) by (simp add: buildUpgrader_def Let_def)
  ultimately have "isBridgeOriginAllowed uni (Some r)" using gorilla by blast
  with address show ?thesis unfolding origin_allowed_iff by blast
qed

theorem direct_bridge_is_local_witness:
  "\<exists>srv u. direct_main id (Inr []) = Inr (empty_store, Listens srv :: unit serve_call) \<and>
     url_Parse ''http://localhost:3000'' = Inr u \<and> strings_ToLower id (url_Hostname u) = ''localhost''"
proof -
  let ?r = "get_request ''127.0.0.1:7'' [(''Origin'', [''http://localhost:3000''])]"
  let ?cfg = "applyBridgeKeepaliveDefaults (direct_config id)"
  obtain srv where main: "direct_main id (Inr []) = Inr (empty_store, Listens srv :: unit serve_call)"
    by (simp add: direct_main_def ListenAndServe_def direct_newTodoServer_def newTodoServer_def buildTodoStore_def)
  have origin: "header_Get (Header ?r) ''Origin'' = ''http://localhost:3000''" by code_simp
  have name: "case url_Parse ''http://localhost:3000'' of Inl e \<Rightarrow> False
      | Inr u \<Rightarrow> u_Host u \<noteq> [] \<and> strings_ToLower id (url_Hostname u) = ''localhost''"
    by code_simp
  then obtain u where u: "url_Parse ''http://localhost:3000'' = Inr u" "u_Host u \<noteq> []"
    "strings_ToLower id (url_Hostname u) = ''localhost''" by (auto split: sum.splits)
  have allowed: "isBridgeOriginAllowed id (Some ?r)" unfolding origin_allowed_iff origin using u by blast
  have "up_CheckOrigin (buildUpgrader ?cfg) = Some (isBridgeOriginAllowed id)"
    using direct_config_facts(1) [of id] by (simp add: buildUpgrader_def Let_def)
  with allowed have "reaches_hooks ?cfg ok_env ?r"
    using direct_config_facts(2) [of id] by (simp add: reaches_hooks_def settings_ok_def)
  from hooks_inside [OF this] have "hook_trace (bridgeHandler ?cfg ok_env ?r) \<noteq> []"
    by (simp add: run_connected_def)
  with direct_bridge_is_local [OF main, of ok_env ?r] direct_server [OF main] origin
  have "\<exists>u. url_Parse ''http://localhost:3000'' = Inr u" by auto
  with main u show ?thesis by blast
qed

end
