(* ===== verification/Runner_Text.thy ===== *)
theory Runner_Text
  imports Go_Strings Go_Float "HOL-Library.AList"
begin

text \<open>
  What the task runner (\<open>tools/runner.go\<close>) reads out of text: the module path of a \<open>go.mod\<close>, the
  total of a coverage report, the metrics of a benchmark run, and repository addresses. The three
  regular expressions of the code are deterministic at every position, so each is a function.
  \<open>strconv.ParseFloat\<close> is the parameter \<open>parse_float\<close>.
\<close>

section \<open>Splitting\<close>

fun field_split :: "string \<Rightarrow> string \<times> string" where
  "field_split [] = ([], [])"
| "field_split (c # s) =
     (if space_start (c # s) then ([], c # s)
      else case field_split s of (a, r) \<Rightarrow> (c # a, r))"

lemma field_split_append: "field_split s = (a, r) \<Longrightarrow> s = a @ r"
  by (induction s arbitrary: a r) (auto split: if_splits prod.splits)

lemma trim_left_length: "length (trim_left s) \<le> length s"
proof (induction s rule: measure_induct_rule [of length])
  case (less s)
  show ?case
  proof (cases "space_start s")
    case True
    then obtain t where "length t < length s" "trim_left s = trim_left t" by (rule trim_left_step)
    with less [of t] show ?thesis by simp
  qed (simp add: trim_left_stop)
qed

lemma field_split_progress:
  assumes "trim_left s = c # t" and "field_split (c # t) = (a, r)"
  shows "length r < length s"
proof -
  have "\<not> space_start (c # t)" using trim_left_end [of s] assms(1) by simp
  with assms(2) have "a \<noteq> []" by (auto split: prod.splits)
  with field_split_append [OF assms(2)] have "length r < length (c # t)" by (metis length_append less_add_same_cancel2 length_greater_0_conv)
  with trim_left_length [of s] assms(1) show ?thesis by simp
qed

function strings_Fields :: "string \<Rightarrow> string list" where
  "strings_Fields s =
     (case trim_left s of
        [] \<Rightarrow> []
      | c # t \<Rightarrow> (case field_split (c # t) of (a, r) \<Rightarrow> a # strings_Fields r))"
  by pat_completeness auto
termination
  by (relation "measure length") (auto dest: field_split_progress [OF _ sym] simp del: field_split.simps)

declare strings_Fields.simps [simp del]

fun split_on :: "char \<Rightarrow> string \<Rightarrow> string list" where
  "split_on sep [] = [[]]"
| "split_on sep (c # s) =
     (if c = sep then [] # split_on sep s
      else case split_on sep s of [] \<Rightarrow> [[c]] | l # ls \<Rightarrow> (c # l) # ls)"

definition newline :: char where "newline = CHR 0x0A"

section \<open>Regular expressions\<close>

text \<open>The white space of \<open>regexp\<close>; it has no vertical tab.\<close>

definition re_space :: "char \<Rightarrow> bool" where
  "re_space c \<longleftrightarrow> c = CHR 0x09 \<or> c = CHR 0x0A \<or> c = CHR 0x0C \<or> c = CHR 0x0D \<or> c = CHR 0x20"

definition re_digit :: "char \<Rightarrow> bool" where
  "re_digit c \<longleftrightarrow> 48 \<le> (of_char c :: nat) \<and> of_char c \<le> (57 :: nat)"

text \<open>The leftmost match, at any position or at the start of a line.\<close>

fun search :: "(string \<Rightarrow> 'a option) \<Rightarrow> string \<Rightarrow> 'a option" where
  "search f [] = f []"
| "search f (c # s) = (case f (c # s) of Some x \<Rightarrow> Some x | None \<Rightarrow> search f s)"

fun search_after_newline :: "(string \<Rightarrow> 'a option) \<Rightarrow> string \<Rightarrow> 'a option" where
  "search_after_newline f [] = None"
| "search_after_newline f (c # s) =
     (if c = newline
      then (case f s of Some x \<Rightarrow> Some x | None \<Rightarrow> search_after_newline f s)
      else search_after_newline f s)"

definition search_lines :: "(string \<Rightarrow> 'a option) \<Rightarrow> string \<Rightarrow> 'a option" where
  "search_lines f s = (case f s of Some x \<Rightarrow> Some x | None \<Rightarrow> search_after_newline f s)"

text \<open>The word \<open>module\<close> at the start of a line, white space, and a path that ends its line.\<close>

definition match_module :: "string \<Rightarrow> string option" where
  "match_module s =
     (if prefix ''module'' s then
        (let after = drop 6 s;
             rest = dropWhile re_space after;
             word = takeWhile (\<lambda>c. \<not> re_space c) rest;
             tail_text = dropWhile (\<lambda>c. \<not> re_space c) rest;
             gap = takeWhile re_space tail_text
         in if rest \<noteq> after \<and> word \<noteq> [] \<and> (newline \<in> set gap \<or> gap = tail_text) then Some word else None)
      else None)"

definition parseRunnerGoModModulePath :: "string \<Rightarrow> string option" where
  "parseRunnerGoModModulePath content = map_option strings_TrimSpace (search_lines match_module content)"

text \<open>The total line of a coverage report and its percentage.\<close>

definition match_total :: "string \<Rightarrow> string option" where
  "match_total s =
     (if prefix ''total:'' s then
        (let a = drop 6 s; b = dropWhile re_space a
         in if b \<noteq> a \<and> prefix ''(statements)'' b then
              (let c = drop 12 b; d = dropWhile re_space c;
                   number = takeWhile (\<lambda>x. re_digit x \<or> x = CHR ''.'') d;
                   after = dropWhile (\<lambda>x. re_digit x \<or> x = CHR ''.'') d
               in if d \<noteq> c \<and> number \<noteq> [] \<and> prefix ''%'' after then Some number else None)
            else None)
      else None)"

text \<open>The number of CPUs behind a benchmark's name: a dash and digits at the end.\<close>

definition parseRunnerBenchmarkName :: "string \<Rightarrow> string" where
  "parseRunnerBenchmarkName raw =
     (case dropWhile re_digit (rev raw) of
        [] \<Rightarrow> raw
      | c # r \<Rightarrow> if takeWhile re_digit (rev raw) \<noteq> [] \<and> c = CHR ''-'' then rev r else raw)"

section \<open>Repository addresses\<close>

definition canonical_module :: string where
  "canonical_module = ''github.com/monstercameron/GoGRPCBridge''"

definition canonical_repository :: string where
  "canonical_repository = ''https://github.com/monstercameron/GoGRPCBridge''"

definition normalizeRunnerRepositoryURL :: "string \<Rightarrow> string" where
  "normalizeRunnerRepositoryURL url =
     (let url = strings_TrimSuffix (strings_TrimSpace url) ''.git''
      in if strings_HasPrefix url ''git@github.com:''
         then ''https://github.com/'' @ strings_TrimPrefix url ''git@github.com:''
         else url)"

definition buildRunnerCanonicalRepositoryURLs :: "string list" where
  "buildRunnerCanonicalRepositoryURLs =
     (let url = normalizeRunnerRepositoryURL canonical_repository in if url = [] then [] else [url])"

definition hasRunnerCanonicalRepositoryURL :: "string \<Rightarrow> string list \<Rightarrow> bool" where
  "hasRunnerCanonicalRepositoryURL url allowed \<longleftrightarrow>
     list_ex (\<lambda>a. normalizeRunnerRepositoryURL url = a) allowed"

section \<open>Benchmark output\<close>

record storeRunnerBenchmarkRecord =
  GetBenchmarkName :: string
  GetNsPerOp :: float64
  GetBytesPerOp :: float64
  GetAllocsPerOp :: float64
  GetKilobytesPerOp :: float64
  HasKilobytesMetric :: bool

definition no_metrics :: "string \<Rightarrow> storeRunnerBenchmarkRecord" where
  "no_metrics name =
     \<lparr>GetBenchmarkName = name, GetNsPerOp = Fin 0, GetBytesPerOp = Fin 0, GetAllocsPerOp = Fin 0,
      GetKilobytesPerOp = Fin 0, HasKilobytesMetric = False\<rparr>"

definition store_metric ::
    "string \<Rightarrow> float64 \<Rightarrow> storeRunnerBenchmarkRecord \<Rightarrow> storeRunnerBenchmarkRecord" where
  "store_metric unit_name v r =
     (if unit_name = ''ns/op'' then r\<lparr>GetNsPerOp := v\<rparr>
      else if unit_name = ''B/op'' then r\<lparr>GetBytesPerOp := v\<rparr>
      else if unit_name = ''allocs/op'' then r\<lparr>GetAllocsPerOp := v\<rparr>
      else if unit_name = ''KB/op'' then r\<lparr>GetKilobytesPerOp := v, HasKilobytesMetric := True\<rparr>
      else r)"

fun store_metrics ::
    "(string \<Rightarrow> float64 option) \<Rightarrow> string list \<Rightarrow> storeRunnerBenchmarkRecord \<Rightarrow> storeRunnerBenchmarkRecord"
where
  "store_metrics parse_float (v # u # fs) r =
     store_metrics parse_float fs
       (case parse_float v of None \<Rightarrow> r | Some x \<Rightarrow> store_metric u x r)"
| "store_metrics parse_float fs r = r"

definition parse_line ::
    "(string \<Rightarrow> float64 option) \<Rightarrow> string \<Rightarrow> storeRunnerBenchmarkRecord option" where
  "parse_line parse_float line =
     (let line = strings_TrimSpace line; fs = strings_Fields line
      in if \<not> strings_HasPrefix line ''Benchmark'' then None
         else if length fs < 8 then None
         else Some (store_metrics parse_float (drop 2 fs)
                (no_metrics (parseRunnerBenchmarkName (hd fs)))))"

type_synonym benchmark_records = "(string \<times> storeRunnerBenchmarkRecord) list"

text \<open>The records by name, a later line replacing an earlier one; \<open>None\<close> when there are none.\<close>

definition parseRunnerBenchmarkRecords ::
    "(string \<Rightarrow> float64 option) \<Rightarrow> string \<Rightarrow> benchmark_records option" where
  "parseRunnerBenchmarkRecords parse_float output =
     (let records = fold (\<lambda>line rs. case parse_line parse_float line of
            None \<Rightarrow> rs | Some r \<Rightarrow> AList.update (GetBenchmarkName r) r rs) (split_on newline output) []
      in if records = [] then None else Some records)"

definition buildRunnerPercentDelta :: "float64 \<Rightarrow> float64 \<Rightarrow> float64" where
  "buildRunnerPercentDelta baseline current =
     (if baseline = Fin 0 then (if current = Fin 0 then Fin 0 else Fin 100)
      else fmul (fdiv (fsub current baseline) baseline) (Fin 100))"

end
