(* ===== verification/Example_Programs.thy ===== *)
theory Example_Programs
  imports Example_Helpers Example_Todo Client_Dial Runner_Text
begin

text \<open>
  The programs of \<open>src/examples\<close>: what each hands to the packages and serves or dials. A program's
  command line and its logging are left out; \<open>log.Fatal\<close> ends it.
\<close>

section \<open>Servers of the helpers\<close>

text \<open>What a route answers: a bridge, or a fixed body.\<close>

datatype route = To_Bridge helper_handler | Answers string

record program_server =
  pg_Addr :: string
  pg_routes :: "(string \<times> route) list"
  pg_ReadTimeout :: duration
  pg_WriteTimeout :: duration
  pg_IdleTimeout :: duration

definition program_server_of :: "string \<Rightarrow> (string \<times> route) list \<Rightarrow> program_server" where
  "program_server_of addr routes =
     \<lparr>pg_Addr = addr, pg_routes = routes, pg_ReadTimeout = 15 * second, pg_WriteTimeout = 15 * second,
      pg_IdleTimeout = 60 * second\<rparr>"

definition minimal_config :: "string \<Rightarrow> HelperConfig" where
  "minimal_config target =
     \<lparr>hp_TargetAddress = target, hp_CheckOrigin = None, hp_ReadBufferSize = 0, hp_WriteBufferSize = 0,
      hp_Logger = None, hp_OnConnect = None, hp_OnDisconnect = None\<rparr>"

text \<open>The single handler of a server is its route for every path.\<close>

definition simple_bridge :: "pool_cache \<Rightarrow> pool_cache \<times> program_server" where
  "simple_bridge pools =
     (case helper_NewHandler pools (minimal_config ''localhost:50051'') of
        (pools, h, _) \<Rightarrow> (pools, program_server_of '':8080'' [(''/'', To_Bridge h)]))"

definition custom_router :: "pool_cache \<Rightarrow> pool_cache \<times> program_server" where
  "custom_router pools =
     (case helper_NewHandler pools (minimal_config ''localhost:50051'') of
        (pools, h, _) \<Rightarrow>
          (case helper_NewHandler pools (minimal_config ''localhost:50052'') of
             (pools, h2, _) \<Rightarrow>
               (pools, program_server_of '':8080''
                  [(''/health'', Answers ''OK''), (''/metrics'', Answers (''# Metrics here'' @ [newline])),
                   (''/grpc'', To_Bridge h), (''/api/v2/grpc'', To_Bridge h2)])))"

text \<open>The production bridge: its flags are parameters.\<close>

definition production_origin_check :: "string list \<Rightarrow> http_request option \<Rightarrow> bool" where
  "production_origin_check origins r =
     (case r of
        None \<Rightarrow> False
      | Some q \<Rightarrow> list_ex (\<lambda>allowed. header_Get (Header q) ''Origin'' = strings_TrimSpace allowed) origins)"

definition production_config :: "string \<Rightarrow> string \<Rightarrow> HelperConfig" where
  "production_config target allowed =
     \<lparr>hp_TargetAddress = target,
      hp_CheckOrigin = Some (production_origin_check (split_on CHR '','' allowed)),
      hp_ReadBufferSize = 8192, hp_WriteBufferSize = 8192, hp_Logger = Some ''customLogger'',
      hp_OnConnect = Some ''Client connected'', hp_OnDisconnect = Some ''Client disconnected''\<rparr>"

definition production_bridge ::
    "pool_cache \<Rightarrow> string \<Rightarrow> string \<Rightarrow> string \<Rightarrow> string \<Rightarrow> string \<Rightarrow>
     pool_cache \<times> program_server \<times> string \<times> string" where
  "production_bridge pools addr target cert key allowed =
     (case helper_NewHandler pools (production_config target allowed) of
        (pools, h, _) \<Rightarrow> (pools, program_server_of addr [(''/'', To_Bridge h)], cert, key))"

section \<open>Users of the tunnel package\<close>

definition external_consumer :: "(string \<times> upgrade_handler) list" where
  "external_consumer =
     [(''/grpc'', Wrap False [WithOriginCheck (Some (\<lambda>r.
        case r of None \<Rightarrow> False | Some q \<Rightarrow> header_Get (Header q) ''Origin'' = []))])]"

definition wasm_client_config :: TunnelConfig where
  "wasm_client_config =
     \<lparr>tc_Target = ''ws://127.0.0.1:5000/'', tc_TLSConfig = None, tc_ShouldUseTLS = False,
      tc_Headers = None, tc_Subprotocols = [], tc_Proxy = None, tc_HandshakeTimeout = 0,
      tc_ShouldEnableCompression = False, tc_ReconnectConfig = None, tc_KeepaliveConfig = None,
      tc_GRPCOptions = [''insecure credentials'']\<rparr>"

definition wasm_client_dial ::
    "backoff_config \<Rightarrow> location \<Rightarrow> dial_error + string \<times> dialer dial_option list" where
  "wasm_client_dial default_backoff loc = wasm_BuildTunnelConn default_backoff loc wasm_client_config"

section \<open>What the programs do\<close>

text \<open>
  The example client reaches the example server: on every page it dials a websocket URL whose host
  is the address on which the direct bridge listens, and hands gRPC the same host.
\<close>

theorem example_client_meets_server:
  "(case wasm_client_dial default_backoff loc of
      Inl e \<Rightarrow> False
    | Inr (target, opts) \<Rightarrow>
        opts = [CallerOption ''insecure credentials'', dialer_New ''ws://127.0.0.1:5000/''] \<and>
        target = ''127.0.0.1:5000'') \<and>
   (case url_Parse ''ws://127.0.0.1:5000/'' of
      Inl e \<Rightarrow> False | Inr u \<Rightarrow> u_Scheme u = ''ws'' \<and> u_Host u = ''127.0.0.1:5000'') \<and>
   (case direct_main uni loaded of
      Inl e \<Rightarrow> loaded = Inl e
    | Inr (s, Listens srv) \<Rightarrow> hs_Addr srv = ''127.0.0.1:5000''
    | Inr _ \<Rightarrow> False)"
proof (intro conjI)
  have target: "wasm_ParseTunnelTargetURL loc ''ws://127.0.0.1:5000/'' False = Inr ''ws://127.0.0.1:5000/''"
  proof -
    have facts: "strings_TrimSpace ''ws://127.0.0.1:5000/'' = ''ws://127.0.0.1:5000/''"
      "wasm_mapHTTPSchemeToWebSocket ''ws://127.0.0.1:5000/'' = ''ws://127.0.0.1:5000/''"
      "strings_HasPrefix ''ws://127.0.0.1:5000/'' ''ws://''"
      by code_simp+
    then have "inferBrowserWebSocketURL loc ''ws://127.0.0.1:5000/'' = ''ws://127.0.0.1:5000/''"
      by (simp add: inferBrowserWebSocketURL_def Let_def)
    with facts show ?thesis by (simp add: wasm_ParseTunnelTargetURL_def Let_def)
  qed
  have dial: "buildTunnelGRPCDialTarget ''ws://127.0.0.1:5000/'' ''ws://127.0.0.1:5000/'' = ''127.0.0.1:5000''"
    by code_simp
  show "case wasm_client_dial default_backoff loc of
      Inl e \<Rightarrow> False
    | Inr (target, opts) \<Rightarrow>
        opts = [CallerOption ''insecure credentials'', dialer_New ''ws://127.0.0.1:5000/''] \<and>
        target = ''127.0.0.1:5000''"
    by (simp add: wasm_client_dial_def wasm_BuildTunnelConn_def wasm_client_config_def target dial
        wasm_getTunnelConfigErrorWithoutTarget_def policy_errors_def policy_options_def
        wasm_buildTunnelTargetURL_def dialer_New_def dialer_NewWithConfig_def)
  show "case url_Parse ''ws://127.0.0.1:5000/'' of
      Inl e \<Rightarrow> False | Inr u \<Rightarrow> u_Scheme u = ''ws'' \<and> u_Host u = ''127.0.0.1:5000''" by code_simp
  show "case direct_main uni loaded of
      Inl e \<Rightarrow> loaded = Inl e
    | Inr (s, Listens srv) \<Rightarrow> hs_Addr srv = ''127.0.0.1:5000''
    | Inr _ \<Rightarrow> False"
    by (simp add: direct_main_def direct_newTodoServer_def newTodoServer_def ListenAndServe_def NewServer_def
        split: sum.split)
qed

text \<open>
  The bridges of the router work, go to their two backends on the local machine without a warning,
  and share one pool of write buffers.
\<close>

lemma local_targets:
  "parseProxyTargetURL ''localhost:50051'' = Inr (empty_URL\<lparr>u_Scheme := ''http'', u_Host := ''localhost:50051''\<rparr>)"
  "parseProxyTargetURL ''localhost:50052'' = Inr (empty_URL\<lparr>u_Scheme := ''http'', u_Host := ''localhost:50052''\<rparr>)"
  by (simp_all add: parseProxyTargetURL_def url_eval)

theorem router_bridges_work:
  "(case custom_router no_pools of
      (pools, srv) \<Rightarrow>
        (case (map_of (pg_routes srv) ''/grpc'', map_of (pg_routes srv) ''/api/v2/grpc'') of
           (Some (To_Bridge h), Some (To_Bridge h2)) \<Rightarrow>
             hh_initErr h = None \<and> hh_initErr h2 = None \<and> hh_pool h = hh_pool h2 \<and> pools_made pools = 1 \<and>
             map_option u_Host (hh_target h) = Some ''localhost:50051'' \<and>
             map_option u_Host (hh_target h2) = Some ''localhost:50052''
         | _ \<Rightarrow> False))"
  by (simp add: custom_router_def helper_NewHandler_def minimal_config_def local_targets program_server_of_def
      helper_buildWebSocketWriteBufferPool_def helper_isCacheableWebSocketWriteBufferSize_def
      parseDefaultWebSocketBufferSize_def no_pools_def empty_URL_def Let_def)

text \<open>
  The production bridge serves listed origins only: given that gorilla's upgrader refuses what its
  \<open>CheckOrigin\<close> refuses, a request is upgraded only if its origin is an entry of the flag, outer
  spaces aside; one without \<open>Origin\<close> only if the flag has a blank entry.
\<close>

theorem production_serves_listed_origins:
  assumes "production_bridge pools addr target cert key allowed = (pools', srv, rest)"
    and "map_of (pg_routes srv) ''/'' = Some (To_Bridge h)"
    and gorilla: "\<And>u q f. up_CheckOrigin u = Some f \<Longrightarrow> \<not> f (Some q) \<Longrightarrow> \<not> he_upgrade env u q"
    and "UpgradeTried True \<in> set (helper_ServeHTTP h env r)"
  shows "header_Get (Header r) ''Origin'' \<in> strings_TrimSpace ` set (split_on CHR '','' allowed)"
proof -
  have check: "up_CheckOrigin (hh_upgrader h) = Some (production_origin_check (split_on CHR '','' allowed))"
    using assms(1,2)
    by (auto simp: production_bridge_def helper_NewHandler_def production_config_def program_server_of_def
        helper_upgrader_def Let_def split: sum.splits)
  from assms(4) have "he_upgrade env (hh_upgrader h) r"
    by (auto simp: helper_ServeHTTP_def split: if_splits)
  with gorilla [OF check] show ?thesis
    by (auto simp: production_origin_check_def list_ex_iff)
qed

theorem production_serves_listed_origins_witness:
  "\<exists>h. map_of (pg_routes (fst (snd (production_bridge no_pools '':8443'' ''localhost:50051'' ''c'' ''k'' ''https://a.io''))))
      ''/'' = Some (To_Bridge h) \<and>
    ''https://a.io'' \<in> strings_TrimSpace ` set (split_on CHR '','' ''https://a.io'')"
proof -
  let ?r = "get_request ''10.0.0.1:1'' [(''Origin'', [''https://a.io''])]"
  let ?env = "\<lparr>he_upgrade = (\<lambda>u q. case up_CheckOrigin u of None \<Rightarrow> True | Some f \<Rightarrow> f (Some q)),
      he_connect_panics = False, he_serve_panics = False, he_disconnect_panics = False\<rparr> :: helper_env"
  obtain h pools' where b: "production_bridge no_pools '':8443'' ''localhost:50051'' ''c'' ''k'' ''https://a.io'' =
      (pools', program_server_of '':8443'' [(''/'', To_Bridge h)], ''c'', ''k'')"
    and h: "hh_initErr h = None" "up_CheckOrigin (hh_upgrader h) =
       Some (production_origin_check (split_on CHR '','' ''https://a.io''))"
    by (simp add: production_bridge_def helper_NewHandler_def production_config_def local_targets helper_upgrader_def
        Let_def)
  have "production_origin_check (split_on CHR '','' ''https://a.io'') (Some ?r)" by code_simp
  with h have "UpgradeTried True \<in> set (helper_ServeHTTP h ?env ?r)" by (simp add: helper_ServeHTTP_def)
  moreover have "map_of (pg_routes (program_server_of '':8443'' [(''/'', To_Bridge h)])) ''/'' = Some (To_Bridge h)"
    by (simp add: program_server_of_def)
  ultimately have "header_Get (Header ?r) ''Origin'' \<in> strings_TrimSpace ` set (split_on CHR '','' ''https://a.io'')"
    using production_serves_listed_origins [OF b, of h ?env ?r] by simp
  moreover have "header_Get (Header ?r) ''Origin'' = ''https://a.io''" by code_simp
  ultimately show ?thesis
    by (simp add: b program_server_of_def)
qed

end
