(* ===== verification/Runner_Commands.thy ===== *)
theory Runner_Commands
  imports Runner
begin

text \<open>
  The commands of the task runner that run one process or a few in sequence: tests, formatting,
  linting, fuzzing, building, cleaning (\<open>tools/runner.go\<close>).
\<close>

section \<open>Processes in the repository\<close>

abbreviation go_run :: "shell \<Rightarrow> path \<Rightarrow> string list \<Rightarrow> unit run" where
  "go_run sh repo args \<equiv> handleRunnerProcess sh repo repo [] ''go'' args"

definition handleRunnerTest :: "shell \<Rightarrow> path \<Rightarrow> unit run" where
  "handleRunnerTest sh repo =
     go_run sh repo [''test'', ''./pkg/...'', ''-v'', ''-race'', ''-coverprofile=coverage.txt'']"

definition handleRunnerTestShort :: "shell \<Rightarrow> path \<Rightarrow> unit run" where
  "handleRunnerTestShort sh repo = go_run sh repo [''test'', ''./pkg/...'', ''-short'']"

definition formatRunnerCode :: "shell \<Rightarrow> path \<Rightarrow> unit run" where
  "formatRunnerCode sh repo =
     attempt (getRunnerBinaryError sh ''goimports'') (\<lambda>_.
     attempt (handleRunnerProcess sh repo repo [] ''gofmt'' [''-w'', ''-s'', ''.'']) (\<lambda>_.
     handleRunnerProcess sh repo repo [] ''goimports'' [''-w'', ''.'']))"

definition handleRunnerLint :: "shell \<Rightarrow> path \<Rightarrow> unit run" where
  "handleRunnerLint sh repo =
     attempt (getRunnerBinaryError sh ''golangci-lint'') (\<lambda>_.
     handleRunnerProcess sh repo repo [] ''golangci-lint'' [''run'', ''--config=.golangci.yml'', ''./...''])"

definition applyRunnerLintFix :: "shell \<Rightarrow> path \<Rightarrow> unit run" where
  "applyRunnerLintFix sh repo =
     attempt (getRunnerBinaryError sh ''golangci-lint'') (\<lambda>_.
     handleRunnerProcess sh repo repo [] ''golangci-lint''
       [''run'', ''--config=.golangci.yml'', ''--fix'', ''./...''])"

definition handleRunnerCheck :: "shell \<Rightarrow> path \<Rightarrow> unit run" where
  "handleRunnerCheck sh repo =
     attempt (formatRunnerCode sh repo) (\<lambda>_.
     attempt (handleRunnerLint sh repo) (\<lambda>_.
     handleRunnerTestShort sh repo))"

definition handleRunnerPreCommit :: "shell \<Rightarrow> path \<Rightarrow> unit run" where
  "handleRunnerPreCommit sh repo =
     attempt (handleRunnerCheck sh repo) (\<lambda>_.
     ignoring sh (Print ''Pre-commit checks passed.''))"

definition applyRunnerInstallHooks :: "shell \<Rightarrow> path \<Rightarrow> unit run" where
  "applyRunnerInstallHooks sh repo =
     (let hook = filepath_Join repo [''.git'', ''hooks'', ''pre-commit'']
      in attempt (demand sh (Stat hook) (FileFailed ''locate'' hook)) (\<lambda>_.
         if sh_goos sh = ''windows'' then
           ignoring sh (Print ''Hook file exists. Skipping chmod on Windows.'')
         else
           attempt (demand sh (Chmod hook) (FileFailed ''chmod'' hook)) (\<lambda>_.
           ignoring sh (Print ''Pre-commit hook is executable.''))))"

definition handleRunnerSingleFuzz :: "shell \<Rightarrow> path \<Rightarrow> string \<Rightarrow> string \<Rightarrow> unit run" where
  "handleRunnerSingleFuzz sh repo name duration =
     attempt (ignoring sh (Print (''Running '' @ name @ '' ('' @ duration @ '')''))) (\<lambda>_.
     go_run sh repo [''test'', ''./pkg/bridge'', ''-v'', ''-fuzz='' @ name, ''-fuzztime='' @ duration])"

definition handleRunnerFuzz :: "shell \<Rightarrow> path \<Rightarrow> unit run" where
  "handleRunnerFuzz sh repo =
     attempt (handleRunnerSingleFuzz sh repo ''FuzzWebSocketConnWrite'' ''60s'') (\<lambda>_.
     attempt (handleRunnerSingleFuzz sh repo ''FuzzWebSocketConnRead'' ''60s'') (\<lambda>_.
     attempt (handleRunnerSingleFuzz sh repo ''FuzzBinaryMessage'' ''60s'') (\<lambda>_.
     handleRunnerSingleFuzz sh repo ''FuzzMessageSizes'' ''60s'')))"

definition handleRunnerFuzzQuick :: "shell \<Rightarrow> path \<Rightarrow> unit run" where
  "handleRunnerFuzzQuick sh repo =
     attempt (handleRunnerSingleFuzz sh repo ''FuzzWebSocketConnWrite'' ''5s'') (\<lambda>_.
     attempt (handleRunnerSingleFuzz sh repo ''FuzzWebSocketConnRead'' ''5s'') (\<lambda>_.
     attempt (handleRunnerSingleFuzz sh repo ''FuzzBinaryMessage'' ''5s'') (\<lambda>_.
     handleRunnerSingleFuzz sh repo ''FuzzMessageSizes'' ''5s'')))"

definition handleRunnerE2E :: "shell \<Rightarrow> path \<Rightarrow> unit run" where
  "handleRunnerE2E sh repo = go_run sh repo [''test'', ''./e2e/...'', ''-v'', ''-timeout'', ''5m'']"

definition wasm_target :: "(string \<times> string) list" where
  "wasm_target = [(''GOOS'', ''js''), (''GOARCH'', ''wasm'')]"

definition buildRunnerExamples :: "shell \<Rightarrow> path \<Rightarrow> unit run" where
  "buildRunnerExamples sh repo =
     attempt (go_run sh repo [''build'', ''-v'', ''./examples/direct-bridge'']) (\<lambda>_.
     attempt (go_run sh repo [''build'', ''-v'', ''./examples/grpc-server'']) (\<lambda>_.
     handleRunnerProcess sh repo (filepath_Join repo [''examples'', ''wasm-client'']) wasm_target ''go''
       [''build'', ''-v'', ''.'']))"

text \<open>A file that is not there counts as removed.\<close>

definition clearRunnerFile :: "shell \<Rightarrow> path \<Rightarrow> unit run" where
  "clearRunnerFile sh p = do {
     r \<leftarrow> perform sh (Remove p);
     State_Monad.return (if rp_ok r \<or> r = Not_Exist then Inr () else Inl (FileFailed ''remove'' p))
   }"

fun clear_all :: "shell \<Rightarrow> path list \<Rightarrow> unit run" where
  "clear_all sh [] = succeed ()"
| "clear_all sh (p # ps) = attempt (clearRunnerFile sh p) (\<lambda>_. clear_all sh ps)"

definition artifact_paths :: "path \<Rightarrow> path list" where
  "artifact_paths repo =
     [filepath_Join repo [''coverage.txt''],
      filepath_Join repo [''direct-bridge''],
      filepath_Join repo [''direct-bridge.exe''],
      filepath_Join repo [''grpc-server''],
      filepath_Join repo [''grpc-server.exe''],
      filepath_Join repo [''examples'', ''wasm-client'', ''main.wasm'']]"

definition clearRunnerArtifacts :: "shell \<Rightarrow> path \<Rightarrow> unit run" where
  "clearRunnerArtifacts sh repo =
     attempt (go_run sh repo [''clean'', ''-cache'', ''-testcache'', ''-modcache'']) (\<lambda>_.
     clear_all sh (artifact_paths repo))"

section \<open>Sequences stop at the first failure\<close>

named_theorems command_defs

lemmas [command_defs] = handleRunnerTest_def handleRunnerTestShort_def formatRunnerCode_def
  handleRunnerLint_def applyRunnerLintFix_def handleRunnerCheck_def handleRunnerPreCommit_def
  applyRunnerInstallHooks_def handleRunnerSingleFuzz_def handleRunnerFuzz_def
  handleRunnerFuzzQuick_def handleRunnerE2E_def buildRunnerExamples_def clearRunnerArtifacts_def

text \<open>
  The processes of a history in order, as command lines, and what each answered; what was printed
  or looked up does not count.
\<close>

fun proc_of :: "action \<Rightarrow> proc option" where
  "proc_of (Run captured p) = Some p"
| "proc_of a = None"

definition command_line :: "proc \<Rightarrow> string list" where
  "command_line p = pr_name p # pr_args p"

fun ran_from :: "shell \<Rightarrow> history \<Rightarrow> history \<Rightarrow> (string list \<times> reply) list" where
  "ran_from sh past [] = []"
| "ran_from sh past (a # h) =
     (case proc_of a of None \<Rightarrow> [] | Some p \<Rightarrow> [(command_line p, sh_answer sh past a)]) @
     ran_from sh (past @ [a]) h"

definition ran :: "shell \<Rightarrow> history \<Rightarrow> (string list \<times> reply) list" where
  "ran sh h = ran_from sh [] h"

lemma ran_from_append:
  "ran_from sh past (h @ h') = ran_from sh past h @ ran_from sh (past @ h) h'"
  by (induction h arbitrary: past) simp_all

lemma ran_Nil [simp]: "ran sh [] = []"
  by (simp add: ran_def)

lemma ran_append [simp]: "ran sh (h @ h') = ran sh h @ ran_from sh h h'"
  by (simp add: ran_def ran_from_append)

definition all_ok :: "(string list \<times> reply) list \<Rightarrow> string list list \<Rightarrow> bool" where
  "all_ok rs ls \<longleftrightarrow> map fst rs = ls \<and> list_all (\<lambda>r. rp_ok (snd r)) rs"

lemma all_ok_simps [simp]:
  "all_ok [] ls \<longleftrightarrow> ls = []" "all_ok (r # rs) (l # ls) \<longleftrightarrow> fst r = l \<and> rp_ok (snd r) \<and> all_ok rs ls"
  by (auto simp: all_ok_def)

definition fuzz_line :: "string \<Rightarrow> string \<Rightarrow> string list" where
  "fuzz_line duration name = [''go'', ''test'', ''./pkg/bridge'', ''-v'', ''-fuzz='' @ name, ''-fuzztime='' @ duration]"

definition lint_line :: "string list" where
  "lint_line = [''golangci-lint'', ''run'', ''--config=.golangci.yml'', ''./...'']"

lemma clear_all_ends:
  "ends (clear_all sh ps) h x h' \<Longrightarrow> h' = h @ map Remove ps"
proof (induction ps arbitrary: h)
  case (Cons p ps)
  then obtain y h1 where "ends (clearRunnerFile sh p) h y h1" "ends (clear_all sh ps) h1 x h'"
    by (auto simp: run_simps)
  moreover from this(1) have "h1 = h @ [Remove p]"
    by (auto simp: clearRunnerFile_def perform_def split: if_splits)
  ultimately show ?case using Cons.IH [of h1] by simp
qed (simp add: run_simps)

text \<open>
  A command that succeeds has run all its processes, in the documented order, and nothing
  between them: \<open>check\<close> formats, lints and then tests; \<open>pre-commit\<close> is \<open>check\<close>; the two fuzz
  commands run the same four targets; \<open>clean\<close> removes every artifact after cleaning the caches.
\<close>

theorem commands_run_in_order:
  "(if ends (handleRunnerCheck sh repo) [] x h \<or> ends (handleRunnerPreCommit sh repo) [] x h
    then all_ok (ran sh h)
      [[''gofmt'', ''-w'', ''-s'', ''.''], [''goimports'', ''-w'', ''.''], lint_line,
       [''go'', ''test'', ''./pkg/...'', ''-short'']]
    else True) \<and>
   (if ends (handleRunnerFuzz sh repo) [] x h
    then all_ok (ran sh h) (map (fuzz_line ''60s'')
      [''FuzzWebSocketConnWrite'', ''FuzzWebSocketConnRead'', ''FuzzBinaryMessage'', ''FuzzMessageSizes''])
    else True) \<and>
   (if ends (handleRunnerFuzzQuick sh repo) [] x h
    then all_ok (ran sh h) (map (fuzz_line ''5s'')
      [''FuzzWebSocketConnWrite'', ''FuzzWebSocketConnRead'', ''FuzzBinaryMessage'', ''FuzzMessageSizes''])
    else True) \<and>
   (if ends (clearRunnerArtifacts sh repo) [] x h
    then tl h = map Remove (artifact_paths repo) else True)"
proof (intro conjI)
  show "if ends (clearRunnerArtifacts sh repo) [] x h then tl h = map Remove (artifact_paths repo) else True"
    using clear_all_ends [of sh "artifact_paths repo"]
    by (fastforce simp: clearRunnerArtifacts_def run_simps)
qed (auto simp: command_defs run_simps command_line_def fuzz_line_def lint_line_def ran_def)

end
