(* ===== verification/Runner_Quality.thy ===== *)
theory Runner_Quality
  imports Runner_Commands Runner_Text
begin

text \<open>
  The quality gates of the task runner (\<open>tools/runner.go\<close>): lint, race tests with their fallback,
  coverage, compilation and the benchmark gate with its retry, and the benchmark baseline and
  trend. \<open>uni\<close> is \<open>strings.ToLower\<close> beyond ASCII, \<open>parse_float\<close> is \<open>strconv.ParseFloat\<close>, and the
  encoders of \<open>encoding/json\<close> are parameters; they fail (\<open>None\<close>) on numbers JSON cannot write.
\<close>

section \<open>The tests\<close>

definition isRunnerRaceToolchainIssue :: "(string \<Rightarrow> string) \<Rightarrow> string \<Rightarrow> bool" where
  "isRunnerRaceToolchainIssue uni out =
     (let lower = strings_ToLower uni out
      in strings_Contains lower ''requires cgo'' \<or> strings_Contains lower ''c compiler'' \<or>
         strings_Contains lower ''gcc'' \<or> strings_Contains lower ''clang'')"

definition coverage_test :: "string list" where
  "coverage_test = [''test'', ''./pkg/...'', ''-coverprofile=coverage.txt'', ''-covermode=atomic'']"

definition race_test :: "string list" where
  "race_test = [''test'', ''./pkg/...'', ''-race'', ''-coverprofile=coverage.txt'', ''-covermode=atomic'']"

definition handleRunnerQualityTest :: "(string \<Rightarrow> string) \<Rightarrow> shell \<Rightarrow> path \<Rightarrow> unit run" where
  "handleRunnerQualityTest uni sh repo =
     (if os_Getenv (sh_environ sh) ''RUNNER_QUALITY_SKIP_RACE'' = ''1'' then
        attempt (ignoring sh (Print ''race gate skipped by RUNNER_QUALITY_SKIP_RACE=1. running non-race coverage test.'')) (\<lambda>_.
        go_run sh repo coverage_test)
      else do {
        (out, err) \<leftarrow> buildRunnerProcessOutput sh repo repo [(''CGO_ENABLED'', ''1'')] ''go'' race_test;
        case err of
          None \<Rightarrow> ignoring sh (Print out)
        | Some e \<Rightarrow>
            if \<not> isRunnerRaceToolchainIssue uni out then fail_with e
            else if os_Getenv (sh_environ sh) ''RUNNER_STRICT_RACE'' = ''1''
            then fail_with (Wrapped ''race gate failed in strict mode'' e)
            else
              attempt (ignoring sh (Print ''race gate skipped: local toolchain does not support -race with CGO. running non-race coverage test.'')) (\<lambda>_.
              go_run sh repo coverage_test)
      })"

section \<open>Coverage\<close>

definition buildRunnerCoveragePercent ::
    "(string \<Rightarrow> float64 option) \<Rightarrow> shell \<Rightarrow> path \<Rightarrow> float64 run" where
  "buildRunnerCoveragePercent parse_float sh repo =
     attempt (output_of sh repo repo [] ''go'' [''tool'', ''cover'', ''-func=coverage.txt'']) (\<lambda>out.
     (case search match_total out of
        None \<Rightarrow> fail_with (ParseFailed ''coverage total'')
      | Some number \<Rightarrow>
          (case parse_float number of
             None \<Rightarrow> fail_with (ParseFailed number)
           | Some percent \<Rightarrow> succeed percent)))"

section \<open>The benchmark gate\<close>

definition benchmark_pattern :: string where
  "benchmark_pattern =
     ''Benchmark(GRPC_(PayloadSize_1000Items|StreamLargeDataset_1000Items|BidirectionalStream_100Messages)|REST_(PayloadSize_1000Items|LargeDataset_1000Items|Bidirectional_100Messages))$''"

definition benchmark_args :: "string list" where
  "benchmark_args =
     [''test'', ''./benchmarks'', ''-bench'', benchmark_pattern, ''-run'', ''^$'', ''-benchmem'',
      ''-benchtime=300ms'', ''-count=1'']"

definition buildRunnerBenchmarkOutput :: "shell \<Rightarrow> path \<Rightarrow> string run" where
  "buildRunnerBenchmarkOutput sh repo = output_of sh repo repo [] ''go'' benchmark_args"

record storeRunnerBenchmarkGateResult =
  GetPayloadSavingsPercent :: float64
  GetBidiMemorySavingsPercent :: float64
  GetBidiAllocsSavingsPercent :: float64
  GetLargeMemorySavingsPercent :: float64

definition saving :: "float64 \<Rightarrow> float64 \<Rightarrow> float64" where
  "saving grpc rest = fsub (Fin 1) (fdiv grpc rest)"

definition percent :: "float64 \<Rightarrow> float64" where
  "percent x = fmul x (Fin 100)"

definition buildRunnerBenchmarkGateResult ::
    "benchmark_records \<Rightarrow> run_error + storeRunnerBenchmarkGateResult" where
  "buildRunnerBenchmarkGateResult rs =
     (case (map_of rs ''BenchmarkGRPC_PayloadSize_1000Items'',
            map_of rs ''BenchmarkREST_PayloadSize_1000Items'',
            map_of rs ''BenchmarkGRPC_BidirectionalStream_100Messages'',
            map_of rs ''BenchmarkREST_Bidirectional_100Messages'',
            map_of rs ''BenchmarkGRPC_StreamLargeDataset_1000Items'',
            map_of rs ''BenchmarkREST_LargeDataset_1000Items'') of
        (Some gp, Some rp, Some gb, Some rb, Some gl, Some rl) \<Rightarrow>
          if \<not> HasKilobytesMetric gp \<or> \<not> HasKilobytesMetric rp
          then Inl (GateFailed ''missing KB/op payload metrics'')
          else if fle_zero (GetKilobytesPerOp rp) \<or> fle_zero (GetBytesPerOp rb) \<or>
                  fle_zero (GetAllocsPerOp rb) \<or> fle_zero (GetBytesPerOp rl)
          then Inl (GateFailed ''invalid REST benchmark denominator'')
          else
            (let payload = saving (GetKilobytesPerOp gp) (GetKilobytesPerOp rp);
                 bidi_memory = saving (GetBytesPerOp gb) (GetBytesPerOp rb);
                 bidi_allocs = saving (GetAllocsPerOp gb) (GetAllocsPerOp rb);
                 large = saving (GetBytesPerOp gl) (GetBytesPerOp rl)
             in if flt (percent payload) (Fin 15) then Inl (GateFailed ''payload savings'')
                else if flt (percent bidi_memory) (Fin 40) then Inl (GateFailed ''bidi memory savings'')
                else if flt (percent bidi_allocs) (Fin 30) then Inl (GateFailed ''bidi alloc savings'')
                else Inr \<lparr>GetPayloadSavingsPercent = percent payload,
                          GetBidiMemorySavingsPercent = percent bidi_memory,
                          GetBidiAllocsSavingsPercent = percent bidi_allocs,
                          GetLargeMemorySavingsPercent = percent large\<rparr>)
      | _ \<Rightarrow> Inl (GateFailed ''missing required benchmark records''))"

definition report_gate :: "shell \<Rightarrow> storeRunnerBenchmarkGateResult \<Rightarrow> storeRunnerBenchmarkGateResult run" where
  "report_gate sh g =
     attempt (ignoring sh (Report ''benchmark gates passed''
       [GetPayloadSavingsPercent g, GetBidiMemorySavingsPercent g, GetBidiAllocsSavingsPercent g,
        GetLargeMemorySavingsPercent g])) (\<lambda>_. succeed g)"

definition benchmark_attempt ::
    "(string \<Rightarrow> float64 option) \<Rightarrow> shell \<Rightarrow> path \<Rightarrow> storeRunnerBenchmarkGateResult run" where
  "benchmark_attempt parse_float sh repo =
     attempt (buildRunnerBenchmarkOutput sh repo) (\<lambda>out.
     (case parseRunnerBenchmarkRecords parse_float out of
        None \<Rightarrow> fail_with (ParseFailed ''no benchmark records were parsed'')
      | Some rs \<Rightarrow>
          (case buildRunnerBenchmarkGateResult rs of
             Inl e \<Rightarrow> fail_with e
           | Inr g \<Rightarrow> report_gate sh g)))"

text \<open>
  The loop over the attempts; \<open>again\<close> is how many may follow this one. Between two attempts the code
  prints the failure and waits, and a cancelled context ends it.
\<close>

fun gate_loop ::
    "(string \<Rightarrow> float64 option) \<Rightarrow> shell \<Rightarrow> path \<Rightarrow> nat \<Rightarrow> storeRunnerBenchmarkGateResult run" where
  "gate_loop parse_float sh repo 0 = benchmark_attempt parse_float sh repo"
| "gate_loop parse_float sh repo (Suc again) = do {
     r \<leftarrow> benchmark_attempt parse_float sh repo;
     case r of
       Inr g \<Rightarrow> succeed g
     | Inl e \<Rightarrow>
         attempt (ignoring sh (Print ''benchmark gate attempt failed'')) (\<lambda>_.
         attempt (demand sh Wait Cancelled) (\<lambda>_.
         gate_loop parse_float sh repo again))
   }"

definition getRunnerBenchmarkGateAttempts :: nat where "getRunnerBenchmarkGateAttempts = 2"

definition buildRunnerBenchmarkGateResultWithRetry ::
    "(string \<Rightarrow> float64 option) \<Rightarrow> shell \<Rightarrow> path \<Rightarrow> storeRunnerBenchmarkGateResult run" where
  "buildRunnerBenchmarkGateResultWithRetry parse_float sh repo =
     gate_loop parse_float sh repo (getRunnerBenchmarkGateAttempts - 1)"

section \<open>Reports\<close>

text \<open>The clock is read when a report is made; \<open>now\<close> is what it says.\<close>

record storeRunnerQualitySummaryPayload =
  qs_GeneratedAtUTC :: string
  qs_CoveragePercent :: float64
  qs_CoverageThreshold :: float64
  qs_GateResult :: storeRunnerBenchmarkGateResult

definition store_report :: "shell \<Rightarrow> path \<Rightarrow> string option \<Rightarrow> string \<Rightarrow> string \<Rightarrow> unit run" where
  "store_report sh repo encoded name done_text =
     (case encoded of
        None \<Rightarrow> fail_with (ParseFailed ''marshal'')
      | Some content \<Rightarrow>
          (let dir = filepath_Join repo [''bin'', ''quality''];
               file = filepath_Join dir [name]
           in attempt (demand sh (MkdirAll dir) (FileFailed ''mkdir'' dir)) (\<lambda>_.
              attempt (demand sh (WriteFile file content) (FileFailed ''write'' file)) (\<lambda>_.
              ignoring sh (Print done_text)))))"

definition storeRunnerQualitySummary ::
    "(storeRunnerQualitySummaryPayload \<Rightarrow> string option) \<Rightarrow> string \<Rightarrow> shell \<Rightarrow> path \<Rightarrow> float64 \<Rightarrow>
     storeRunnerBenchmarkGateResult \<Rightarrow> unit run" where
  "storeRunnerQualitySummary encode now sh repo coverage gate =
     store_report sh repo
       (encode \<lparr>qs_GeneratedAtUTC = now, qs_CoveragePercent = coverage, qs_CoverageThreshold = Fin 90,
                qs_GateResult = gate\<rparr>)
       ''summary.json'' ''stored quality summary''"

definition handleRunnerQuality ::
    "(string \<Rightarrow> string) \<Rightarrow> (string \<Rightarrow> float64 option) \<Rightarrow>
     (storeRunnerQualitySummaryPayload \<Rightarrow> string option) \<Rightarrow> string \<Rightarrow> shell \<Rightarrow> path \<Rightarrow> unit run" where
  "handleRunnerQuality uni parse_float encode now sh repo =
     attempt (handleRunnerLint sh repo) (\<lambda>_.
     attempt (handleRunnerQualityTest uni sh repo) (\<lambda>_.
     attempt (buildRunnerCoveragePercent parse_float sh repo) (\<lambda>coverage.
     if flt coverage (Fin 90) then fail_with (GateFailed ''coverage'')
     else
       attempt (ignoring sh (Report ''coverage gate passed'' [coverage])) (\<lambda>_.
       attempt (go_run sh repo [''test'', ''./...'', ''-run'', ''^$'']) (\<lambda>_.
       attempt (buildRunnerBenchmarkGateResultWithRetry parse_float sh repo) (\<lambda>gate.
       storeRunnerQualitySummary encode now sh repo coverage gate))))))"

section \<open>Baseline and trend\<close>

definition getRunnerGoVersion :: "shell \<Rightarrow> path \<Rightarrow> string run" where
  "getRunnerGoVersion sh repo =
     attempt (output_of sh repo repo [] ''go'' [''version'']) (\<lambda>out. succeed (strings_TrimSpace out))"

record storeRunnerBenchmarkSnapshot =
  bs_GeneratedAtUTC :: string
  bs_GoOS :: string
  bs_GoArch :: string
  bs_GoVersion :: string
  bs_StoreBenchmarks :: benchmark_records

definition baseline_file :: "path \<Rightarrow> path" where
  "baseline_file repo = filepath_Join repo [''benchmarks'', ''quality_baseline.json'']"

text \<open>The benchmark run and its records, which the baseline and the trend both start with.\<close>

definition current_records :: "(string \<Rightarrow> float64 option) \<Rightarrow> shell \<Rightarrow> path \<Rightarrow> benchmark_records run" where
  "current_records parse_float sh repo =
     attempt (buildRunnerBenchmarkOutput sh repo) (\<lambda>out.
     (case parseRunnerBenchmarkRecords parse_float out of
        None \<Rightarrow> fail_with (ParseFailed ''no benchmark records were parsed'')
      | Some rs \<Rightarrow> succeed rs))"

definition storeRunnerQualityBaseline ::
    "(string \<Rightarrow> float64 option) \<Rightarrow> (storeRunnerBenchmarkSnapshot \<Rightarrow> string option) \<Rightarrow> string \<Rightarrow> shell \<Rightarrow>
     path \<Rightarrow> unit run" where
  "storeRunnerQualityBaseline parse_float encode now sh repo =
     attempt (current_records parse_float sh repo) (\<lambda>rs.
     attempt (getRunnerGoVersion sh repo) (\<lambda>version.
     (case encode \<lparr>bs_GeneratedAtUTC = now, bs_GoOS = sh_goos sh, bs_GoArch = sh_goarch sh,
                   bs_GoVersion = version, bs_StoreBenchmarks = rs\<rparr> of
        None \<Rightarrow> fail_with (ParseFailed ''marshal'')
      | Some content \<Rightarrow>
          attempt (demand sh (WriteFile (baseline_file repo) content) (FileFailed ''write'' (baseline_file repo))) (\<lambda>_.
          ignoring sh (Print ''stored quality baseline'')))))"

record storeRunnerBenchmarkTrendRecord =
  tr_BenchmarkName :: string
  tr_NsPerOpDelta :: float64
  tr_BytesPerOpDelta :: float64
  tr_AllocsPerOpDelta :: float64
  tr_KilobytesPerOpDelta :: float64

record storeRunnerBenchmarkTrendSummary =
  ts_GeneratedAtUTC :: string
  ts_BaselineGeneratedAtUTC :: string
  ts_BaselineGoVersion :: string
  ts_CurrentGoVersion :: string
  ts_StoreBenchmarks :: "(string \<times> storeRunnerBenchmarkTrendRecord) list"

definition trend_record ::
    "string \<Rightarrow> storeRunnerBenchmarkRecord \<Rightarrow> storeRunnerBenchmarkRecord \<Rightarrow> storeRunnerBenchmarkTrendRecord"
where
  "trend_record name base cur =
     \<lparr>tr_BenchmarkName = name,
      tr_NsPerOpDelta = buildRunnerPercentDelta (GetNsPerOp base) (GetNsPerOp cur),
      tr_BytesPerOpDelta = buildRunnerPercentDelta (GetBytesPerOp base) (GetBytesPerOp cur),
      tr_AllocsPerOpDelta = buildRunnerPercentDelta (GetAllocsPerOp base) (GetAllocsPerOp cur),
      tr_KilobytesPerOpDelta = buildRunnerPercentDelta (GetKilobytesPerOp base) (GetKilobytesPerOp cur)\<rparr>"

text \<open>The loop over the names of the baseline, in order; the first one missing now is the error.\<close>

fun trend_records ::
    "benchmark_records \<Rightarrow> benchmark_records \<Rightarrow> string list \<Rightarrow>
     run_error + (string \<times> storeRunnerBenchmarkTrendRecord) list" where
  "trend_records base cur [] = Inr []"
| "trend_records base cur (name # names) =
     (case map_of cur name of
        None \<Rightarrow> Inl (GateFailed name)
      | Some now \<Rightarrow>
          (case trend_records base cur names of
             Inl e \<Rightarrow> Inl e
           | Inr rs \<Rightarrow>
               Inr ((name, trend_record name (default_to (no_metrics []) (map_of base name)) now) # rs)))"

definition storeRunnerBenchmarkTrendReport ::
    "(storeRunnerBenchmarkTrendSummary \<Rightarrow> string option) \<Rightarrow> shell \<Rightarrow> path \<Rightarrow>
     storeRunnerBenchmarkTrendSummary \<Rightarrow> unit run" where
  "storeRunnerBenchmarkTrendReport encode sh repo summary =
     store_report sh repo (encode summary) ''trend.json'' ''stored benchmark trend summary''"

definition handleRunnerQualityTrend ::
    "(string \<Rightarrow> float64 option) \<Rightarrow> (string \<Rightarrow> storeRunnerBenchmarkSnapshot option) \<Rightarrow>
     (storeRunnerBenchmarkTrendSummary \<Rightarrow> string option) \<Rightarrow> string \<Rightarrow> shell \<Rightarrow> path \<Rightarrow> unit run" where
  "handleRunnerQualityTrend parse_float decode encode now sh repo =
     attempt (demand sh (ReadFile (baseline_file repo)) (FileFailed ''read'' (baseline_file repo))) (\<lambda>content.
     (case decode content of
        None \<Rightarrow> fail_with (ParseFailed ''quality baseline'')
      | Some base \<Rightarrow>
          attempt (current_records parse_float sh repo) (\<lambda>cur.
          attempt (getRunnerGoVersion sh repo) (\<lambda>version.
          (case trend_records (bs_StoreBenchmarks base) cur (sort (remdups (map fst (bs_StoreBenchmarks base)))) of
             Inl e \<Rightarrow> fail_with e
           | Inr rs \<Rightarrow>
               attempt (storeRunnerBenchmarkTrendReport encode sh repo
                 \<lparr>ts_GeneratedAtUTC = now, ts_BaselineGeneratedAtUTC = bs_GeneratedAtUTC base,
                  ts_BaselineGoVersion = bs_GoVersion base, ts_CurrentGoVersion = version,
                  ts_StoreBenchmarks = rs\<rparr>) (\<lambda>_.
               ignoring sh (Print ''benchmark trend summary captured'')))))))"


section \<open>What a passed gate shows\<close>

lemma gate_passed:
  assumes "buildRunnerBenchmarkGateResult rs = Inr g"
  obtains gp rp gb rb where
    "map_of rs ''BenchmarkGRPC_PayloadSize_1000Items'' = Some gp"
    "map_of rs ''BenchmarkREST_PayloadSize_1000Items'' = Some rp"
    "map_of rs ''BenchmarkGRPC_BidirectionalStream_100Messages'' = Some gb"
    "map_of rs ''BenchmarkREST_Bidirectional_100Messages'' = Some rb"
    "\<not> fle_zero (GetKilobytesPerOp rp)" "\<not> fle_zero (GetBytesPerOp rb)" "\<not> fle_zero (GetAllocsPerOp rb)"
    "GetPayloadSavingsPercent g = percent (saving (GetKilobytesPerOp gp) (GetKilobytesPerOp rp))"
    "GetBidiMemorySavingsPercent g = percent (saving (GetBytesPerOp gb) (GetBytesPerOp rb))"
    "GetBidiAllocsSavingsPercent g = percent (saving (GetAllocsPerOp gb) (GetAllocsPerOp rb))"
    "\<not> flt (GetPayloadSavingsPercent g) (Fin 15)" "\<not> flt (GetBidiMemorySavingsPercent g) (Fin 40)"
    "\<not> flt (GetBidiAllocsSavingsPercent g) (Fin 30)"
  using assms unfolding buildRunnerBenchmarkGateResult_def Let_def
  by (auto split: option.splits if_splits)

lemma ends_lint:
  "ends (handleRunnerLint sh repo) h x h' \<Longrightarrow> \<exists>r. rp_ok r \<and> ran sh h' = ran sh h @ [(lint_line, r)]"
  by (auto simp: handleRunnerLint_def run_simps command_line_def lint_line_def)

text \<open>
  The test gate: the race run, or the plain run for one of two reasons; \<open>tests\<close> are the runs and
  their answers.
\<close>

definition skips_race :: "shell \<Rightarrow> bool" where
  "skips_race sh \<longleftrightarrow> os_Getenv (sh_environ sh) ''RUNNER_QUALITY_SKIP_RACE'' = ''1''"

definition strict_race :: "shell \<Rightarrow> bool" where
  "strict_race sh \<longleftrightarrow> os_Getenv (sh_environ sh) ''RUNNER_STRICT_RACE'' = ''1''"

definition tests_passed :: "(string \<Rightarrow> string) \<Rightarrow> shell \<Rightarrow> (string list \<times> reply) list \<Rightarrow> bool" where
  "tests_passed uni sh tests \<longleftrightarrow>
     (if skips_race sh then all_ok tests [''go'' # coverage_test]
      else all_ok tests [''go'' # race_test] \<or>
        (case tests of
           [(race, failure), plain] \<Rightarrow>
             race = ''go'' # race_test \<and> \<not> rp_ok failure \<and> \<not> strict_race sh \<and>
             isRunnerRaceToolchainIssue uni (rp_out failure) \<and> all_ok [plain] [''go'' # coverage_test]
         | _ \<Rightarrow> False))"

lemma ends_quality_test:
  assumes "ends (handleRunnerQualityTest uni sh repo) h x h'"
  shows "\<exists>tests. ran sh h' = ran sh h @ tests \<and> tests_passed uni sh tests"
proof (cases "skips_race sh")
  case True
  with assms show ?thesis
    by (auto simp: handleRunnerQualityTest_def skips_race_def tests_passed_def run_simps command_line_def)
next
  case False
  let ?race = "Run True (proc_at sh repo repo [(''CGO_ENABLED'', ''1'')] ''go'' race_test)"
  show ?thesis
  proof (cases "rp_ok (sh_answer sh h ?race)")
    case True
    with assms False show ?thesis
      by (auto simp: handleRunnerQualityTest_def skips_race_def tests_passed_def
          buildRunnerProcessOutput_def perform_def run_simps command_line_def)
  next
    case fails: False
    with assms False show ?thesis
      by (auto simp: handleRunnerQualityTest_def skips_race_def strict_race_def tests_passed_def
          buildRunnerProcessOutput_def perform_def run_simps command_line_def split: if_splits)
  qed
qed

definition cover_line :: "string list" where
  "cover_line = [''go'', ''tool'', ''cover'', ''-func=coverage.txt'']"

lemma ends_coverage:
  assumes "ends (buildRunnerCoveragePercent pf sh repo) h c h'"
  shows "\<exists>r number. rp_ok r \<and> ran sh h' = ran sh h @ [(cover_line, r)] \<and>
    search match_total (rp_out r) = Some number \<and> pf number = Some c"
  using assms
  by (auto simp: buildRunnerCoveragePercent_def run_simps command_line_def cover_line_def split: option.splits)

lemma benchmark_attempt_ran:
  "run_state (benchmark_attempt pf sh repo) h = (r, h') \<Longrightarrow>
   \<exists>rb. ran sh h' = ran sh h @ [(''go'' # benchmark_args, rb)] \<and>
     (case r of Inl e \<Rightarrow> True
      | Inr g \<Rightarrow> rp_ok rb \<and> (\<exists>rs. parseRunnerBenchmarkRecords pf (rp_out rb) = Some rs \<and>
                                  buildRunnerBenchmarkGateResult rs = Inr g))"
  by (auto simp: benchmark_attempt_def buildRunnerBenchmarkOutput_def attempt_def output_of_def
      buildRunnerProcessOutput_def perform_def fail_with_def report_gate_def ignoring_def succeed_def
      command_line_def split: sum.splits option.splits if_splits)

text \<open>The last of the runs passes; there are at most \<open>n\<close> before it.\<close>

lemma gate_loop_ends:
  "ends (gate_loop pf sh repo n) h g h' \<Longrightarrow>
   \<exists>failed rb rs. length failed \<le> n \<and>
     ran sh h' = ran sh h @ map (Pair (''go'' # benchmark_args)) (failed @ [rb]) \<and> rp_ok rb \<and>
     parseRunnerBenchmarkRecords pf (rp_out rb) = Some rs \<and> buildRunnerBenchmarkGateResult rs = Inr g"
proof (induction n arbitrary: h)
  case 0
  then have "run_state (benchmark_attempt pf sh repo) h = (Inr g, h')" by simp
  from benchmark_attempt_ran [OF this] show ?case by auto
next
  case (Suc n)
  obtain r h1 where one: "run_state (benchmark_attempt pf sh repo) h = (r, h1)" by fastforce
  from benchmark_attempt_ran [OF this] obtain rb where
    r1: "ran sh h1 = ran sh h @ [(''go'' # benchmark_args, rb)]" by blast
  show ?case
  proof (cases r)
    case (Inr g')
    with Suc.prems one have "g' = g" "h' = h1" by (auto simp: succeed_def)
    with Inr benchmark_attempt_ran [OF one] show ?thesis by (intro exI [of _ "[]"]) auto
  next
    case (Inl e)
    let ?h2 = "h1 @ [Print ''benchmark gate attempt failed'', Wait]"
    from Inl Suc.prems one have "ends (gate_loop pf sh repo n) ?h2 g h'" by (auto simp: run_simps)
    from Suc.IH [OF this] obtain failed rb' rs where
      "length failed \<le> n" "rp_ok rb'" "parseRunnerBenchmarkRecords pf (rp_out rb') = Some rs"
      "buildRunnerBenchmarkGateResult rs = Inr g"
      "ran sh h' = ran sh h1 @ map (Pair (''go'' # benchmark_args)) (failed @ [rb'])" by auto
    with r1 show ?thesis by (intro exI [of _ "rb # failed"] exI [of _ rb'] exI [of _ rs]) simp
  qed
qed

lemma ends_store_report:
  assumes "ends (store_report sh repo encoded name done_text) h x h'"
  shows "\<exists>content. encoded = Some content \<and> ran sh h' = ran sh h \<and>
    did sh h' (WriteFile (filepath_Join repo [''bin'', ''quality'', name]) content)"
proof -
  obtain base names where repo: "repo = Path base names" by (cases repo)
  let ?dir = "filepath_Join repo [''bin'', ''quality'']"
  from assms obtain content where content: "encoded = Some content"
    and wr: "rp_ok (sh_answer sh (h @ [MkdirAll ?dir]) (WriteFile (filepath_Join ?dir [name]) content))"
    and h': "h' = ((h @ [MkdirAll ?dir]) @ [WriteFile (filepath_Join ?dir [name]) content]) @ [Print done_text]"
    by (auto simp: store_report_def Let_def run_simps split: option.splits)
  have "did sh h' (WriteFile (filepath_Join ?dir [name]) content)"
    unfolding h' by (rule did_append, rule did_last, rule wr)
  then show ?thesis using content h' by (simp add: repo)
qed

text \<open>
  C37. \<open>quality\<close> succeeds only when every gate passed, in the documented order: lint; the race tests, or
  the plain tests when the race is switched off or (not in strict mode) the failing race run names a
  toolchain; a coverage of at least 90, read from the report; the compilation of every package; and,
  on the first or second run of the benchmarks, the gate. The summary written holds those numbers.
\<close>

theorem quality_gates_enforced:
  assumes "ends (handleRunnerQuality uni parse_float encode now sh repo) [] x h"
  shows "\<exists>lint tests cover compile failed bench number coverage records gate content.
    ran sh h = [(lint_line, lint)] @ tests @
      [(cover_line, cover), ([''go'', ''test'', ''./...'', ''-run'', ''^$''], compile)] @
      map (Pair (''go'' # benchmark_args)) (failed @ [bench]) \<and>
    rp_ok lint \<and> rp_ok cover \<and> rp_ok compile \<and> rp_ok bench \<and> length failed \<le> 1 \<and>
    tests_passed uni sh tests \<and>
    search match_total (rp_out cover) = Some number \<and> parse_float number = Some coverage \<and>
    \<not> flt coverage (Fin 90) \<and>
    parseRunnerBenchmarkRecords parse_float (rp_out bench) = Some records \<and>
    buildRunnerBenchmarkGateResult records = Inr gate \<and>
    encode \<lparr>qs_GeneratedAtUTC = now, qs_CoveragePercent = coverage, qs_CoverageThreshold = Fin 90,
            qs_GateResult = gate\<rparr> = Some content \<and>
    did sh h (WriteFile (filepath_Join repo [''bin'', ''quality'', ''summary.json'']) content)"
proof -
  from assms obtain h1 h2 h3 h4 h5 h6 coverage gate where
    lint: "ends (handleRunnerLint sh repo) [] () h1"
    and test: "ends (handleRunnerQualityTest uni sh repo) h1 () h2"
    and cover: "ends (buildRunnerCoveragePercent parse_float sh repo) h2 coverage h3"
    and enough: "\<not> flt coverage (Fin 90)"
    and h4: "h4 = h3 @ [Report ''coverage gate passed'' [coverage]]"
    and comp: "ends (go_run sh repo [''test'', ''./...'', ''-run'', ''^$'']) h4 () h5"
    and gate: "ends (gate_loop parse_float sh repo 1) h5 gate h6"
    and summary: "ends (storeRunnerQualitySummary encode now sh repo coverage gate) h6 () h"
    by (auto simp: handleRunnerQuality_def run_simps buildRunnerBenchmarkGateResultWithRetry_def
        getRunnerBenchmarkGateAttempts_def split: if_splits)
  obtain rl where l: "rp_ok rl" "ran sh h1 = [(lint_line, rl)]" using ends_lint [OF lint] by auto
  obtain tests where t: "ran sh h2 = ran sh h1 @ tests" "tests_passed uni sh tests"
    using ends_quality_test [OF test] by blast
  obtain rc number where c: "rp_ok rc" "ran sh h3 = ran sh h2 @ [(cover_line, rc)]"
    "search match_total (rp_out rc) = Some number" "parse_float number = Some coverage"
    using ends_coverage [OF cover] by blast
  obtain rk where k: "rp_ok rk" "ran sh h5 = ran sh h3 @ [([''go'', ''test'', ''./...'', ''-run'', ''^$''], rk)]"
    using comp by (auto simp: h4 run_simps command_line_def)
  obtain failed rb rs where b: "length failed \<le> 1" "rp_ok rb"
    "parseRunnerBenchmarkRecords parse_float (rp_out rb) = Some rs" "buildRunnerBenchmarkGateResult rs = Inr gate"
    "ran sh h6 = ran sh h5 @ map (Pair (''go'' # benchmark_args)) (failed @ [rb])"
    using gate_loop_ends [OF gate] by blast
  obtain content where content: "encode \<lparr>qs_GeneratedAtUTC = now, qs_CoveragePercent = coverage,
      qs_CoverageThreshold = Fin 90, qs_GateResult = gate\<rparr> = Some content"
    "ran sh h = ran sh h6"
    "did sh h (WriteFile (filepath_Join repo [''bin'', ''quality'', ''summary.json'']) content)"
    using ends_store_report summary unfolding storeRunnerQualitySummary_def by blast
  have "ran sh h = [(lint_line, rl)] @ tests @
      [(cover_line, rc), ([''go'', ''test'', ''./...'', ''-run'', ''^$''], rk)] @
      map (Pair (''go'' # benchmark_args)) (failed @ [rb])"
    using l t c k b content by simp
  with l(1) c(1,3,4) k(1) b(1-4) t(2) enough content(1,3) show ?thesis by blast
qed


text \<open>A machine on which every process succeeds; the benchmarks report no cost for gRPC.\<close>

definition bench_report :: string where
  "bench_report =
     concat (map (\<lambda>name. ''Benchmark'' @ name @ ''-8 1 5 ns/op 0 KB/op 0 B/op 0 allocs/op'' @ [newline])
       [''GRPC_PayloadSize_1000Items'', ''GRPC_BidirectionalStream_100Messages'',
        ''GRPC_StreamLargeDataset_1000Items'']) @
     concat (map (\<lambda>name. ''Benchmark'' @ name @ ''-8 1 5 ns/op 1 KB/op 1 B/op 1 allocs/op'' @ [newline])
       [''REST_PayloadSize_1000Items'', ''REST_Bidirectional_100Messages'', ''REST_LargeDataset_1000Items''])"

definition small_numbers :: "string \<Rightarrow> float64 option" where
  "small_numbers s =
     map_of [(''0'', Fin 0), (''1'', Fin 1), (''5'', Fin 5), (''91.5'', Fin (183 / 2))] s"

fun calm_answer :: "action \<Rightarrow> reply" where
  "calm_answer (Run captured p) =
     Done (if pr_args p = benchmark_args then bench_report
           else if pr_args p = tl cover_line then ''total: (statements) 91.5%'' else [])"
| "calm_answer a = Done []"

definition calm_shell :: shell where
  "calm_shell = \<lparr>sh_environ = [], sh_goos = ''linux'', sh_goarch = ''amd64'', sh_answer = (\<lambda>_. calm_answer)\<rparr>"

definition here :: path where "here = Path ''/repo'' []"

definition cheap :: "string \<Rightarrow> storeRunnerBenchmarkRecord" where
  "cheap name = \<lparr>GetBenchmarkName = name, GetNsPerOp = Fin 5, GetBytesPerOp = Fin 0, GetAllocsPerOp = Fin 0,
     GetKilobytesPerOp = Fin 0, HasKilobytesMetric = True\<rparr>"

definition costly :: "string \<Rightarrow> storeRunnerBenchmarkRecord" where
  "costly name = \<lparr>GetBenchmarkName = name, GetNsPerOp = Fin 5, GetBytesPerOp = Fin 1, GetAllocsPerOp = Fin 1,
     GetKilobytesPerOp = Fin 1, HasKilobytesMetric = True\<rparr>"

definition calm_records :: benchmark_records where
  "calm_records =
     map (\<lambda>n. (n, cheap n))
       [''BenchmarkGRPC_PayloadSize_1000Items'', ''BenchmarkGRPC_BidirectionalStream_100Messages'',
        ''BenchmarkGRPC_StreamLargeDataset_1000Items''] @
     map (\<lambda>n. (n, costly n))
       [''BenchmarkREST_PayloadSize_1000Items'', ''BenchmarkREST_Bidirectional_100Messages'',
        ''BenchmarkREST_LargeDataset_1000Items'']"

lemma calm_parse: "parseRunnerBenchmarkRecords small_numbers bench_report = Some calm_records"
  by code_simp

definition full_savings :: storeRunnerBenchmarkGateResult where
  "full_savings = \<lparr>GetPayloadSavingsPercent = Fin 100, GetBidiMemorySavingsPercent = Fin 100,
     GetBidiAllocsSavingsPercent = Fin 100, GetLargeMemorySavingsPercent = Fin 100\<rparr>"

lemma calm_gate: "buildRunnerBenchmarkGateResult calm_records = Inr full_savings"
  by (simp add: buildRunnerBenchmarkGateResult_def calm_records_def cheap_def costly_def saving_def
      percent_def fle_zero_def float_neg_def full_savings_def)

lemma calm_coverage: "search match_total ''total: (statements) 91.5%'' = Some ''91.5''" "small_numbers ''91.5'' = Some (Fin (183 / 2))"
  by code_simp+

lemma calm_lines: "benchmark_args \<noteq> tl cover_line" 
  by (simp add: benchmark_args_def cover_line_def)

lemma calm_attempt:
  "ends (benchmark_attempt small_numbers calm_shell here) h full_savings
     ((h @ [Run True (proc_at calm_shell here here [] ''go'' benchmark_args)]) @
      [Report ''benchmark gates passed'' [Fin 100, Fin 100, Fin 100, Fin 100]])"
  by (simp add: benchmark_attempt_def run_simps buildRunnerBenchmarkOutput_def calm_shell_def calm_parse
      calm_gate report_gate_def full_savings_def)

lemma calm_quality:
  "\<exists>h. ends (handleRunnerQuality id small_numbers (\<lambda>_. Some ''{}'') ''now'' calm_shell here) [] () h"
proof -
  have retry: "\<exists>h'. ends (buildRunnerBenchmarkGateResultWithRetry small_numbers calm_shell here) h full_savings h'" for h
    using calm_attempt [of h]
    by (simp add: buildRunnerBenchmarkGateResultWithRetry_def getRunnerBenchmarkGateAttempts_def run_simps)
  have lint: "\<exists>h'. ends (handleRunnerLint calm_shell here) h () h'" for h
    by (simp add: handleRunnerLint_def run_simps calm_shell_def)
  have tests: "\<exists>h'. ends (handleRunnerQualityTest id calm_shell here) h () h'" for h
    by (simp add: handleRunnerQualityTest_def run_simps calm_shell_def os_Getenv_def
        buildRunnerProcessOutput_def perform_def)
  have cover: "\<exists>h'. ends (buildRunnerCoveragePercent small_numbers calm_shell here) h (Fin (183 / 2)) h'" for h
    using calm_lines
    by (auto simp: buildRunnerCoveragePercent_def run_simps calm_shell_def calm_coverage cover_line_def
        simp del: search.simps)
  have comp: "\<exists>h'. ends (go_run calm_shell here [''test'', ''./...'', ''-run'', ''^$'']) h () h'" for h
    by (simp add: run_simps calm_shell_def)
  have summary: "\<exists>h'. ends (storeRunnerQualitySummary (\<lambda>_. Some ''{}'') ''now'' calm_shell here c g) h () h'" for c g h
    by (simp add: storeRunnerQualitySummary_def store_report_def Let_def run_simps calm_shell_def)
  have print: "\<exists>h'. ends (ignoring calm_shell a) h () h'" for a h by (simp add: run_simps)
  show ?thesis unfolding handleRunnerQuality_def
    by (rule can_attempt [OF lint], rule can_attempt [OF tests], rule can_attempt [OF cover],
        subst if_not_P, simp, rule can_attempt [OF print], rule can_attempt [OF comp],
        rule can_attempt [OF retry], rule summary)
qed

theorem quality_gates_enforced_witness:
  "\<exists>h. did calm_shell h (WriteFile (filepath_Join here [''bin'', ''quality'', ''summary.json'']) ''{}'')"
proof -
  obtain h where "ends (handleRunnerQuality id small_numbers (\<lambda>_. Some ''{}'') ''now'' calm_shell here) [] () h"
    using calm_quality by blast
  from quality_gates_enforced [OF this] show ?thesis by blast
qed


section \<open>What the savings mean\<close>

text \<open>
  C38. The benchmark gate is sound although it computes in floating point: when the metrics are finite
  and not negative and the gate passes, the true costs of gRPC are at most 85, 60 and 70 percent of
  those of REST, up to a millionth of the latter.
\<close>

theorem gate_savings_are_true:
  assumes "buildRunnerBenchmarkGateResult records = Inr gate"
    and "map_of records ''BenchmarkGRPC_PayloadSize_1000Items'' = Some gp" "GetKilobytesPerOp gp = Fin g1"
    and "map_of records ''BenchmarkREST_PayloadSize_1000Items'' = Some rp" "GetKilobytesPerOp rp = Fin r1"
    and "map_of records ''BenchmarkGRPC_BidirectionalStream_100Messages'' = Some gb"
      "GetBytesPerOp gb = Fin g2" "GetAllocsPerOp gb = Fin g3"
    and "map_of records ''BenchmarkREST_Bidirectional_100Messages'' = Some rb"
      "GetBytesPerOp rb = Fin r2" "GetAllocsPerOp rb = Fin r3"
    and "0 \<le> g1" "0 \<le> g2" "0 \<le> g3"
  shows "g1 \<le> (85 / 100 + 1 / 10 ^ 6) * r1 \<and> g2 \<le> (60 / 100 + 1 / 10 ^ 6) * r2 \<and>
    g3 \<le> (70 / 100 + 1 / 10 ^ 6) * r3"
proof -
  have bound: "g \<le> (1 - t / 100 + 1 / 10 ^ 6) * r"
    if "0 \<le> g" "\<not> fle_zero (Fin r)" "1 \<le> t" "t \<le> 100" "\<not> flt (percent (saving (Fin g) (Fin r))) (Fin t)" for g r t
  proof -
    from that(2) have r: "0 < r" by (auto simp: fle_zero_def float_neg_def)
    have "t - 1 / 2 ^ 20 \<le> (1 - g / r) * 100"
      using saving_sound [OF that(1) r that(3,4)] that(5) unfolding percent_def saving_def by blast
    then have "g / r \<le> 1 - t / 100 + 1 / 10 ^ 6" by (simp add: field_simps)
    with r show ?thesis by (simp add: pos_divide_le_eq)
  qed
  from gate_passed [OF assms(1)] assms(2-)
  have "\<not> fle_zero (Fin r1)" "\<not> fle_zero (Fin r2)" "\<not> fle_zero (Fin r3)"
    "\<not> flt (percent (saving (Fin g1) (Fin r1))) (Fin 15)" "\<not> flt (percent (saving (Fin g2) (Fin r2))) (Fin 40)"
    "\<not> flt (percent (saving (Fin g3) (Fin r3))) (Fin 30)" by (metis option.inject)+
  with bound [of g1 r1 15] bound [of g2 r2 40] bound [of g3 r3 30] assms(12-14) show ?thesis by simp
qed

theorem gate_savings_are_true_witness: "(0 :: rat) \<le> (85 / 100 + 1 / 10 ^ 6) * 1"
proof -
  have "map_of calm_records ''BenchmarkGRPC_PayloadSize_1000Items'' = Some (cheap ''BenchmarkGRPC_PayloadSize_1000Items'')"
    "map_of calm_records ''BenchmarkREST_PayloadSize_1000Items'' = Some (costly ''BenchmarkREST_PayloadSize_1000Items'')"
    "map_of calm_records ''BenchmarkGRPC_BidirectionalStream_100Messages'' =
      Some (cheap ''BenchmarkGRPC_BidirectionalStream_100Messages'')"
    "map_of calm_records ''BenchmarkREST_Bidirectional_100Messages'' =
      Some (costly ''BenchmarkREST_Bidirectional_100Messages'')"
    by (simp_all add: calm_records_def)
  from gate_savings_are_true [OF calm_gate this(1) _ this(2) _ this(3) _ _ this(4), of 0 1 0 0 1 1]
  show ?thesis by (simp add: cheap_def costly_def)
qed

text \<open>
  The fallback is decided by a word in the output of the failed run, so a test that fails in race
  mode and mentions a compiler in its output is run again without the detector, and the gate passes.
\<close>

definition racy_shell :: shell where
  "racy_shell = calm_shell\<lparr>sh_answer := (\<lambda>_ a.
     case a of
       Run True p \<Rightarrow> if pr_args p = race_test then Fails ''WARNING: DATA RACE --- FAIL: TestClangFormat'' else Done []
     | _ \<Rightarrow> Done [])\<rparr>"

lemma race_failure_swallowed:
  "\<exists>h. ends (handleRunnerQualityTest id racy_shell here) [] () h"
proof -
  have issue: "isRunnerRaceToolchainIssue id ''WARNING: DATA RACE --- FAIL: TestClangFormat''" by code_simp
  show ?thesis
    by (simp add: handleRunnerQualityTest_def run_simps racy_shell_def calm_shell_def os_Getenv_def
        buildRunnerProcessOutput_def perform_def issue)
qed

section \<open>The trend\<close>

lemma trend_records_spec:
  "trend_records base cur names =
     (if list_all (\<lambda>n. map_of cur n \<noteq> None) names
      then Inr (map (\<lambda>n. (n, trend_record n (default_to (no_metrics []) (map_of base n)) (the (map_of cur n)))) names)
      else Inl (GateFailed (hd (filter (\<lambda>n. map_of cur n = None) names))))"
  by (induction names) (auto split: option.splits)

text \<open>
  The trend covers the whole baseline: it succeeds only when every benchmark of the baseline was
  measured now, and then reports for each, in order of the names, its four changes in percent.
\<close>

theorem trend_covers_baseline:
  assumes "ends (handleRunnerQualityTrend parse_float decode encode now sh repo) [] x h"
  defines "file \<equiv> sh_answer sh [] (ReadFile (baseline_file repo))"
  shows "\<exists>base bench cur version out.
    decode (rp_out file) = Some base \<and>
    ran sh h = [(''go'' # benchmark_args, bench), ([''go'', ''version''], version)] \<and>
    parseRunnerBenchmarkRecords parse_float (rp_out bench) = Some cur \<and>
    list_all (\<lambda>n. map_of cur n \<noteq> None) (map fst (bs_StoreBenchmarks base)) \<and>
    encode \<lparr>ts_GeneratedAtUTC = now, ts_BaselineGeneratedAtUTC = bs_GeneratedAtUTC base,
      ts_BaselineGoVersion = bs_GoVersion base, ts_CurrentGoVersion = strings_TrimSpace (rp_out version),
      ts_StoreBenchmarks = map (\<lambda>n. (n, trend_record n (default_to (no_metrics []) (map_of (bs_StoreBenchmarks base) n))
          (the (map_of cur n)))) (sort (remdups (map fst (bs_StoreBenchmarks base))))\<rparr> = Some out \<and>
    did sh h (WriteFile (filepath_Join repo [''bin'', ''quality'', ''trend.json'']) out)"
proof -
  let ?rd = "ReadFile (baseline_file repo)"
  let ?bench = "Run True (proc_at sh repo repo [] ''go'' benchmark_args)"
  let ?version = "Run True (proc_at sh repo repo [] ''go'' [''version''])"
  let ?rb = "sh_answer sh [?rd] ?bench" and ?rv = "sh_answer sh [?rd, ?bench] ?version"
  from assms(1) obtain base cur rs h2 where
    facts: "decode (rp_out file) = Some base" "parseRunnerBenchmarkRecords parse_float (rp_out ?rb) = Some cur"
      "trend_records (bs_StoreBenchmarks base) cur (sort (remdups (map fst (bs_StoreBenchmarks base)))) = Inr rs"
    and report: "ends (storeRunnerBenchmarkTrendReport encode sh repo
         \<lparr>ts_GeneratedAtUTC = now, ts_BaselineGeneratedAtUTC = bs_GeneratedAtUTC base,
          ts_BaselineGoVersion = bs_GoVersion base, ts_CurrentGoVersion = strings_TrimSpace (rp_out ?rv),
          ts_StoreBenchmarks = rs\<rparr>) [?rd, ?bench, ?version] () h2"
    and h: "h = h2 @ [Print ''benchmark trend summary captured'']"
    by (auto simp: handleRunnerQualityTrend_def current_records_def buildRunnerBenchmarkOutput_def
        getRunnerGoVersion_def file_def run_simps split: option.splits sum.splits)
  from facts(3) have all: "list_all (\<lambda>n. map_of cur n \<noteq> None) (map fst (bs_StoreBenchmarks base))"
    and rs: "rs = map (\<lambda>n. (n, trend_record n (default_to (no_metrics []) (map_of (bs_StoreBenchmarks base) n))
        (the (map_of cur n)))) (sort (remdups (map fst (bs_StoreBenchmarks base))))"
    unfolding trend_records_spec by (auto simp: list_all_iff split: if_splits)
  from report obtain out where out: "encode \<lparr>ts_GeneratedAtUTC = now, ts_BaselineGeneratedAtUTC = bs_GeneratedAtUTC base,
      ts_BaselineGoVersion = bs_GoVersion base, ts_CurrentGoVersion = strings_TrimSpace (rp_out ?rv),
      ts_StoreBenchmarks = rs\<rparr> = Some out"
    "did sh h2 (WriteFile (filepath_Join repo [''bin'', ''quality'', ''trend.json'']) out)"
    "ran sh h2 = ran sh [?rd, ?bench, ?version]"
    unfolding storeRunnerBenchmarkTrendReport_def using ends_store_report by blast
  have "ran sh h = [(''go'' # benchmark_args, ?rb), ([''go'', ''version''], ?rv)]"
    using out(3) by (simp add: h) (simp add: ran_def command_line_def)
  with facts all out(1,2) h did_append show ?thesis unfolding rs by blast
qed

end
