(* ===== verification/Runner_Publish.thy ===== *)
theory Runner_Publish
  imports Runner_Commands Runner_Text
begin

text \<open>
  The publication check of the task runner (\<open>tools/runner.go\<close>): the identity of the module and of its
  repository, and a clean consumer built in a temporary directory. \<open>uni\<close> is \<open>strings.ToLower\<close>
  beyond ASCII.
\<close>

section \<open>The settings\<close>

definition buildRunnerCanonicalEnv :: "shell \<Rightarrow> (string \<times> string) list" where
  "buildRunnerCanonicalEnv sh =
     (let proxy = strings_TrimSpace (os_Getenv (sh_environ sh) ''RUNNER_CANONICAL_GOPROXY'')
      in if proxy = [] then [] else [(''GOPROXY'', proxy)])"

definition buildRunnerCanonicalWASMEnv :: "(string \<times> string) list \<Rightarrow> (string \<times> string) list" where
  "buildRunnerCanonicalWASMEnv env = fold (\<lambda>(k, v). AList.update k v) env wasm_target"

definition hasRunnerSkipCanonicalOriginCheck :: "(string \<Rightarrow> string) \<Rightarrow> shell \<Rightarrow> bool" where
  "hasRunnerSkipCanonicalOriginCheck uni sh \<longleftrightarrow>
     (let v = strings_TrimSpace (strings_ToLower uni (os_Getenv (sh_environ sh) ''RUNNER_CANONICAL_SKIP_ORIGIN''))
      in v = ''1'' \<or> v = ''true'' \<or> v = ''yes'')"

section \<open>The check\<close>

definition check_module :: "shell \<Rightarrow> path \<Rightarrow> unit run" where
  "check_module sh repo =
     (let file = filepath_Join repo [''go.mod'']
      in attempt (demand sh (ReadFile file) (FileFailed ''read'' file)) (\<lambda>content.
         (case parseRunnerGoModModulePath content of
            None \<Rightarrow> fail_with (ParseFailed ''go.mod'')
          | Some m \<Rightarrow>
              if m \<noteq> canonical_module then fail_with (GateFailed ''module path'') else succeed ())))"

definition check_origin :: "(string \<Rightarrow> string) \<Rightarrow> shell \<Rightarrow> path \<Rightarrow> string list \<Rightarrow> unit run" where
  "check_origin uni sh repo urls =
     (if \<not> hasRunnerSkipCanonicalOriginCheck uni sh then
        attempt (output_of sh repo repo [] ''git'' [''remote'', ''get-url'', ''origin'']) (\<lambda>out.
        (let origin = normalizeRunnerRepositoryURL (strings_TrimSpace out)
         in if \<not> hasRunnerCanonicalRepositoryURL origin urls then fail_with (GateFailed ''origin'')
            else succeed ()))
      else ignoring sh (Print ''canonical publish check: skipping origin remote validation''))"

fun check_reachable :: "shell \<Rightarrow> path \<Rightarrow> string list \<Rightarrow> unit run" where
  "check_reachable sh repo [] = succeed ()"
| "check_reachable sh repo (url # urls) =
     attempt (wrapping ''repository is not reachable''
       (output_of sh repo repo [] ''git'' [''ls-remote'', url, ''HEAD''])) (\<lambda>_.
     check_reachable sh repo urls)"

definition server_main :: string where
  "server_main =
     ''package main'' @ [newline, newline] @ ''import _ '' @ [CHR 0x22] @ canonical_module @
     ''/pkg/grpctunnel'' @ [CHR 0x22, newline, newline] @ ''func main() {}'' @ [newline]"

definition wasm_main :: string where
  "wasm_main = ''//go:build js && wasm'' @ [newline, newline] @ server_main"

text \<open>One program of the consumer: its directory, its source, and its build.\<close>

definition build_server_smoke :: "shell \<Rightarrow> path \<Rightarrow> path \<Rightarrow> (string \<times> string) list \<Rightarrow> unit run" where
  "build_server_smoke sh repo smoke env =
     (let dir = filepath_Join smoke [''server'']; bin = filepath_Join smoke [''bin''];
          file = filepath_Join dir [''main.go'']
      in attempt (demand sh (MkdirAll dir) (FileFailed ''mkdir'' dir)) (\<lambda>_.
         attempt (demand sh (MkdirAll bin) (FileFailed ''mkdir'' bin)) (\<lambda>_.
         attempt (demand sh (WriteFile file server_main) (FileFailed ''write'' file)) (\<lambda>_.
         wrapping ''server compile smoke'' (handleRunnerProcess sh repo smoke env ''go''
           [''build'', ''-o'', ''bin/server-smoke'', ''./server''])))))"

definition build_wasm_smoke :: "shell \<Rightarrow> path \<Rightarrow> path \<Rightarrow> (string \<times> string) list \<Rightarrow> unit run" where
  "build_wasm_smoke sh repo smoke env =
     (let dir = filepath_Join smoke [''wasm'']; file = filepath_Join dir [''main.go'']
      in attempt (demand sh (MkdirAll dir) (FileFailed ''mkdir'' dir)) (\<lambda>_.
         attempt (demand sh (WriteFile file wasm_main) (FileFailed ''write'' file)) (\<lambda>_.
         wrapping ''wasm compile smoke'' (handleRunnerProcess sh repo smoke (buildRunnerCanonicalWASMEnv env) ''go''
           [''build'', ''-o'', ''bin/wasm-smoke.wasm'', ''./wasm'']))))"

text \<open>What is done in the temporary directory.\<close>

definition smoke_consumer :: "shell \<Rightarrow> path \<Rightarrow> path \<Rightarrow> unit run" where
  "smoke_consumer sh repo smoke =
     (let env = buildRunnerCanonicalEnv sh; go = handleRunnerProcess sh repo smoke env ''go''
      in attempt (go [''mod'', ''init'', ''example.com/gogrpcbridge-publish-smoke'']) (\<lambda>_.
         attempt (wrapping ''go get'' (go [''get'', canonical_module @ ''@latest''])) (\<lambda>_.
         attempt (wrapping ''go get'' (go [''get'', canonical_module @ ''/pkg/grpctunnel@latest''])) (\<lambda>_.
         attempt (build_server_smoke sh repo smoke env) (\<lambda>_.
         attempt (build_wasm_smoke sh repo smoke env) (\<lambda>_.
         ignoring sh (Print ''canonical publish check passed'')))))))"

definition handleRunnerCanonicalPublishCheck :: "(string \<Rightarrow> string) \<Rightarrow> shell \<Rightarrow> path \<Rightarrow> unit run" where
  "handleRunnerCanonicalPublishCheck uni sh repo =
     attempt (check_module sh repo) (\<lambda>_.
     (let urls = buildRunnerCanonicalRepositoryURLs
      in attempt (check_origin uni sh repo urls) (\<lambda>_.
         attempt (check_reachable sh repo urls) (\<lambda>_.
         attempt (demand sh (MkdirTemp ''gogrpcbridge-publish-smoke-*'') (FileFailed ''mkdir'' repo)) (\<lambda>name.
         (let smoke = Path name []
          in finally_do (smoke_consumer sh repo smoke) (ignoring sh (RemoveAll smoke))))))))"

section \<open>Identity\<close>

lemma canonical_urls: "buildRunnerCanonicalRepositoryURLs = [canonical_repository]"
  by code_simp

text \<open>The addresses that normalise to the canonical one: it, or the same in the form of ssh.\<close>

definition ssh_repository :: string where
  "ssh_repository = ''git@github.com:monstercameron/GoGRPCBridge''"

lemma normalize_canonical_iff:
  "normalizeRunnerRepositoryURL url = canonical_repository \<longleftrightarrow>
     strings_TrimSuffix (strings_TrimSpace url) ''.git'' \<in> {canonical_repository, ssh_repository}"
proof -
  let ?p = "''git@github.com:''"
  have "normalizeRunnerRepositoryURL url = canonical_repository \<longleftrightarrow> t = canonical_repository \<or> t = ssh_repository"
    if t: "t = strings_TrimSuffix (strings_TrimSpace url) ''.git''" for t
  proof (cases "prefix ?p t")
    case True
    then obtain r where r: "t = ?p @ r" by (auto simp: prefix_def)
    then show ?thesis
      by (simp add: normalizeRunnerRepositoryURL_def t [symmetric] strings_HasPrefix_def strings_TrimPrefix_def
          canonical_repository_def ssh_repository_def)
  next
    case False
    moreover have "prefix ?p ssh_repository" by (simp add: ssh_repository_def)
    ultimately show ?thesis
      by (auto simp: normalizeRunnerRepositoryURL_def t [symmetric] strings_HasPrefix_def)
  qed
  then show ?thesis by simp
qed

section \<open>What a passed check shows\<close>

definition smoke_lines :: "string list list" where
  "smoke_lines =
     [[''go'', ''mod'', ''init'', ''example.com/gogrpcbridge-publish-smoke''],
      [''go'', ''get'', canonical_module @ ''@latest''],
      [''go'', ''get'', canonical_module @ ''/pkg/grpctunnel@latest''],
      [''go'', ''build'', ''-o'', ''bin/server-smoke'', ''./server''],
      [''go'', ''build'', ''-o'', ''bin/wasm-smoke.wasm'', ''./wasm'']]"

lemma ends_check_module:
  "ends (check_module sh repo) h x h' \<Longrightarrow>
   parseRunnerGoModModulePath (rp_out (sh_answer sh h (ReadFile (filepath_Join repo [''go.mod''])))) = Some canonical_module \<and>
   ran sh h' = ran sh h"
  by (auto simp: check_module_def Let_def run_simps split: option.splits if_splits)

lemma ends_check_origin:
  assumes "ends (check_origin uni sh repo [canonical_repository]) h x h'"
  shows "\<exists>origin. ran sh h' = ran sh h @ origin \<and>
    (if hasRunnerSkipCanonicalOriginCheck uni sh then origin = []
     else \<exists>r. origin = [([''git'', ''remote'', ''get-url'', ''origin''], r)] \<and> rp_ok r \<and>
       normalizeRunnerRepositoryURL (normalizeRunnerRepositoryURL (strings_TrimSpace (rp_out r))) = canonical_repository)"
  using assms
  by (auto simp: check_origin_def hasRunnerCanonicalRepositoryURL_def run_simps Let_def command_line_def
      split: if_splits)

lemma ends_check_reachable:
  "ends (check_reachable sh repo [url]) h x h' \<Longrightarrow>
   \<exists>r. rp_ok r \<and> ran sh h' = ran sh h @ [([''git'', ''ls-remote'', url, ''HEAD''], r)]"
  by (auto simp: run_simps command_line_def)

lemma ends_smoke:
  assumes "ends (smoke_consumer sh repo smoke) h x h'"
  shows "\<exists>rs. ran sh h' = ran sh h @ rs \<and> all_ok rs smoke_lines"
  using assms
  by (auto simp: smoke_consumer_def build_server_smoke_def build_wasm_smoke_def Let_def run_simps
      command_line_def smoke_lines_def)

lemma ends_finally:
  "ends (finally_do m (ignoring sh a)) h x h' \<longleftrightarrow> (\<exists>h1. ends m h x h1 \<and> h' = h1 @ [a])"
  by (auto simp: finally_do_def ignoring_def perform_def succeed_def split: prod.splits)

text \<open>
  C39. The publication check passes only when the module path of \<open>go.mod\<close> is the canonical one, the
  origin (unless skipped) is the canonical repository in one of its two forms, that repository
  answers, and a clean consumer has fetched the module and built a server and a WebAssembly program.
\<close>

theorem publish_check_sound:
  assumes "ends (handleRunnerCanonicalPublishCheck uni sh repo) [] x h"
  shows "\<exists>origin reach rs.
    ran sh h = origin @ [([''git'', ''ls-remote'', canonical_repository, ''HEAD''], reach)] @ rs \<and>
    rp_ok reach \<and> all_ok rs smoke_lines \<and>
    parseRunnerGoModModulePath (rp_out (sh_answer sh [] (ReadFile (filepath_Join repo [''go.mod''])))) =
      Some canonical_module \<and>
    (if hasRunnerSkipCanonicalOriginCheck uni sh then origin = []
     else \<exists>r. origin = [([''git'', ''remote'', ''get-url'', ''origin''], r)] \<and> rp_ok r \<and>
       strings_TrimSuffix (strings_TrimSpace (normalizeRunnerRepositoryURL (rp_out r))) ''.git''
         \<in> {canonical_repository, ssh_repository})"
proof -
  from assms obtain h1 h2 h3 h4 name where
    m: "ends (check_module sh repo) [] () h1"
    and o': "ends (check_origin uni sh repo [canonical_repository]) h1 () h2"
    and r: "ends (check_reachable sh repo [canonical_repository]) h2 () h3"
    and s: "ends (smoke_consumer sh repo (Path name [])) (h3 @ [MkdirTemp ''gogrpcbridge-publish-smoke-*'']) () h4"
    and h: "h = h4 @ [RemoveAll (Path name [])]"
    unfolding handleRunnerCanonicalPublishCheck_def canonical_urls Let_def
    by (auto simp: run_simps ends_finally simp del: check_reachable.simps)
  have norm: "normalizeRunnerRepositoryURL (strings_TrimSpace u) = normalizeRunnerRepositoryURL u" for u
    by (simp add: normalizeRunnerRepositoryURL_def)
  from ends_check_origin [OF o'] obtain origin where origin: "ran sh h2 = ran sh h1 @ origin"
    "if hasRunnerSkipCanonicalOriginCheck uni sh then origin = []
     else \<exists>r. origin = [([''git'', ''remote'', ''get-url'', ''origin''], r)] \<and> rp_ok r \<and>
       strings_TrimSuffix (strings_TrimSpace (normalizeRunnerRepositoryURL (rp_out r))) ''.git''
         \<in> {canonical_repository, ssh_repository}"
    unfolding norm normalize_canonical_iff by blast
  from ends_check_reachable [OF r] obtain reach where
    reach: "rp_ok reach" "ran sh h3 = ran sh h2 @ [([''git'', ''ls-remote'', canonical_repository, ''HEAD''], reach)]" by blast
  from ends_smoke [OF s] obtain rs where rs: "ran sh h4 = ran sh h3 @ rs" "all_ok rs smoke_lines" by auto
  have "ran sh h = origin @ [([''git'', ''ls-remote'', canonical_repository, ''HEAD''], reach)] @ rs"
    using ends_check_module [OF m] origin(1) reach(2) rs(1) h by simp
  with ends_check_module [OF m] origin(2) reach(1) rs(2) show ?thesis by blast
qed

text \<open>A machine on which the module is published; its origin is in the form of ssh.\<close>

definition published_mod :: string where
  "published_mod = ''module '' @ canonical_module @ [newline]"

definition published_origin :: string where
  "published_origin = ssh_repository @ ''.git'' @ [newline]"

definition published_shell :: shell where
  "published_shell =
     \<lparr>sh_environ = [], sh_goos = ''linux'', sh_goarch = ''amd64'',
      sh_answer = (\<lambda>_ a. case a of
        ReadFile p \<Rightarrow> Done published_mod
      | Run captured p \<Rightarrow> Done published_origin
      | _ \<Rightarrow> Done ''/tmp/smoke'')\<rparr>"

lemma published_facts:
  "parseRunnerGoModModulePath published_mod = Some canonical_module"
  "hasRunnerCanonicalRepositoryURL
     (normalizeRunnerRepositoryURL (strings_TrimSpace published_origin)) [canonical_repository]"
  by code_simp+

lemma published_passes:
  "\<exists>h. ends (handleRunnerCanonicalPublishCheck id published_shell (Path ''/repo'' [])) [] () h"
proof -
  let ?repo = "Path ''/repo'' []"
  have m: "\<exists>h'. ends (check_module published_shell ?repo) h () h'" for h
    by (simp add: check_module_def Let_def run_simps published_shell_def published_facts(1))
  have o': "\<exists>h'. ends (check_origin id published_shell ?repo [canonical_repository]) h () h'" for h
    unfolding check_origin_def
    by (simp add: run_simps hasRunnerSkipCanonicalOriginCheck_def os_Getenv_def strings_ToLower_def)
      (simp add: published_shell_def run_simps published_facts(2) Let_def)
  have r: "\<exists>h'. ends (check_reachable published_shell ?repo [canonical_repository]) h () h'" for h
    by (simp add: run_simps published_shell_def)
  have t: "\<exists>h'. ends (demand published_shell (MkdirTemp p) e) h ''/tmp/smoke'' h'" for p e h
    by (simp add: run_simps published_shell_def)
  have s: "\<exists>h'. ends (finally_do (smoke_consumer published_shell ?repo d) (ignoring published_shell a)) h () h'" for d a h
    by (simp add: ends_finally smoke_consumer_def build_server_smoke_def build_wasm_smoke_def Let_def run_simps
        published_shell_def)
  show ?thesis unfolding handleRunnerCanonicalPublishCheck_def canonical_urls Let_def
    by (rule can_attempt [OF m], rule can_attempt [OF o'], rule can_attempt [OF r], rule can_attempt [OF t], rule s)
qed

theorem publish_check_sound_witness:
  "\<exists>h reach. ([''git'', ''ls-remote'', canonical_repository, ''HEAD''], reach) \<in> set (ran published_shell h)"
proof -
  obtain h where "ends (handleRunnerCanonicalPublishCheck id published_shell (Path ''/repo'' [])) [] () h"
    using published_passes by blast
  from publish_check_sound [OF this] obtain origin reach rs where
    "ran published_shell h = origin @ [([''git'', ''ls-remote'', canonical_repository, ''HEAD''], reach)] @ rs" by blast
  then have "([''git'', ''ls-remote'', canonical_repository, ''HEAD''], reach) \<in> set (ran published_shell h)" by simp
  then show ?thesis by blast
qed

section \<open>Nothing is left behind\<close>

fun makes_temp :: "action \<Rightarrow> bool" where
  "makes_temp (MkdirTemp pattern) = True"
| "makes_temp a = False"

fun removes_all :: "action \<Rightarrow> bool" where
  "removes_all (RemoveAll p) = True"
| "removes_all a = False"

abbreviation harmless :: "action \<Rightarrow> bool" where
  "harmless a \<equiv> \<not> makes_temp a \<and> \<not> removes_all a"

lemma does_checks:
  "does harmless (check_module sh repo)" "does harmless (check_origin uni sh repo urls)"
  "does harmless (check_reachable sh repo urls)" "does harmless (smoke_consumer sh repo smoke)"
proof -
  show "does harmless (check_module sh repo)"
    unfolding check_module_def Let_def by (intro does_intros) (auto intro: does_intros split: option.split)
  show "does harmless (check_origin uni sh repo urls)"
    unfolding check_origin_def Let_def by (intro does_intros) simp_all
  show "does harmless (check_reachable sh repo urls)"
    by (induction urls) (auto intro!: does_intros)
  show "does harmless (smoke_consumer sh repo smoke)"
    unfolding smoke_consumer_def build_server_smoke_def build_wasm_smoke_def Let_def
    by (intro does_intros) simp_all
qed

lemma harmless_split:
  assumes "list_all harmless k"
  shows "dropWhile (\<lambda>a. \<not> makes_temp a) (k @ t) = dropWhile (\<lambda>a. \<not> makes_temp a) t"
    and "takeWhile (\<lambda>a. \<not> makes_temp a) (k @ t) = k @ takeWhile (\<lambda>a. \<not> makes_temp a) t"
    and "filter removes_all (k @ t) = filter removes_all t"
    and "filter makes_temp (k @ t) = filter makes_temp t"
  using assms by (induction k) auto

definition cleaned_up :: "shell \<Rightarrow> history \<Rightarrow> bool" where
  "cleaned_up sh h \<longleftrightarrow>
     (case dropWhile (\<lambda>a. \<not> makes_temp a) h of
        [] \<Rightarrow> filter removes_all h = []
      | t # later \<Rightarrow>
          (let made = sh_answer sh (takeWhile (\<lambda>a. \<not> makes_temp a) h) t
           in if rp_ok made
              then filter removes_all h = [RemoveAll (Path (rp_out made) [])] \<and>
                   later \<noteq> [] \<and> last later = RemoveAll (Path (rp_out made) []) \<and> filter makes_temp later = []
              else later = [] \<and> filter removes_all h = []))"

lemma cleaned_up_none:
  assumes "list_all harmless k"
  shows "cleaned_up sh k"
proof -
  have none: "dropWhile (\<lambda>a. \<not> makes_temp a) k = []" "filter removes_all k = []"
    using harmless_split(1,3) [OF assms, of "[]"] by (simp_all only: append_Nil2 dropWhile.simps filter.simps)
  then show ?thesis by (simp only: cleaned_up_def none list.case)
qed

text \<open>
  C40. The check leaves no temporary directory behind: whatever fails, if the directory was created then
  it is removed, once, and that is the last thing done; otherwise nothing is removed.
\<close>

theorem publish_check_cleans_up:
  assumes "run_state (handleRunnerCanonicalPublishCheck uni sh repo) [] = (r, h)"
  shows "cleaned_up sh h"
proof -
  let ?make = "MkdirTemp ''gogrpcbridge-publish-smoke-*''"
  let ?before = "attempt (check_module sh repo) (\<lambda>_. attempt (check_origin uni sh repo buildRunnerCanonicalRepositoryURLs)
      (\<lambda>_. check_reachable sh repo buildRunnerCanonicalRepositoryURLs))"
  let ?rest = "attempt (demand sh ?make (FileFailed ''mkdir'' repo)) (\<lambda>name.
      finally_do (smoke_consumer sh repo (Path name [])) (ignoring sh (RemoveAll (Path name []))))"
  have before: "does harmless ?before" by (intro does_intros does_checks)
  have assoc: "attempt (attempt m k) l = attempt m (\<lambda>x. attempt (k x) l)" for m k l
    by (rule state_ext, rule prod_eqI) (auto simp: attempt_def fail_with_def split: prod.splits sum.splits)
  have "handleRunnerCanonicalPublishCheck uni sh repo = attempt ?before (\<lambda>_. ?rest)"
    by (simp add: handleRunnerCanonicalPublishCheck_def Let_def assoc)
  with assms have "run_state (attempt ?before (\<lambda>_. ?rest)) [] = (r, h)" by simp
  then consider (stopped) e where "run_state ?before [] = (Inl e, h)"
    | (going) h1 where "run_state ?before [] = (Inr (), h1)" "run_state ?rest h1 = (r, h)"
    unfolding run_attempt by auto
  then show ?thesis
  proof cases
    case stopped
    from doesD [OF before this] show ?thesis by (auto intro: cleaned_up_none)
  next
    case going
    from doesD [OF before going(1)] have k: "list_all harmless h1" by auto
    show ?thesis
    proof (cases "rp_ok (sh_answer sh h1 ?make)")
      case False
      with going(2) have "h = h1 @ [?make]"
        by (auto simp: run_attempt demand_def perform_def)
      with False harmless_split [OF k] show ?thesis by (simp add: cleaned_up_def)
    next
      case True
      let ?dir = "Path (rp_out (sh_answer sh h1 ?make)) []"
      obtain r2 h2 where smoke: "run_state (smoke_consumer sh repo ?dir) (h1 @ [?make]) = (r2, h2)" by fastforce
      from doesD [OF does_checks(4) smoke] obtain k2 where k2: "h2 = (h1 @ [?make]) @ k2" "list_all harmless k2" by blast
      from True going(2) smoke have "h = h2 @ [RemoveAll ?dir]"
        by (auto simp: run_attempt demand_def perform_def finally_do_def ignoring_def succeed_def)
      then have h: "h = h1 @ (?make # (k2 @ [RemoveAll ?dir]))" using k2(1) by simp
      show ?thesis
        unfolding h cleaned_up_def harmless_split [OF k] using True harmless_split(3,4) [OF k2(2)]
        by (simp add: Let_def)
    qed
  qed
qed

theorem publish_check_cleans_up_witness:
  "cleaned_up \<lparr>sh_environ = [], sh_goos = [], sh_goarch = [], sh_answer = (\<lambda>_ _. Not_Exist)\<rparr>
     (snd (run_state (handleRunnerCanonicalPublishCheck id
       \<lparr>sh_environ = [], sh_goos = [], sh_goarch = [], sh_answer = (\<lambda>_ _. Not_Exist)\<rparr> (Path [] [])) []))"
  by (rule publish_check_cleans_up [OF prod.collapse [symmetric]])

end
