(* ===== verification/Runner_Main.thy ===== *)
theory Runner_Main
  imports Runner_Quality Runner_Publish
begin

text \<open>
  The task runner (\<open>tools/runner.go\<close>) as a whole: the table of commands, the help, and the dispatch
  of \<open>main\<close>. \<open>caller\<close> is the path of the runner's own source, when the runtime knows it.
\<close>

section \<open>The commands\<close>

text \<open>What the handlers need of the libraries and the clock.\<close>

record runner_libs =
  rl_uni :: "string \<Rightarrow> string"
  rl_parse_float :: "string \<Rightarrow> float64 option"
  rl_encode_summary :: "storeRunnerQualitySummaryPayload \<Rightarrow> string option"
  rl_encode_snapshot :: "storeRunnerBenchmarkSnapshot \<Rightarrow> string option"
  rl_decode_snapshot :: "string \<Rightarrow> storeRunnerBenchmarkSnapshot option"
  rl_encode_trend :: "storeRunnerBenchmarkTrendSummary \<Rightarrow> string option"
  rl_now :: string

definition buildRunnerCommands ::
    "runner_libs \<Rightarrow> shell \<Rightarrow> path \<Rightarrow> (string \<times> unit run \<times> string) list" where
  "buildRunnerCommands lib sh repo =
     [(''test'', handleRunnerTest sh repo, ''Run all package tests with race and coverage''),
      (''test-short'', handleRunnerTestShort sh repo, ''Run package tests without race detector''),
      (''fmt'', formatRunnerCode sh repo, ''Format Go source with gofmt and goimports''),
      (''lint'', handleRunnerLint sh repo, ''Run golangci-lint''),
      (''lint-fix'', applyRunnerLintFix sh repo, ''Run golangci-lint with auto-fix''),
      (''check'', handleRunnerCheck sh repo, ''Run fmt, lint, and test-short''),
      (''pre-commit'', handleRunnerPreCommit sh repo, ''Run check and print pre-commit status''),
      (''install-hooks'', applyRunnerInstallHooks sh repo,
       ''Mark .git/hooks/pre-commit executable on non-Windows systems''),
      (''fuzz'', handleRunnerFuzz sh repo, ''Run bridge fuzz tests for 60s each''),
      (''fuzz-quick'', handleRunnerFuzzQuick sh repo, ''Run bridge fuzz tests for 5s each''),
      (''e2e'', handleRunnerE2E sh repo, ''Run end-to-end tests''),
      (''build'', buildRunnerExamples sh repo, ''Build example binaries and WASM example''),
      (''quality'',
       handleRunnerQuality (rl_uni lib) (rl_parse_float lib) (rl_encode_summary lib) (rl_now lib) sh repo,
       ''Run enforceable quality gates (lint, tests, coverage, benchmarks)''),
      (''quality-baseline'',
       storeRunnerQualityBaseline (rl_parse_float lib) (rl_encode_snapshot lib) (rl_now lib) sh repo,
       ''Capture benchmark baseline snapshot for quality gates''),
      (''quality-trend'',
       handleRunnerQualityTrend (rl_parse_float lib) (rl_decode_snapshot lib) (rl_encode_trend lib) (rl_now lib) sh repo,
       ''Compare benchmark output against quality baseline and store trend summary''),
      (''canonical-publish-check'', handleRunnerCanonicalPublishCheck (rl_uni lib) sh repo,
       ''Verify canonical module/repository identity and clean-consumer go-get smoke''),
      (''clean'', clearRunnerArtifacts sh repo, ''Clean caches and build artifacts'')]"

fun print_lines :: "shell \<Rightarrow> string list \<Rightarrow> unit run" where
  "print_lines sh [] = succeed ()"
| "print_lines sh (l # ls) = attempt (ignoring sh (Print l)) (\<lambda>_. print_lines sh ls)"

text \<open>The verb \<open>%-15s\<close>.\<close>

definition pad15 :: "string \<Rightarrow> string" where
  "pad15 s = s @ replicate (15 - length s) CHR '' ''"

definition help_lines :: "(string \<times> unit run \<times> string) list \<Rightarrow> string list" where
  "help_lines cmds =
     [''Usage: go run ./tools/runner.go <command>'', [], ''Available commands:''] @
     map (\<lambda>n. ''  '' @ pad15 n @ '' '' @ (case map_of cmds n of None \<Rightarrow> [] | Some (_, d) \<Rightarrow> d))
       (sort (map fst cmds))"

definition renderRunnerHelp :: "shell \<Rightarrow> (string \<times> unit run \<times> string) list \<Rightarrow> unit run" where
  "renderRunnerHelp sh cmds = print_lines sh (help_lines cmds)"

section \<open>Dispatch\<close>

text \<open>The repository is the parent of the directory of the runner's source, and holds a \<open>go.mod\<close>.\<close>

definition getRunnerRootPath :: "shell \<Rightarrow> path option \<Rightarrow> path run" where
  "getRunnerRootPath sh caller =
     (case caller of
        None \<Rightarrow> fail_with RootNotFound
      | Some repo \<Rightarrow>
          attempt (demand sh (Stat (filepath_Join repo [''go.mod''])) (RootInvalid repo)) (\<lambda>_. succeed repo))"

definition asks_help :: "string list \<Rightarrow> bool" where
  "asks_help args \<longleftrightarrow> (case args of [] \<Rightarrow> True | a # _ \<Rightarrow> a = ''help'' \<or> a = ''-h'' \<or> a = ''--help'')"

definition handleRunnerMain :: "runner_libs \<Rightarrow> shell \<Rightarrow> path option \<Rightarrow> string list \<Rightarrow> unit run" where
  "handleRunnerMain lib sh caller args =
     attempt (getRunnerRootPath sh caller) (\<lambda>repo.
     (let cmds = buildRunnerCommands lib sh repo
      in if asks_help args then renderRunnerHelp sh cmds
         else
           (case map_of cmds (hd args) of
              None \<Rightarrow> attempt (renderRunnerHelp sh cmds) (\<lambda>_. fail_with (UnknownCommand (hd args)))
            | Some (handler, _) \<Rightarrow> handler)))"

section \<open>What the dispatch does\<close>

lemma print_lines_run: "run_state (print_lines sh ls) h = (Inr (), h @ map Print ls)"
  by (induction ls arbitrary: h) (simp_all add: attempt_def ignoring_def perform_def succeed_def)

text \<open>
  Every run of the runner starts by finding the repository, and then does exactly one of three
  things: print the help and nothing else; print the help and report the unknown command; or run the
  handler of the command, whose result is the result. The commands are distinct and each is listed
  in the help.
\<close>

theorem runner_dispatch:
  fixes lib sh repo args
  defines "cmds \<equiv> buildRunnerCommands lib sh repo"
  shows "(let stat = Stat (filepath_Join repo [''go.mod'']); out = run_state (handleRunnerMain lib sh (Some repo) args) []
      in if \<not> rp_ok (sh_answer sh [] stat) then out = (Inl (RootInvalid repo), [stat])
         else if asks_help args then out = (Inr (), stat # map Print (help_lines cmds))
         else case map_of cmds (hd args) of
           None \<Rightarrow> out = (Inl (UnknownCommand (hd args)), stat # map Print (help_lines cmds))
         | Some (handler, _) \<Rightarrow> out = run_state handler [stat]) \<and>
    distinct (map fst cmds) \<and> length (help_lines cmds) = 3 + length cmds"
proof -
  let ?stat = "Stat (filepath_Join repo [''go.mod''])"
  have "distinct (map fst cmds)" by (simp add: cmds_def buildRunnerCommands_def)
  moreover have "length (help_lines cmds) = 3 + length cmds" by (simp add: help_lines_def)
  moreover have "(let out = run_state (handleRunnerMain lib sh (Some repo) args) []
      in if \<not> rp_ok (sh_answer sh [] ?stat) then out = (Inl (RootInvalid repo), [?stat])
         else if asks_help args then out = (Inr (), ?stat # map Print (help_lines cmds))
         else case map_of cmds (hd args) of
           None \<Rightarrow> out = (Inl (UnknownCommand (hd args)), ?stat # map Print (help_lines cmds))
         | Some (handler, _) \<Rightarrow> out = run_state handler [?stat])"
    unfolding handleRunnerMain_def cmds_def [symmetric]
    by (auto simp: getRunnerRootPath_def attempt_def demand_def perform_def succeed_def fail_with_def
        renderRunnerHelp_def print_lines_run Let_def cmds_def [symmetric] split: option.splits)
  ultimately show ?thesis by simp
qed

end
