(* ===== verification/Native_Session.thy ===== *)
theory Native_Session
  imports Bridge_Instance
begin

text \<open>
  The native transport as a whole: upgrade handlers, abuse guard, listener, the accept loop and the
  transport of \<open>grpc.Server.Serve\<close>, the lifetime timers and a stop of the server, in any
  interleaving (\<open>BuildBridgeHandler\<close> in \<open>pkg/grpctunnel/server.go\<close> with
  \<open>pkg/grpctunnel/server_native.go\<close>). A handler takes its next event only when the listener and its
  session let it.
\<close>

section \<open>The trace of a native session\<close>

definition session_reaches :: "BridgeConfig \<Rightarrow> bridge_env \<Rightarrow> http_request \<Rightarrow> bool" where
  "session_reaches cfg env r \<longleftrightarrow>
     reaches_hooks cfg env r \<and> \<not> (OnConnect cfg \<noteq> None \<and> env_connect_panics env)"

definition reserve_front :: "BridgeConfig \<Rightarrow> h_event list" where
  "reserve_front cfg = RequestSpanStart # (if Authorize cfg = None then [] else [AuthorizeCalled])"

definition session_front :: "BridgeConfig \<Rightarrow> h_event list" where
  "session_front cfg =
     reserve_front cfg @
     [ReserveSlot None, UpgradeTried True, MetricSuccess, MetricDelta 1, SessionSpanStart,
      LogEvent ''INFO'' ''ws_upgrade_succeeded'', SettingsApplied True] @ connect_calls cfg"

text \<open>A request that gets to its session, in either mode.\<close>

lemma session_trace:
  assumes "session_reaches cfg env r"
  shows "bridgeHandler cfg env r = session_front cfg @ run_connected cfg env r @
    [StopKeepaliveCalled, WsClose, SessionSpanEnd, MetricDelta (- 1), ReleaseSlot, RequestSpanEnd]"
  using assms
  by (auto simp: session_reaches_def reaches_hooks_def bridgeHandler_def run_authorized_def run_upgraded_def
      Let_def deferring_def session_front_def reserve_front_def connect_calls_def split: option.splits)

definition deliver_front :: "BridgeConfig \<Rightarrow> h_event list" where
  "deliver_front cfg =
     session_front cfg @ [LogEvent ''INFO'' ''tunnel_connect''] @
     (if SessionMaxLifetime cfg > 0 then [LifetimeTimerStart (SessionMaxLifetime cfg)] else [])"

definition session_back :: "BridgeConfig \<Rightarrow> bridge_env \<Rightarrow> h_event list" where
  "session_back cfg env =
     (if SessionMaxLifetime cfg > 0 then [LifetimeTimerStop] else []) @
     [ConnClose, LogEvent ''INFO'' ''tunnel_disconnect''] @ disconnect_calls cfg @
     (if OnDisconnect cfg \<noteq> None \<and> env_disconnect_panics env then [Panicked] else []) @
     [StopKeepaliveCalled, WsClose, SessionSpanEnd, MetricDelta (- 1), ReleaseSlot, RequestSpanEnd]"

fun hands_over :: "h_event \<Rightarrow> bool" where
  "hands_over (Delivered ok) = True"
| "hands_over SessionAwaited = True"
| "hands_over _ = False"

lemma native_trace:
  assumes "ShouldUseNativeGRPCTransport cfg" and "\<not> env_lifetime_fires env" and "session_reaches cfg env r"
  shows "bridgeHandler cfg env r =
    deliver_front cfg @ Delivered (env_deliver_ok env) #
    (if env_deliver_ok env then [SessionAwaited] else [LogEvent ''WARN'' ''native_serve_unavailable'']) @
    session_back cfg env"
  using assms(1,2)
  by (auto simp: session_trace [OF assms(3)] run_connected_def serve_session_def Let_def deferring_def
      deliver_front_def session_back_def disconnect_calls_def split: option.splits)

lemma not_native_trace:
  "\<not> session_reaches cfg env r \<Longrightarrow> e \<in> set (bridgeHandler cfg env r) \<Longrightarrow> \<not> hands_over e"
  by (auto simp: session_reaches_def reaches_hooks_def bridgeHandler_def run_authorized_def run_upgraded_def
      run_connected_def Let_def deferring_def split: option.splits if_splits)

text \<open>Where the only event of a kind stands in a trace.\<close>

lemma prefix_only:
  assumes "prefix (p @ [x]) (a @ y # b)" and "Q x" and "\<And>e. e \<in> set a \<union> set b \<Longrightarrow> \<not> Q e"
  shows "p = a \<and> x = y"
  using assms
  by (auto simp: prefix_def append_eq_append_conv2 Cons_eq_append_conv append_eq_Cons_conv)

lemma prefix_between:
  assumes "prefix p (a @ x # y # b)" and "x \<in> set p" and "y \<notin> set p" and "x \<notin> set a"
  shows "p = a @ [x]"
  using assms
  by (auto simp: prefix_def append_eq_append_conv2 Cons_eq_append_conv append_eq_Cons_conv)

lemma front_events:
  "e \<in> set (deliver_front cfg) \<Longrightarrow> \<not> hands_over e"
  "e \<in> set (session_back cfg env) \<Longrightarrow> \<not> hands_over e"
  by (auto simp: deliver_front_def session_front_def reserve_front_def session_back_def connect_calls_def
      disconnect_calls_def split: if_splits option.splits)

text \<open>What a handler does once its session is over.\<close>

fun session_end :: "h_event \<Rightarrow> bool" where
  "session_end (OnDisconnectCalled h) = True"
| "session_end (MetricDelta d) = (d = - 1)"
| "session_end (LogEvent l e) = (e = ''tunnel_disconnect'')"
| "session_end e = (e \<in> {ConnClose, WsClose, StopKeepaliveCalled, LifetimeTimerStop, SessionSpanEnd,
     ReleaseSlot, RequestSpanEnd})"

lemma deliver_front_live:
  "slot_events (deliver_front cfg) = [ReserveSlot None]" "e \<in> set (deliver_front cfg) \<Longrightarrow> \<not> session_end e"
  by (auto simp: deliver_front_def session_front_def reserve_front_def connect_calls_def split: if_splits option.splits)

lemma reserve_any:
  assumes "prefix (p @ [ReserveSlot v]) (bridgeHandler cfg env r)"
  shows "prefix (p @ [ReserveSlot v']) (bridgeHandler cfg (env\<lparr>env_reserve := v'\<rparr>) r)"
proof -
  have "ReserveSlot v \<in> set (bridgeHandler cfg env r)"
    using assms by (auto dest: set_mono_prefix)
  then have eq: "bridgeHandler cfg (env\<lparr>env_reserve := w\<rparr>) r =
      reserve_front cfg @ run_authorized cfg (env\<lparr>env_reserve := w\<rparr>) r @ [RequestSpanEnd]" for w
    by (auto simp: bridgeHandler_def reserve_front_def deferring_def split: option.splits if_splits)
  have shape: "\<exists>rest. run_authorized cfg (env\<lparr>env_reserve := w\<rparr>) r = ReserveSlot w # rest \<and>
      (\<forall>u. ReserveSlot u \<notin> set rest)" for w
  proof -
    obtain rest where run: "run_authorized cfg (env\<lparr>env_reserve := w\<rparr>) r = ReserveSlot w # rest"
      by (simp add: run_authorized_def)
    from slots_authorized [of cfg "env\<lparr>env_reserve := w\<rparr>" r] run
    have "ReserveSlot u \<notin> set (slot_events rest)" for u by (auto split: option.splits)
    then have "ReserveSlot u \<notin> set rest" for u by (auto simp: slot_events_def)
    with run show ?thesis by blast
  qed
  from shape [of "env_reserve env"] obtain rest where rest: "run_authorized cfg env r = ReserveSlot (env_reserve env) # rest"
    "\<forall>u. ReserveSlot u \<notin> set rest" by auto
  have "p = reserve_front cfg"
    using prefix_only [where Q = "\<lambda>e. \<exists>u. e = ReserveSlot u", of p "ReserveSlot v" "reserve_front cfg"
        "ReserveSlot (env_reserve env)" "rest @ [RequestSpanEnd]"] assms eq [of "env_reserve env"] rest
    by (auto simp: reserve_front_def split: if_splits)
  with eq [of v'] shape [of v'] show ?thesis by auto
qed

lemma deliver_point:
  assumes "ShouldUseNativeGRPCTransport cfg" and "\<not> env_lifetime_fires env"
    and "prefix (p @ [Delivered v]) (bridgeHandler cfg env r)"
  shows "session_reaches cfg env r" and "p = deliver_front cfg"
proof -
  have "Delivered v \<in> set (bridgeHandler cfg env r)" using assms(3) by (auto dest: set_mono_prefix)
  with not_native_trace [of cfg env r "Delivered v"] show reach: "session_reaches cfg env r" by auto
  have only: "Delivered b \<notin> set (session_back cfg env)" "Delivered b \<notin> set (deliver_front cfg)" for b
    using front_events [of "Delivered b" cfg] by auto
  show "p = deliver_front cfg"
    by (rule prefix_only [where Q = "\<lambda>e. \<exists>b. e = Delivered b",
          OF assms(3) [unfolded native_trace [OF assms(1,2) reach]], THEN conjunct1])
       (use only in \<open>auto split: if_splits\<close>)
qed

lemma deliver_any:
  assumes "ShouldUseNativeGRPCTransport cfg" and "\<not> env_lifetime_fires env"
    and "prefix (p @ [Delivered v]) (bridgeHandler cfg env r)"
  shows "prefix (p @ [Delivered v']) (bridgeHandler cfg (env\<lparr>env_deliver_ok := v'\<rparr>) r)"
proof -
  note point = deliver_point [OF assms]
  from point(1) have "session_reaches cfg (env\<lparr>env_deliver_ok := v'\<rparr>) r"
    by (auto simp: session_reaches_def reaches_hooks_def settings_ok_def split: option.splits)
  from native_trace [OF assms(1) _ this] assms(2) point(2) show ?thesis by simp
qed

lemma await_point:
  assumes "ShouldUseNativeGRPCTransport cfg" and "\<not> env_lifetime_fires env"
    and "prefix p (bridgeHandler cfg env r)" and "Delivered True \<in> set p \<or> prefix (p @ [SessionAwaited]) (bridgeHandler cfg env r)"
    and "SessionAwaited \<notin> set p"
  shows "p = deliver_front cfg @ [Delivered True]"
proof -
  from assms(3,4) have "Delivered True \<in> set (bridgeHandler cfg env r) \<or> SessionAwaited \<in> set (bridgeHandler cfg env r)"
    by (auto dest: set_mono_prefix)
  with not_native_trace [of cfg env r] have reach: "session_reaches cfg env r" by fastforce
  note shape = native_trace [OF assms(1,2) this]
  have only: "hands_over e \<Longrightarrow> e \<notin> set (session_back cfg env)" "hands_over e \<Longrightarrow> e \<notin> set (deliver_front cfg)" for e
    using front_events [of e cfg] by auto
  have ok: "env_deliver_ok env"
  proof (rule ccontr)
    assume no: "\<not> env_deliver_ok env"
    from assms(3,4) have "Delivered True \<in> set (bridgeHandler cfg env r) \<or> SessionAwaited \<in> set (bridgeHandler cfg env r)"
      by (auto dest: set_mono_prefix)
    with no shape only [of "Delivered True"] only [of SessionAwaited] show False by auto
  qed
  with shape have tr: "bridgeHandler cfg env r = deliver_front cfg @ Delivered True # SessionAwaited # session_back cfg env"
    by simp
  show ?thesis
  proof (cases "Delivered True \<in> set p")
    case True
    with prefix_between [OF assms(3) [unfolded tr] _ assms(5)] only [of "Delivered True"] show ?thesis by auto
  next
    case False
    with assms(4) tr have "prefix (p @ [SessionAwaited]) ((deliver_front cfg @ [Delivered True]) @ SessionAwaited # session_back cfg env)"
      by simp
    from prefix_only [where Q = "\<lambda>e. e = SessionAwaited", OF this] only [of SessionAwaited] show ?thesis by auto
  qed
qed

section \<open>The world of a native server\<close>

text \<open>
  The guard and the listener of one bridge instance, whether the accept loop runs, the connection of
  every handler with its session wrapper, the handlers whose session the server accepted, and the
  events of the handlers so far.
\<close>

record 'w native_world =
  nw_guard :: "bridgeAbuseGuard option"
  nw_listener :: bridgeConnListener
  nw_serving :: bool
  nw_session :: "nat \<Rightarrow> 'w notifyCloseConn"
  nw_accepted :: "nat list"
  nw_log :: "(nat \<times> h_event) list"

definition native_start :: "bridgeAbuseGuard option \<Rightarrow> bridgeConnListener \<Rightarrow> (nat \<Rightarrow> 'w) \<Rightarrow> 'w native_world" where
  "native_start g l ws =
     \<lparr>nw_guard = g, nw_listener = l, nw_serving = True,
      nw_session = (\<lambda>i. newNotifyCloseConn (newWebSocketConn (Some (ws i)))), nw_accepted = [], nw_log = []\<rparr>"

text \<open>The lifetime timer and the deferred call close the connection, not its session wrapper.\<close>

definition close_inner :: "('w \<Rightarrow> 'e option) \<Rightarrow> nat \<Rightarrow> 'w native_world \<Rightarrow> 'w native_world" where
  "close_inner ws_close i s =
     (let c = nw_session s i
      in s\<lparr>nw_session := (nw_session s)(i := c\<lparr>nc_Conn := fst (webSocketConn_Close ws_close (nc_Conn c))\<rparr>)\<rparr>)"

text \<open>
  What an event of handler \<open>i\<close> needs of listener and session, and does to them; \<open>None\<close> where the
  handler has to wait or the event cannot be.
\<close>

fun session_effect :: "('w \<Rightarrow> 'e option) \<Rightarrow> nat \<Rightarrow> h_event \<Rightarrow> 'w native_world \<Rightarrow> 'w native_world option" where
  "session_effect ws_close i (Delivered taken) s =
     (if taken
      then if nw_serving s \<and> True \<in> deliver (nw_listener s) True \<and> Inr i \<in> Accept (nw_listener s) (Some i)
           then Some (s\<lparr>nw_accepted := nw_accepted s @ [i]\<rparr>) else None
      else if False \<in> deliver (nw_listener s) (nw_serving s) then Some s else None)"
| "session_effect ws_close i SessionAwaited s = (if nc_done (nw_session s i) then Some s else None)"
| "session_effect ws_close i ConnClose s = Some (close_inner ws_close i s)"
| "session_effect ws_close i e s = Some s"

lemma session_effect_keeps:
  "session_effect ws_close i e s = Some s' \<Longrightarrow>
   nw_guard s' = nw_guard s \<and> nw_listener s' = nw_listener s \<and> nw_serving s' = nw_serving s \<and>
   nw_log s' = nw_log s \<and> (nw_accepted s' = (if e = Delivered True then nw_accepted s @ [i] else nw_accepted s)) \<and>
   (nw_session s' = nw_session s \<or> s' = close_inner ws_close i s)"
  by (induction ws_close i e s rule: session_effect.induct) (auto simp: close_inner_def Let_def split: if_splits)

text \<open>
  One step of the world. The timer runs in its own goroutine from its start on, so the traces of the
  handlers are those in which it does not fire; the line it logs is left out. gRPC may close a session it accepted at any time,
  more than once; \<open>grpc.Server.Stop\<close> closes the listener; the accept loop ends on its error.
\<close>

inductive native_step ::
    "BridgeConfig \<Rightarrow> (nat \<Rightarrow> http_request option) \<Rightarrow> ('w \<Rightarrow> 'e option) \<Rightarrow>
     'w native_world \<Rightarrow> 'w native_world \<Rightarrow> bool"
  for cfg req ws_close where
  handler_event: "\<not> env_lifetime_fires env \<Longrightarrow>
     prefix (events_of i (nw_log s) @ [e]) (bridge_trace cfg (req i) env) \<Longrightarrow>
     guard_effect reserveBridgeConnection clearBridgeConnection (req i) e (nw_guard s) g \<Longrightarrow>
     session_effect ws_close i e s = Some s' \<Longrightarrow>
     native_step cfg req ws_close s (s'\<lparr>nw_guard := g, nw_log := nw_log s @ [(i, e)]\<rparr>)"
| timer_fires: "LifetimeTimerStart d \<in> set (events_of i (nw_log s)) \<Longrightarrow>
     native_step cfg req ws_close s (close_inner ws_close i s)"
| grpc_closes: "i \<in> set (nw_accepted s) \<Longrightarrow> notify_Close ws_close (nw_session s i) = Some (c, err) \<Longrightarrow>
     native_step cfg req ws_close s (s\<lparr>nw_session := (nw_session s)(i := c)\<rparr>)"
| server_stops: "listener_Close (nw_listener s) = Some l \<Longrightarrow>
     native_step cfg req ws_close s (s\<lparr>nw_listener := l\<rparr>)"
| serve_returns: "Inl NetErrClosed \<in> Accept (nw_listener s) (None :: nat option) \<Longrightarrow>
     native_step cfg req ws_close s (s\<lparr>nw_serving := False\<rparr>)"

definition native_reach ::
    "BridgeConfig \<Rightarrow> (nat \<Rightarrow> http_request option) \<Rightarrow> ('w \<Rightarrow> 'e option) \<Rightarrow>
     'w native_world \<Rightarrow> 'w native_world \<Rightarrow> bool" where
  "native_reach cfg req ws_close = (native_step cfg req ws_close)\<^sup>*\<^sup>*"

section \<open>The invariant\<close>

definition conn_ok :: "'w notifyCloseConn \<Rightarrow> bool" where
  "conn_ok c \<longleftrightarrow>
     nc_once c = nc_done c \<and> wc_isClosed (nc_Conn c) = wc_closeOnce (nc_Conn c) \<and>
     wc_closes (nc_Conn c) = (if wc_closeOnce (nc_Conn c) then 1 else 0) \<and> wc_ws (nc_Conn c) \<noteq> None \<and>
     (nc_done c \<longrightarrow> wc_isClosed (nc_Conn c))"

lemma conn_ok_close:
  "conn_ok c \<Longrightarrow> conn_ok (c\<lparr>nc_Conn := fst (webSocketConn_Close ws_close (nc_Conn c))\<rparr>)"
  by (auto simp: conn_ok_def webSocketConn_Close_def Let_def)

lemma conn_ok_notify:
  assumes "conn_ok c"
  obtains c' err where "notify_Close ws_close c = Some (c', err)" "conn_ok c'" "nc_done c'"
  using assms
  by (cases "nc_done c") (auto simp: conn_ok_def notify_Close_def close_channel_def webSocketConn_Close_def Let_def)

text \<open>One handler: its request, its connection, whether its session was accepted, its events.\<close>

definition handler_ok ::
    "BridgeConfig \<Rightarrow> http_request option \<Rightarrow> 'w notifyCloseConn \<Rightarrow> bool \<Rightarrow> bool \<Rightarrow> h_event list \<Rightarrow> bool" where
  "handler_ok cfg r c closed accepted evs \<longleftrightarrow>
     conn_ok c \<and>
     (\<exists>env. \<not> env_lifetime_fires env \<and> prefix evs (bridge_trace cfg r env)) \<and>
     (accepted \<longleftrightarrow> Delivered True \<in> set evs) \<and>
     (nc_done c \<longrightarrow> accepted) \<and>
     (SessionAwaited \<in> set evs \<longrightarrow> nc_done c) \<and>
     (ConnClose \<in> set evs \<longrightarrow> wc_isClosed (nc_Conn c)) \<and>
     (Delivered False \<in> set evs \<longrightarrow> closed)"

definition native_ok ::
    "BridgeConfig \<Rightarrow> (nat \<Rightarrow> http_request option) \<Rightarrow> bridgeAbuseGuard option \<Rightarrow> 'w native_world \<Rightarrow> bool" where
  "native_ok cfg req g0 s \<longleftrightarrow>
     handlers_run reserveBridgeConnection clearBridgeConnection (bridge_trace cfg) req g0 (nw_guard s) (nw_log s) \<and>
     distinct (nw_accepted s) \<and>
     (\<forall>i. handler_ok cfg (req i) (nw_session s i) (bl_closed (nw_listener s)) (i \<in> set (nw_accepted s))
        (events_of i (nw_log s))) \<and>
     bl_once (nw_listener s) = bl_closed (nw_listener s) \<and>
     (\<not> nw_serving s \<longrightarrow> bl_closed (nw_listener s))"

lemma native_okD:
  assumes "native_ok cfg req g s"
  shows "handlers_run reserveBridgeConnection clearBridgeConnection (bridge_trace cfg) req g (nw_guard s) (nw_log s)"
    and "distinct (nw_accepted s)"
    and "handler_ok cfg (req i) (nw_session s i) (bl_closed (nw_listener s)) (i \<in> set (nw_accepted s))
      (events_of i (nw_log s))"
  using assms unfolding native_ok_def by blast+

lemma handler_ok_start: "handler_ok cfg r (newNotifyCloseConn (newWebSocketConn (Some w))) closed False []"
  by (auto simp: handler_ok_def conn_ok_def newNotifyCloseConn_def newWebSocketConn_def
      intro: exI [of _ ok_env])

lemma inner_closed: "conn_ok c \<Longrightarrow> wc_isClosed (fst (webSocketConn_Close ws_close (nc_Conn c)))"
  by (auto simp: conn_ok_def webSocketConn_Close_def Let_def split: option.split)

lemma handler_ok_inner:
  assumes "handler_ok cfg r c closed accepted evs"
  shows "handler_ok cfg r (c\<lparr>nc_Conn := fst (webSocketConn_Close ws_close (nc_Conn c))\<rparr>) closed accepted evs"
proof -
  from assms have "conn_ok c" by (simp add: handler_ok_def)
  from conn_ok_close [OF this, of ws_close] inner_closed [OF this, of ws_close] assms show ?thesis
    unfolding handler_ok_def by simp blast
qed

lemma handler_ok_notify:
  assumes "handler_ok cfg r c closed True evs" and "notify_Close ws_close c = Some (c', err)"
  shows "handler_ok cfg r c' closed True evs"
proof -
  from assms(1) have "conn_ok c" by (simp add: handler_ok_def)
  then obtain c'' err' where "notify_Close ws_close c = Some (c'', err')" "conn_ok c''" "nc_done c''"
    by (rule conn_ok_notify)
  with assms show ?thesis by (auto simp: handler_ok_def conn_ok_def)
qed

lemma close_inner_session:
  "nw_session (close_inner ws_close i s) j =
     (if j = i then (nw_session s i)\<lparr>nc_Conn := fst (webSocketConn_Close ws_close (nc_Conn (nw_session s i)))\<rparr>
      else nw_session s j)"
  by (simp add: close_inner_def Let_def)

lemma close_inner_simps [simp]:
  "nw_guard (close_inner ws_close i s) = nw_guard s" "nw_listener (close_inner ws_close i s) = nw_listener s"
  "nw_serving (close_inner ws_close i s) = nw_serving s" "nw_accepted (close_inner ws_close i s) = nw_accepted s"
  "nw_log (close_inner ws_close i s) = nw_log s"
  by (simp_all add: close_inner_def Let_def)

lemma handler_ok_event:
  assumes ok: "handler_ok cfg (req i) (nw_session s i) (bl_closed (nw_listener s)) (i \<in> set (nw_accepted s)) evs"
    and env: "\<not> env_lifetime_fires env" "prefix (evs @ [e]) (bridge_trace cfg (req i) env)"
    and eff: "session_effect ws_close i e s = Some s'"
  shows "handler_ok cfg (req i) (nw_session s' i) (bl_closed (nw_listener s')) (i \<in> set (nw_accepted s')) (evs @ [e])"
proof (cases "e = ConnClose")
  case True
  from ok have "conn_ok (nw_session s i)" by (simp add: handler_ok_def)
  with True eff handler_ok_inner [OF ok, of ws_close] inner_closed [OF this, of ws_close] env show ?thesis
    by (auto simp: handler_ok_def close_inner_session)
next
  case False
  with eff have s': "s' = s \<or> (e = Delivered True \<and> s' = s\<lparr>nw_accepted := nw_accepted s @ [i]\<rparr>)"
    and ev: "e = SessionAwaited \<longrightarrow> nc_done (nw_session s i)" "e = Delivered False \<longrightarrow> bl_closed (nw_listener s)"
      "e = Delivered True \<longrightarrow> i \<in> set (nw_accepted s')"
    by (auto split: if_splits simp: deliver_def elim!: session_effect.elims)
  from ok have "handler_ok cfg (req i) (nw_session s i) (bl_closed (nw_listener s))
      (i \<in> set (nw_accepted s) \<or> e = Delivered True) (evs @ [e])"
    using env ev False by (auto simp: handler_ok_def)
  moreover have "(i \<in> set (nw_accepted s) \<or> e = Delivered True) = (i \<in> set (nw_accepted s'))"
    using s' ev(3) by auto
  moreover have "nw_session s' = nw_session s" "nw_listener s' = nw_listener s" using s' by auto
  ultimately show ?thesis by simp
qed

lemma native_ok_start: "native_ok cfg req g (native_start g newBridgeConnListener ws)"
  by (simp add: native_ok_def native_start_def handler_ok_start run_start newBridgeConnListener_def events_of_def)

lemma native_ok_step:
  assumes "native_step cfg req ws_close s s'" and ok: "native_ok cfg req g0 s" and native: "ShouldUseNativeGRPCTransport cfg"
  shows "native_ok cfg req g0 s'"
  using assms(1)
proof cases
  case (handler_event env i e g s1)
  have h: "handler_ok cfg (req j) (nw_session s j) (bl_closed (nw_listener s)) (j \<in> set (nw_accepted s))
      (events_of j (nw_log s))" for j
    using ok by (simp add: native_ok_def)
  note keeps = session_effect_keeps [OF handler_event(5)]
  from handler_ok_event [where req = req and i = i, OF h handler_event(2,3,5)]
  have this_one: "handler_ok cfg (req i) (nw_session s1 i) (bl_closed (nw_listener s1)) (i \<in> set (nw_accepted s1))
      (events_of i (nw_log s) @ [e])" .
  have others: "handler_ok cfg (req j) (nw_session s1 j) (bl_closed (nw_listener s1)) (j \<in> set (nw_accepted s1))
      (events_of j (nw_log s))" if "j \<noteq> i" for j
    using h [of j] keeps that by (auto simp: close_inner_session)
  have fresh: "i \<notin> set (nw_accepted s)" if "e = Delivered True"
  proof
    assume "i \<in> set (nw_accepted s)"
    with h [of i] have "Delivered True \<in> set (events_of i (nw_log s))" by (simp add: handler_ok_def)
    moreover from handler_event(3) that obtain r where "req i = Some r"
      by (cases "req i") (auto simp: bridge_trace_def)
    with deliver_point(2) [OF native handler_event(2), of "events_of i (nw_log s)" True r] handler_event(3) that
    have "events_of i (nw_log s) = deliver_front cfg" by (simp add: bridge_trace_def)
    ultimately show False using front_events(1) [of "Delivered True" cfg] by auto
  qed
  from ok have "handlers_run reserveBridgeConnection clearBridgeConnection (bridge_trace cfg) req g0 g (nw_log s @ [(i, e)])"
    using handler_event by (auto simp: native_ok_def intro: run_step)
  with handler_event(1) ok this_one others fresh keeps show ?thesis
    by (auto simp: native_ok_def)
next
  case (timer_fires d i)
  with ok show ?thesis
    by (auto simp: native_ok_def close_inner_session intro: handler_ok_inner)
next
  case (grpc_closes i c err)
  from handler_ok_notify [OF _ grpc_closes(3)] native_okD(3) [OF ok, of i] grpc_closes(2)
  have "handler_ok cfg (req i) c (bl_closed (nw_listener s)) True (events_of i (nw_log s))" by simp
  with grpc_closes(1,2) ok show ?thesis by (auto simp: native_ok_def)
next
  case (server_stops l)
  then have "bl_closed (nw_listener s) \<longrightarrow> bl_closed l" "bl_once l = bl_closed l"
    using ok by (auto simp: native_ok_def listener_Close_def close_channel_def split: if_splits)
  with server_stops ok show ?thesis by (auto simp: native_ok_def handler_ok_def)
next
  case serve_returns
  with ok show ?thesis by (auto simp: native_ok_def Accept_def split: if_splits)
qed

lemma native_reach_ok:
  assumes "native_reach cfg req ws_close (native_start g newBridgeConnListener ws) s"
    and "ShouldUseNativeGRPCTransport cfg"
  shows "native_ok cfg req g s"
  using assms(1) unfolding native_reach_def
  by (induction rule: rtranclp_induct) (auto intro: native_ok_start native_ok_step assms(2))

section \<open>Caps on what gRPC serves\<close>

definition served_sessions :: "'w native_world \<Rightarrow> nat list" where
  "served_sessions s = filter (\<lambda>i. \<not> nc_done (nw_session s i)) (nw_accepted s)"

text \<open>While gRPC has a session, its handler stands right after the delivery.\<close>

lemma served_at_front:
  assumes ok: "native_ok cfg req g s" and native: "ShouldUseNativeGRPCTransport cfg"
    and i: "i \<in> set (served_sessions s)"
  shows "events_of i (nw_log s) = deliver_front cfg @ [Delivered True]"
proof -
  from i have acc: "i \<in> set (nw_accepted s)" "\<not> nc_done (nw_session s i)" by (auto simp: served_sessions_def)
  with native_okD(3) [OF ok, of i] obtain env where env: "\<not> env_lifetime_fires env"
      "prefix (events_of i (nw_log s)) (bridge_trace cfg (req i) env)"
    and del: "Delivered True \<in> set (events_of i (nw_log s))" "SessionAwaited \<notin> set (events_of i (nw_log s))"
    by (auto simp: handler_ok_def)
  from env(2) del(1) obtain r where "req i = Some r" by (cases "req i") (auto simp: bridge_trace_def)
  with await_point [OF native env(1), of _ r] env(2) del show ?thesis by (simp add: bridge_trace_def)
qed

lemma served_hold_slots:
  assumes "native_ok cfg req g s" and "ShouldUseNativeGRPCTransport cfg"
  shows "set (served_sessions s) \<subseteq> set (slot_holders (nw_log s) [])" and "distinct (served_sessions s)"
proof -
  have "holds_slot (events_of i (nw_log s))" if "i \<in> set (served_sessions s)" for i
    using served_at_front [OF assms that] by (simp add: holds_slot_def deliver_front_live)
  with bridge_server.holders_hold [OF native_okD(1) [OF assms(1)]]
  show "set (served_sessions s) \<subseteq> set (slot_holders (nw_log s) [])" by auto
  show "distinct (served_sessions s)" using native_okD(2) [OF assms(1)] by (simp add: served_sessions_def)
qed

lemma sessions_of_subset:
  assumes "set xs \<subseteq> set ys" and "distinct xs"
  shows "sessions_of k (map f xs) \<le> sessions_of k (map f ys)"
proof -
  let ?P = "\<lambda>i. slot_key (buildBridgeClientKey (f i)) = k"
  have "card (set (filter ?P xs)) \<le> card (set (filter ?P ys))" using assms(1) by (intro card_mono) auto
  also have "\<dots> \<le> length (filter ?P ys)" by (rule card_length)
  finally show ?thesis
    using distinct_card [of "filter ?P xs"] assms(2) by (simp add: sessions_of_def filter_map comp_def)
qed

lemma length_subset: "set xs \<subseteq> set ys \<Longrightarrow> distinct xs \<Longrightarrow> length xs \<le> length ys"
  by (metis List.finite_set card_length card_mono distinct_card le_trans)

lemma bridge_run_caps:
  assumes "handlers_run reserveBridgeConnection clearBridgeConnection (bridge_trace cfg) req
      (buildBridgeAbuseGuard cfg) g log"
  shows "guard_active g = int (length (slot_holders log []))"
    and "guard_held g k = sessions_of k (map req (slot_holders log []))"
    and "0 < MaxActiveConnections cfg \<Longrightarrow> int (length (slot_holders log [])) \<le> MaxActiveConnections cfg"
    and "0 < MaxConnectionsPerClient cfg \<Longrightarrow>
      sessions_of k (map req (slot_holders log [])) \<le> MaxConnectionsPerClient cfg"
  using bridge_server.concurrent_caps [OF assms] by simp_all

text \<open>The instance of a native server starts in \<open>native_start\<close>.\<close>

lemma native_instance:
  assumes "snd (buildBridgeInstance pools nogrpc cfg) = Inr inst" and "bi_nativeListener inst = Some l"
  shows "ShouldUseNativeGRPCTransport (bi_cfg inst)" "l = newBridgeConnListener"
    "bi_abuseGuard inst = buildBridgeAbuseGuard (bi_cfg inst)"
  using assms by (auto simp: buildBridgeInstance_def Let_def split: if_splits option.splits)

text \<open>
  C2. The caps hold for what gRPC serves, not only for what the handlers count: in every interleaving of
  upgrade handlers, accept loop, gRPC's closes, lifetime timers and a stop of the server, no session
  is served twice, the sessions gRPC has accepted and not closed never exceed a configured cap, in
  total or per client, and as long as gRPC has a session its handler has released neither the slot
  nor the websocket, nor called \<open>OnDisconnect\<close>.
\<close>

theorem native_sessions_within_caps:
  assumes "snd (buildBridgeInstance pools nogrpc cfg) = Inr inst" and "bi_nativeListener inst = Some l"
    and "native_reach (bi_cfg inst) req ws_close (native_start (bi_abuseGuard inst) l ws) s"
  shows "distinct (nw_accepted s) \<and>
    (if 0 < MaxActiveConnections (bi_cfg inst)
     then int (length (served_sessions s)) \<le> MaxActiveConnections (bi_cfg inst) else True) \<and>
    (if 0 < MaxConnectionsPerClient (bi_cfg inst)
     then sessions_of k (map req (served_sessions s)) \<le> MaxConnectionsPerClient (bi_cfg inst) else True) \<and>
    (if i \<in> set (served_sessions s) then \<not> list_ex session_end (events_of i (nw_log s)) else True)"
proof -
  note inst = native_instance [OF assms(1,2)]
  from assms(3) inst have ok: "native_ok (bi_cfg inst) req (buildBridgeAbuseGuard (bi_cfg inst)) s"
    by (auto intro: native_reach_ok)
  note caps = bridge_run_caps(3,4) [OF native_okD(1) [OF ok]]
  note holders = served_hold_slots [OF ok inst(1)]
  have "\<not> list_ex session_end (events_of i (nw_log s))" if "i \<in> set (served_sessions s)"
    using served_at_front [OF ok inst(1) that] deliver_front_live(2) by (auto simp: list_ex_iff)
  with native_okD(2) [OF ok] caps(1) caps(2) [of k] length_subset [OF holders] sessions_of_subset [OF holders, of k req]
  show ?thesis by auto
qed

section \<open>Shutdown\<close>

definition handler_finished ::
    "BridgeConfig \<Rightarrow> (nat \<Rightarrow> http_request option) \<Rightarrow> 'w native_world \<Rightarrow> nat \<Rightarrow> bool" where
  "handler_finished cfg req s i \<longleftrightarrow>
     (\<exists>env. \<not> env_lifetime_fires env \<and> events_of i (nw_log s) = bridge_trace cfg (req i) env)"

lemma trace_lengths:
  assumes "\<not> env_lifetime_fires env"
  shows "length (serve_session cfg env r) \<le> 2" and "length (run_connected cfg env r) \<le> 9"
    and "length (run_upgraded cfg env r) \<le> 19" and "length (bridgeHandler cfg env r) \<le> 25"
proof -
  show session: "length (serve_session cfg env r) \<le> 2"
    using assms by (simp add: serve_session_def Let_def)
  then show connected: "length (run_connected cfg env r) \<le> 9"
    by (simp add: run_connected_def deferring_def split: option.split)
  then show upgraded: "length (run_upgraded cfg env r) \<le> 19"
    by (simp add: run_upgraded_def deferring_def Let_def split: option.split)
  then have "length (run_authorized cfg env r) \<le> 22"
    by (simp add: run_authorized_def deferring_def Let_def split: option.split)
  then show "length (bridgeHandler cfg env r) \<le> 25"
    by (simp add: bridgeHandler_def deferring_def split: option.split)
qed

lemma bridge_trace_Some [simp]: "bridge_trace cfg (Some r) env = bridgeHandler cfg env r"
  by (simp add: bridge_trace_def)

text \<open>Once the accept loop is gone and gRPC has closed its sessions, every handler can go on.\<close>

lemma handler_progress:
  assumes ok: "native_ok cfg req g0 s" and native: "ShouldUseNativeGRPCTransport cfg"
    and down: "\<not> nw_serving s" "served_sessions s = []"
    and unfinished: "\<not> handler_finished cfg req s i"
  shows "\<exists>e s'. native_step cfg req ws_close s s' \<and> nw_log s' = nw_log s @ [(i, e)]"
proof -
  let ?p = "events_of i (nw_log s)"
  have closed: "bl_closed (nw_listener s)" using ok down(1) by (simp add: native_ok_def)
  from native_okD(3) [OF ok, of i] obtain env where env: "\<not> env_lifetime_fires env"
      and pre: "prefix ?p (bridge_trace cfg (req i) env)"
    by (auto simp: handler_ok_def)
  with unfinished have "?p \<noteq> bridge_trace cfg (req i) env" by (auto simp: handler_finished_def)
  with pre obtain r e where r: "req i = Some r" and next_e: "prefix (?p @ [e]) (bridgeHandler cfg env r)"
    by (cases "req i") (auto simp: bridge_trace_def prefix_def neq_Nil_conv)
  note step = native_step.handler_event [where req = req and i = i, unfolded r bridge_trace_Some]
  show ?thesis
  proof (cases e)
    case (ReserveSlot v)
    obtain g v' where "reserveBridgeConnection (nw_guard s) (req i) 0 = (g, v')" by fastforce
    then have "guard_effect reserveBridgeConnection clearBridgeConnection (Some r) (ReserveSlot v') (nw_guard s) g"
      by (auto simp: r intro: effect_reserve)
    from step [OF _ reserve_any [OF next_e [unfolded ReserveSlot]] this] env show ?thesis
      by (fastforce simp: r)
  next
    case ReleaseSlot
    from step [OF env next_e [unfolded ReleaseSlot] effect_release] show ?thesis by fastforce
  next
    case (Delivered v)
    from step [OF _ deliver_any [OF native env next_e [unfolded Delivered], of False] effect_none] env closed
    show ?thesis by (fastforce simp: deliver_def)
  next
    case SessionAwaited
    have "?p = deliver_front cfg @ [Delivered True]" if "SessionAwaited \<notin> set ?p"
      using await_point [OF native env _ _ that] next_e SessionAwaited append_prefixD [OF next_e] by simp
    then have "Delivered True \<in> set ?p \<or> SessionAwaited \<in> set ?p" by fastforce
    with native_okD(3) [OF ok, of i] down(2) have "nc_done (nw_session s i)"
      by (auto simp: handler_ok_def served_sessions_def filter_empty_conv)
    with step [OF env next_e [unfolded SessionAwaited] effect_none] show ?thesis by fastforce
  next
    case ConnClose
    from step [OF env next_e [unfolded ConnClose] effect_none] show ?thesis by fastforce
  qed (use step [OF env next_e effect_none] in fastforce)+
qed

lemma trace_released: "\<not> holds_slot (bridge_trace cfg r env)"
proof (cases r)
  case (Some q)
  with bridge_slot_protocol [of cfg env q] show ?thesis by (auto simp: holds_slot_def slot_protocol_def)
qed (simp add: bridge_trace_def holds_slot_def)

lemma finished_free:
  assumes "native_ok cfg req g s" and "handler_finished cfg req s i \<or> events_of i (nw_log s) = []"
  shows "i \<notin> set (slot_holders (nw_log s) [])"
proof -
  have "\<not> holds_slot (events_of i (nw_log s))"
    using assms(2) trace_released [of cfg "req i"] by (auto simp: handler_finished_def holds_slot_def)
  with bridge_server.holders_hold [OF native_okD(1) [OF assms(1)]] show ?thesis by blast
qed


section \<open>An example\<close>

text \<open>Events of a handler that neither touch the guard nor wait.\<close>

definition quiet_event :: "h_event \<Rightarrow> bool" where
  "quiet_event e \<longleftrightarrow> \<not> slot_event e \<and> \<not> hands_over e \<and> e \<noteq> ConnClose"

lemma quiet_effect: "quiet_event e \<Longrightarrow> session_effect ws_close i e s = Some s"
  by (cases e) (simp_all add: quiet_event_def)

lemma reach_event:
  assumes "native_reach cfg req ws_close s0 s" and "\<not> env_lifetime_fires env"
    and "prefix (events_of i (nw_log s) @ [e]) (bridge_trace cfg (req i) env)"
    and "guard_effect reserveBridgeConnection clearBridgeConnection (req i) e (nw_guard s) g"
    and "session_effect ws_close i e s = Some s'"
  shows "native_reach cfg req ws_close s0 (s'\<lparr>nw_guard := g, nw_log := nw_log s @ [(i, e)]\<rparr>)"
  using assms(1) native_step.handler_event [where req = req and i = i, OF assms(2-5)]
  by (simp add: native_reach_def)

lemma quiet_run:
  assumes "native_reach cfg req ws_close s0 s" and "\<not> env_lifetime_fires env"
  shows "prefix (events_of i (nw_log s) @ es) (bridge_trace cfg (req i) env) \<Longrightarrow> list_all quiet_event es \<Longrightarrow>
    native_reach cfg req ws_close s0 (s\<lparr>nw_log := nw_log s @ map (Pair i) es\<rparr>)"
proof (induction es rule: rev_induct)
  case Nil
  with assms(1) show ?case by simp
next
  case (snoc e es)
  let ?s = "s\<lparr>nw_log := nw_log s @ map (Pair i) es\<rparr>"
  have own: "events_of i (nw_log ?s) = events_of i (nw_log s) @ es"
    by (simp add: events_of_def filter_map comp_def)
  from snoc.prems own have "prefix (events_of i (nw_log ?s) @ [e]) (bridge_trace cfg (req i) env)"
    by simp
  moreover have "native_reach cfg req ws_close s0 ?s"
    using snoc append_prefixD [of "events_of i (nw_log s) @ es" "[e]"] by simp
  ultimately show ?case
    using reach_event [where s = ?s and e = e and env = env, OF _ assms(2) _ effect_none quiet_effect] snoc.prems(2)
    by (simp add: quiet_event_def)
qed

definition native_cfg :: BridgeConfig where
  "native_cfg = applyBridgeKeepaliveDefaults ((capped_config 1 0 0)\<lparr>ShouldUseNativeGRPCTransport := True\<rparr>)"

definition native_inst :: bridge_instance where
  "native_inst = \<lparr>bi_cfg = native_cfg, bi_upgrader = buildUpgrader native_cfg, bi_writeBufferPool = 0,
     bi_abuseGuard = buildBridgeAbuseGuard native_cfg, bi_nativeListener = Some newBridgeConnListener\<rparr>"

lemma native_inst_built:
  "snd (buildBridgeInstance no_pools False ((capped_config 1 0 0)\<lparr>ShouldUseNativeGRPCTransport := True\<rparr>)) =
     Inr native_inst"
  by (simp add: buildBridgeInstance_def native_inst_def native_cfg_def config_defs buildServerOptions_def
      defaultServerOptions_def defaultWebSocketBufferSize_def Let_def buildUpgrader_def no_pools_def
      tunnel_buildWebSocketWriteBufferPool_def tunnel_isCacheableWebSocketWriteBufferSize_def)

text \<open>One client, up to the handover to gRPC.\<close>

abbreviation native_req :: "nat \<Rightarrow> http_request option" where
  "native_req \<equiv> \<lambda>i. client_a"

abbreviation native_ws_close :: "nat \<Rightarrow> string option" where
  "native_ws_close \<equiv> \<lambda>w. None"

definition native_served :: "nat native_world" where
  "native_served =
     (native_start (fst (reserveBridgeConnection (buildBridgeAbuseGuard native_cfg) client_a minute))
        newBridgeConnListener id)
     \<lparr>nw_accepted := [0], nw_log := map (Pair 0) (deliver_front native_cfg @ [Delivered True])\<rparr>"

lemma native_cfg_simps [simp]:
  "ShouldUseNativeGRPCTransport native_cfg" "Authorize native_cfg = None" "OnConnect native_cfg = None"
  "OnDisconnect native_cfg = None" "SessionMaxLifetime native_cfg = 0" "CheckOrigin native_cfg = None"
  "MaxActiveConnections native_cfg = 1" "MaxConnectionsPerClient native_cfg = 0"
  by (simp_all add: native_cfg_def config_defs buildServerOptions_def defaultServerOptions_def)

lemma native_reserved:
  "snd (reserveBridgeConnection (buildBridgeAbuseGuard native_cfg) client_a minute) = None"
  by (simp add: native_cfg_def guard_run)

lemma native_served_reached:
  "native_reach native_cfg native_req native_ws_close
     (native_start (buildBridgeAbuseGuard native_cfg) newBridgeConnListener id) native_served"
proof -
  let ?reach = "native_reach native_cfg native_req native_ws_close
     (native_start (buildBridgeAbuseGuard native_cfg) newBridgeConnListener id)"
  have tr: "bridge_trace native_cfg client_a ok_env =
      deliver_front native_cfg @ [Delivered True, SessionAwaited] @ session_back native_cfg ok_env"
    by (simp add: bridge_trace_def native_trace session_reaches_def reaches_hooks_def settings_ok_def buildUpgrader_def Let_def)
  have "?reach (native_start (buildBridgeAbuseGuard native_cfg) newBridgeConnListener id)"
    by (simp add: native_reach_def)
  from quiet_run [where i = 0 and env = ok_env and es = "[RequestSpanStart]", OF this] tr
  have "?reach ((native_start (buildBridgeAbuseGuard native_cfg) newBridgeConnListener id)
      \<lparr>nw_log := [(0, RequestSpanStart)]\<rparr>)"
    by (simp add: native_start_def events_of_def deliver_front_def session_front_def reserve_front_def quiet_event_def)
  from reach_event [where i = 0 and env = ok_env and e = "ReserveSlot None"
      and g = "fst (reserveBridgeConnection (buildBridgeAbuseGuard native_cfg) client_a minute)", OF this] tr
  have "?reach ((native_start (fst (reserveBridgeConnection (buildBridgeAbuseGuard native_cfg) client_a minute))
      newBridgeConnListener id)\<lparr>nw_log := [(0, RequestSpanStart), (0, ReserveSlot None)]\<rparr>)"
    by (simp add: native_start_def events_of_def deliver_front_def session_front_def reserve_front_def
        effect_reserve [where t = minute] prod_eq_iff native_reserved)
  from quiet_run [where i = 0 and env = ok_env and es = "drop 2 (deliver_front native_cfg)", OF this] tr
  have "?reach ((native_start (fst (reserveBridgeConnection (buildBridgeAbuseGuard native_cfg) client_a minute))
      newBridgeConnListener id)\<lparr>nw_log := map (Pair 0) (deliver_front native_cfg)\<rparr>)"
    by (simp add: native_start_def events_of_def deliver_front_def session_front_def reserve_front_def quiet_event_def
        connect_calls_def)
  from reach_event [where i = 0 and env = ok_env and e = "Delivered True"
      and g = "fst (reserveBridgeConnection (buildBridgeAbuseGuard native_cfg) client_a minute)"
      and s' = "native_served\<lparr>nw_log := map (Pair 0) (deliver_front native_cfg)\<rparr>", OF this] tr
  show ?thesis
    by (simp add: native_start_def native_served_def events_of_def effect_none filter_map comp_def
        deliver_def Accept_def)
qed

lemma native_inst_simps [simp]:
  "bi_cfg native_inst = native_cfg" "bi_abuseGuard native_inst = buildBridgeAbuseGuard native_cfg"
  "bi_nativeListener native_inst = Some newBridgeConnListener"
  by (simp_all add: native_inst_def)

lemma native_served_sessions: "served_sessions native_served = [0]"
  by (simp add: served_sessions_def native_served_def native_start_def newNotifyCloseConn_def)

theorem native_sessions_within_caps_witness:
  "int (length (served_sessions native_served)) \<le> 1 \<and> served_sessions native_served = [0] \<and>
   \<not> list_ex session_end (events_of 0 (nw_log native_served))"
  using native_sessions_within_caps [OF native_inst_built, of newBridgeConnListener native_req native_ws_close id
      native_served "[]" 0] native_served_reached native_served_sessions by simp

text \<open>The server stops, its accept loop returns, and gRPC closes the session.\<close>

definition native_stopped :: "nat native_world" where
  "native_stopped = native_served
     \<lparr>nw_listener := \<lparr>bl_closed = True, bl_once = True\<rparr>, nw_serving := False,
      nw_session := (nw_session native_served)
        (0 := fst (the (notify_Close native_ws_close (nw_session native_served 0))))\<rparr>"

lemma native_stopped_reached:
  "native_reach native_cfg native_req native_ws_close
     (native_start (buildBridgeAbuseGuard native_cfg) newBridgeConnListener id) native_stopped"
proof -
  let ?step = "native_step native_cfg native_req native_ws_close"
  let ?s1 = "native_served\<lparr>nw_listener := \<lparr>bl_closed = True, bl_once = True\<rparr>\<rparr>"
  let ?s2 = "?s1\<lparr>nw_serving := False\<rparr>"
  have "?step native_served ?s1"
    by (rule server_stops) (simp add: native_served_def native_start_def newBridgeConnListener_def
        listener_Close_def close_channel_def)
  moreover have "?step ?s1 ?s2"
    by (rule serve_returns) (simp add: Accept_def)
  moreover have "?step ?s2 native_stopped"
  proof -
    obtain c err where c: "notify_Close native_ws_close (nw_session native_served 0) = Some (c, err)"
      by (simp add: native_served_def native_start_def newNotifyCloseConn_def newWebSocketConn_def
          notify_Close_def webSocketConn_Close_def close_channel_def)
    then have "native_stopped = ?s2\<lparr>nw_session := (nw_session ?s2)(0 := c)\<rparr>"
      by (simp add: native_stopped_def)
    moreover have "?step ?s2 (?s2\<lparr>nw_session := (nw_session ?s2)(0 := c)\<rparr>)"
      by (rule grpc_closes) (use c in \<open>simp_all add: native_served_def native_start_def\<close>)
    ultimately show ?thesis by simp
  qed
  ultimately show ?thesis using native_served_reached by (simp add: native_reach_def)
qed


end
