(* ===== verification/Log_Output.thy ===== *)
theory Log_Output
  imports Native_Session Proxy_Handler Logging
begin

text \<open>
  What the handlers write to the log: the error texts of the guards, the emitting functions and the
  loggers of both packages, and the log of a running tunnel server, whose lines are those of
  \<open>Logging\<close> for the log events of \<open>Bridge_Handler\<close>. Read line by line, it gives back the events of
  all handlers in order, and with them the number of open tunnels.
\<close>

section \<open>Error texts\<close>

text \<open>\<open>fmt\<close>'s \<open>%q\<close> is \<open>strconv.Quote\<close>.\<close>

definition abuseRefusal_Error :: "(nat \<Rightarrow> bool) \<Rightarrow> guard_error \<Rightarrow> string" where
  "abuseRefusal_Error printable e =
     (case e of
        UpgradeRateExceeded k w \<Rightarrow> ''upgrade rate exceeded for client '' @ strconv_Quote printable k
      | ActiveCapExceeded \<Rightarrow> ''active connection cap exceeded''
      | ClientCapExceeded k \<Rightarrow> ''per-client connection cap exceeded for client '' @ strconv_Quote printable k)"

definition parseAbuseRefusal_Error :: "(nat \<Rightarrow> bool) \<Rightarrow> guard_error \<Rightarrow> string" where
  "parseAbuseRefusal_Error printable e =
     (case e of
        UpgradeRateExceeded k w \<Rightarrow> ''upgrade rate exceeded for client '' @ strconv_Quote printable k
      | ActiveCapExceeded \<Rightarrow> ''active connection cap exceeded''
      | ClientCapExceeded k \<Rightarrow> ''per-client connection cap exceeded for client '' @ strconv_Quote printable k)"

section \<open>Emitting a line\<close>

text \<open>
  \<open>log.Printf\<close> of the standard logger: a stamp (date and time, 20 bytes), the message, and a newline
  unless the message ends with one.
\<close>

definition log_Printf :: "string \<Rightarrow> string \<Rightarrow> string" where
  "log_Printf stamp s = stamp @ s @ (if s = [] \<or> last s \<noteq> CHR 0x0A then [CHR 0x0A] else [])"

definition logGrpctunnelEvent ::
    "(nat \<Rightarrow> bool) \<Rightarrow> string \<Rightarrow> string \<Rightarrow> string \<Rightarrow> string \<Rightarrow> http_request option \<Rightarrow> string option \<Rightarrow>
     string \<Rightarrow> string" where
  "logGrpctunnelEvent printable stamp component level event r err msg =
     log_Printf stamp (buildGrpctunnelLogLine printable component level event r err msg)"

text \<open>A logger is its \<open>Printf\<close> on a formatted message; a nil logger is \<open>None\<close>.\<close>

type_synonym bridge_logger = "string \<Rightarrow> string"

definition defaultLogger :: "string \<Rightarrow> bridge_logger" where
  "defaultLogger stamp s = log_Printf stamp s"

definition helper_defaultLogger :: "string \<Rightarrow> bridge_logger" where
  "helper_defaultLogger stamp s = log_Printf stamp s"

definition customLogger :: "string \<Rightarrow> bridge_logger" where
  "customLogger stamp s = log_Printf stamp (''[Bridge] '' @ s)"

definition logBridgeEvent ::
    "(nat \<Rightarrow> bool) \<Rightarrow> bridge_logger option \<Rightarrow> string \<Rightarrow> string \<Rightarrow> http_request option \<Rightarrow> string option \<Rightarrow>
     string \<Rightarrow> string" where
  "logBridgeEvent printable logger level event r err msg =
     (case logger of
        None \<Rightarrow> []
      | Some printf \<Rightarrow> printf (buildBridgeLogLine printable level event r err msg))"

section \<open>Reading a log\<close>

text \<open>The complete lines of a text; \<open>acc\<close> is the line so far.\<close>

fun split_lines :: "string \<Rightarrow> string \<Rightarrow> string list" where
  "split_lines acc [] = []"
| "split_lines acc (c # s) =
     (if c = CHR 0x0A then acc # split_lines [] s else split_lines (acc @ [c]) s)"

lemma split_line: "CHR 0x0A \<notin> set l \<Longrightarrow> split_lines acc (l @ CHR 0x0A # s) = (acc @ l) # split_lines [] s"
  by (induction l arbitrary: acc) auto

lemma clean_no_newline: "clean s \<Longrightarrow> CHR 0x0A \<notin> set s"
  by (auto simp: clean_def)

lemma log_Printf_clean: "clean s \<Longrightarrow> log_Printf stamp s = stamp @ s @ [CHR 0x0A]"
  using clean_no_newline [of s] by (cases s rule: rev_cases) (auto simp: log_Printf_def)

lemma grpctunnel_line_clean: "clean (buildGrpctunnelLogLine printable component level event r err msg)"
  and grpctunnel_line_read: "read_fields 12 (buildGrpctunnelLogLine printable component level event r err msg) =
     Some (map (\<lambda>(k, v). (k, quote_body printable v))
       (kept_fields (grpctunnel_log_fields component level event r err msg)))"
  using log_line_unforgeable by blast+

text \<open>Level and event of a line, behind its stamp.\<close>

definition read_event :: "string \<Rightarrow> (string \<times> string) option" where
  "read_event l =
     (case read_fields 12 (drop 20 l) of
        None \<Rightarrow> None
      | Some fs \<Rightarrow> Some (default_to [] (map_of fs ''level''), default_to [] (map_of fs ''event'')))"

text \<open>Quoting changes nothing in a plain ASCII text.\<close>

definition plain_ascii :: "string \<Rightarrow> bool" where
  "plain_ascii s \<longleftrightarrow> list_all (\<lambda>c. plain_byte c \<and> code c < 127) s"

lemma plain_ascii_simps [simp]:
  "plain_ascii []" "plain_ascii (c # s) \<longleftrightarrow> plain_byte c \<and> code c < 127 \<and> plain_ascii s"
  by (simp_all add: plain_ascii_def)

lemma quote_body_plain: "plain_ascii s \<Longrightarrow> quote_body p s = s"
proof (induction s)
  case (Cons c s)
  then have "decode_rune (c # s) = (code c, 1)" by (simp add: decode_rune_def)
  with Cons show ?case
    by (simp add: quote_body.simps [of p "c # s"] escape_rune_def strconv_IsPrint_def plain_byte_def)
qed (simp add: quote_body.simps)

definition plain_text :: "string \<Rightarrow> bool" where
  "plain_text s \<longleftrightarrow> s \<noteq> [] \<and> list_all (\<lambda>c. plain_byte c \<and> code c < 127 \<and> c \<noteq> CHR '' '') s"

lemma plain_char: "plain_byte c \<Longrightarrow> code c < 127 \<Longrightarrow> c \<noteq> CHR '' '' \<Longrightarrow> plain_end c"
  by (auto simp: plain_end_def ascii_space_def is_ascii_def plain_byte_def)

lemma plain_text_props:
  assumes "plain_text s"
  shows "strings_TrimSpace s = s" "plain_ascii s" "s \<noteq> []"
proof -
  from assms have "list_all plain_end s"
    using plain_char by (auto simp: plain_text_def list_all_iff)
  then show "strings_TrimSpace s = s" by (rule TrimSpace_all_plain)
  from assms show "plain_ascii s" "s \<noteq> []" by (auto simp: plain_text_def plain_ascii_def list_all_iff)
qed

lemma literal_keys [simp]:
  "strings_TrimSpace ''component'' = ''component''" "strings_TrimSpace ''level'' = ''level''"
  "strings_TrimSpace ''event'' = ''event''" "strings_TrimSpace ''grpctunnel'' = ''grpctunnel''"
  by (simp_all add: TrimSpace_all_plain plain_end_def ascii_space_def is_ascii_def)

lemma read_event_line:
  assumes "plain_text level" and "plain_text event" and "plain_text component" and "length stamp = 20"
  shows "read_event (stamp @ buildGrpctunnelLogLine printable component level event r err msg) = Some (level, event)"
  unfolding read_event_def drop_append
  using plain_text_props [OF assms(1)] plain_text_props [OF assms(2)] plain_text_props [OF assms(3)] assms(4)
  by (simp add: grpctunnel_line_read grpctunnel_log_fields_def trimmed_or_def Let_def quote_body_plain)

section \<open>The log of a tunnel server\<close>

text \<open>
  What a line is made of besides level and event: the span contexts of the request and of the
  session, and the error texts of gorilla's upgrade and of the connection set-up.
\<close>

record log_world =
  lw_request_span :: "span_context option"
  lw_session_span :: "span_context option"
  lw_upgrade_error :: string
  lw_setup_error :: string

definition bridge_log_message :: "string \<Rightarrow> string" where
  "bridge_log_message event = default_to [] (map_of
     [(''ws_upgrade_rejected_unauthorized'', ''WebSocket upgrade rejected by authorization hook''),
      (''ws_upgrade_rejected_abuse_control'', ''WebSocket upgrade rejected by abuse controls''),
      (''ws_upgrade_failed'', ''WebSocket upgrade failed''),
      (''ws_upgrade_succeeded'', ''WebSocket upgrade succeeded''),
      (''ws_connection_setup_failed'', ''WebSocket connection setup failed''),
      (''tunnel_connect'', ''Tunnel connected''),
      (''tunnel_disconnect'', ''Tunnel disconnected''),
      (''session_max_lifetime_reached'', ''Session max lifetime reached; closing tunnel''),
      (''native_serve_unavailable'', ''gRPC server stopped; rejecting tunneled session'')] event)"

fun refusal_in :: "h_event list \<Rightarrow> guard_error option" where
  "refusal_in [] = None"
| "refusal_in (ReserveSlot e # evs) = e"
| "refusal_in (_ # evs) = refusal_in evs"

definition bridge_log_error ::
    "(nat \<Rightarrow> bool) \<Rightarrow> BridgeConfig \<Rightarrow> log_world \<Rightarrow> http_request \<Rightarrow> h_event list \<Rightarrow> string \<Rightarrow> string option" where
  "bridge_log_error printable cfg lw r evs event =
     (if event = ''ws_upgrade_rejected_unauthorized''
      then (case Authorize cfg of None \<Rightarrow> None | Some authorize \<Rightarrow> authorize r)
      else if event = ''ws_upgrade_rejected_abuse_control''
      then map_option (abuseRefusal_Error printable) (refusal_in evs)
      else if event = ''ws_upgrade_failed'' then Some (lw_upgrade_error lw)
      else if event = ''ws_connection_setup_failed'' then Some (lw_setup_error lw)
      else None)"

definition before_session :: "string \<Rightarrow> bool" where
  "before_session event \<longleftrightarrow>
     event \<in> {''ws_upgrade_rejected_unauthorized'', ''ws_upgrade_rejected_abuse_control'', ''ws_upgrade_failed''}"

text \<open>What a handler that has performed \<open>evs\<close> writes for an event.\<close>

definition bridge_log_line ::
    "(nat \<Rightarrow> bool) \<Rightarrow> string \<Rightarrow> BridgeConfig \<Rightarrow> log_world \<Rightarrow> http_request option \<Rightarrow> h_event list \<Rightarrow> h_event \<Rightarrow>
     string" where
  "bridge_log_line printable stamp cfg lw req evs e =
     (case (e, req) of
        (LogEvent level event, Some r) \<Rightarrow>
          logGrpctunnelEvent printable stamp ''grpctunnel.bridge'' level event
            (Some (r\<lparr>SpanContext := if before_session event then lw_request_span lw else lw_session_span lw\<rparr>))
            (bridge_log_error printable cfg lw r evs event) (bridge_log_message event)
      | _ \<Rightarrow> [])"

text \<open>The output of a server for a run of its handlers; \<open>stamp\<close> gives the stamp of every event.\<close>

fun server_output ::
    "(nat \<Rightarrow> bool) \<Rightarrow> (nat \<Rightarrow> string) \<Rightarrow> BridgeConfig \<Rightarrow> (nat \<Rightarrow> log_world) \<Rightarrow> (nat \<Rightarrow> http_request option) \<Rightarrow>
     (nat \<times> h_event) list \<Rightarrow> (nat \<times> h_event) list \<Rightarrow> string" where
  "server_output printable stamp cfg lw req past [] = []"
| "server_output printable stamp cfg lw req past ((i, e) # log) =
     bridge_log_line printable (stamp (length past)) cfg (lw i) (req i) (events_of i past) e @
     server_output printable stamp cfg lw req (past @ [(i, e)]) log"

definition logged :: "(nat \<times> h_event) list \<Rightarrow> (string \<times> string) list" where
  "logged log = concat (map (\<lambda>(i, e). case e of LogEvent level event \<Rightarrow> [(level, event)] | _ \<Rightarrow> []) log)"

lemma logged_simps [simp]:
  "logged [] = []"
  "logged ((i, e) # log) = (case e of LogEvent level event \<Rightarrow> (level, event) # logged log | _ \<Rightarrow> logged log)"
  "logged (log @ log') = logged log @ logged log'"
  by (simp_all add: logged_def split: h_event.split)

definition loggable :: "(nat \<Rightarrow> http_request option) \<Rightarrow> (nat \<times> h_event) list \<Rightarrow> bool" where
  "loggable req log \<longleftrightarrow>
     (\<forall>i level event. (i, LogEvent level event) \<in> set log \<longrightarrow>
        req i \<noteq> None \<and> plain_text level \<and> plain_text event)"

lemma component_plain: "plain_text ''grpctunnel.bridge''"
  by (simp add: plain_text_def plain_byte_def)

lemma server_output_read:
  assumes stamp: "\<And>n. length (stamp n) = 20 \<and> CHR 0x0A \<notin> set (stamp n)"
  shows "loggable req log \<Longrightarrow>
    map read_event (split_lines [] (server_output printable stamp cfg lw req past log)) = map Some (logged log)"
proof (induction log arbitrary: past)
  case (Cons x log)
  obtain i e where x: "x = (i, e)" by fastforce
  from Cons.prems have later: "loggable req log" by (auto simp: loggable_def)
  note IH = Cons.IH [OF later]
  show ?case
  proof (cases "\<exists>level event. e = LogEvent level event")
    case False
    with IH x show ?thesis by (cases e) (auto simp: bridge_log_line_def)
  next
    case True
    then obtain level event where e: "e = LogEvent level event" by blast
    with Cons.prems x have own: "req i \<noteq> None" and plain: "plain_text level" "plain_text event"
      unfolding loggable_def by (metis list.set_intros(1))+
    from own obtain r where r: "req i = Some r" by blast
    let ?st = "stamp (length past)"
    obtain l where l: "bridge_log_line printable ?st cfg (lw i) (req i) (events_of i past) e = ?st @ l @ [CHR 0x0A]"
        "clean l" "read_event (?st @ l) = Some (level, event)"
      using read_event_line [OF plain component_plain] stamp log_Printf_clean [OF grpctunnel_line_clean]
        grpctunnel_line_clean
      by (simp add: bridge_log_line_def e r logGrpctunnelEvent_def)
    have "CHR 0x0A \<notin> set (?st @ l)" using stamp clean_no_newline [OF l(2)] by simp
    from split_line [OF this, of "[]"] IH x l(1,3) e show ?thesis by simp
  qed
qed simp

lemma handler_logs_plain:
  "LogEvent level event \<in> set (bridgeHandler cfg env r) \<Longrightarrow> plain_text level \<and> plain_text event"
  by (auto simp: bridgeHandler_def run_authorized_def run_upgraded_def run_connected_def serve_session_def
      Let_def plain_text_def plain_byte_def split: option.splits if_splits)

lemma run_loggable:
  "handlers_run reserve release (bridge_trace cfg) req g0 g log \<Longrightarrow> loggable req log"
proof (induction rule: handlers_run.induct)
  case (run_step g log i e env g')
  have "req i \<noteq> None \<and> plain_text level \<and> plain_text event" if "e = LogEvent level event" for level event
  proof -
    from run_step.hyps(2) have "e \<in> set (bridge_trace cfg (req i) env)" by (auto dest: set_mono_prefix)
    with that handler_logs_plain [of level event cfg env] show ?thesis
      by (cases "req i") (auto simp: bridge_trace_def)
  qed
  with run_step.IH show ?case by (auto simp: loggable_def)
qed (simp add: loggable_def)

section \<open>Open tunnels\<close>

definition connect_line :: "string \<times> string" where "connect_line = (''INFO'', ''tunnel_connect'')"

definition disconnect_line :: "string \<times> string" where "disconnect_line = (''INFO'', ''tunnel_disconnect'')"

abbreviation connect_event :: h_event where "connect_event \<equiv> LogEvent ''INFO'' ''tunnel_connect''"

abbreviation disconnect_event :: h_event where "disconnect_event \<equiv> LogEvent ''INFO'' ''tunnel_disconnect''"

definition in_session :: "h_event list \<Rightarrow> bool" where
  "in_session evs \<longleftrightarrow> connect_event \<in> set evs \<and> disconnect_event \<notin> set evs"

lemma connected_trace:
  assumes "connect_event \<in> set (bridge_trace cfg req env) \<or> disconnect_event \<in> set (bridge_trace cfg req env)"
  obtains a m b where "bridge_trace cfg req env = a @ connect_event # m @ disconnect_event # b"
    "connect_event \<notin> set a \<union> set m \<union> set b" "disconnect_event \<notin> set a \<union> set m \<union> set b"
    "slot_events a = [ReserveSlot None]" "slot_events m = []"
proof -
  from assms obtain r where req: "req = Some r" by (cases req) (auto simp: bridge_trace_def)
  have reach: "session_reaches cfg env r"
    using assms
    by (auto simp: req session_reaches_def reaches_hooks_def bridgeHandler_def run_authorized_def run_upgraded_def
        Let_def split: option.splits if_splits)
  define m where "m = deferring [ConnClose]
    (if SessionMaxLifetime cfg > 0
     then LifetimeTimerStart (SessionMaxLifetime cfg) # deferring [LifetimeTimerStop] (serve_session cfg env r)
     else serve_session cfg env r)"
  define b where "b = (case OnDisconnect cfg of
      None \<Rightarrow> [] | Some h \<Rightarrow> OnDisconnectCalled h # (if env_disconnect_panics env then [Panicked] else []))"
  have run: "run_connected cfg env r = connect_event # m @ disconnect_event # b"
    by (simp add: run_connected_def m_def b_def deferring_def)
  show thesis
  proof
    show "bridge_trace cfg req env = session_front cfg @ connect_event # m @ disconnect_event #
        (b @ [StopKeepaliveCalled, WsClose, SessionSpanEnd, MetricDelta (- 1), ReleaseSlot, RequestSpanEnd])"
      by (simp add: req session_trace [OF reach] run)
    show "slot_events (session_front cfg) = [ReserveSlot None]" "slot_events m = []"
      by (simp_all add: session_front_def reserve_front_def connect_calls_def m_def split: option.split)
    let ?rest = "set (session_front cfg) \<union> set m \<union> set (b @ [StopKeepaliveCalled, WsClose, SessionSpanEnd,
      MetricDelta (- 1), ReleaseSlot, RequestSpanEnd])"
    show "connect_event \<notin> ?rest" "disconnect_event \<notin> ?rest"
      by (auto simp: session_front_def reserve_front_def connect_calls_def m_def b_def serve_session_def Let_def
          split: option.splits if_splits)
  qed
qed

text \<open>Which events can follow, and that a session holds its slot.\<close>

lemma prefix_inside:
  assumes "prefix p (a @ x # m @ y # b)" and "x \<in> set p" and "y \<notin> set p" and "x \<notin> set a"
  obtains m' where "p = a @ x # m'" "prefix m' m"
proof -
  from assms(1) consider "prefix p a" | q where "p = a @ q" "prefix q (x # m @ y # b)" by (auto simp: prefix_append)
  then show thesis
  proof cases
    case 1
    with assms(2,4) set_mono_prefix [of p a] show thesis by auto
  next
    case 2
    then obtain q' where q: "q = x # q'" "prefix q' (m @ y # b)"
      using assms(2,4) by (cases q) auto
    then have "prefix q' m" using assms(3) 2(1) by (auto simp: prefix_append prefix_Cons)
    with q 2(1) show thesis by (intro that) auto
  qed
qed

lemma in_session_holds:
  assumes "prefix p (bridge_trace cfg r env)" and "in_session p"
  shows "holds_slot p"
proof -
  from assms have "connect_event \<in> set (bridge_trace cfg r env)" by (auto simp: in_session_def dest: set_mono_prefix)
  then obtain a m b where tr: "bridge_trace cfg r env = a @ connect_event # m @ disconnect_event # b"
    "connect_event \<notin> set a \<union> set m \<union> set b" "disconnect_event \<notin> set a \<union> set m \<union> set b"
    "slot_events a = [ReserveSlot None]" "slot_events m = []"
    by (rule connected_trace [OF disjI1])
  then obtain m' where p: "p = a @ connect_event # m'" "prefix m' m"
    by (auto intro: prefix_inside [OF assms(1) [unfolded tr(1)]] simp: assms(2) [unfolded in_session_def])
  from prefix_slot_events [OF p(2)] tr(5) have "slot_events m' = []" by simp
  with p(1) tr(4) show ?thesis by (simp add: holds_slot_def)
qed

lemma connect_point:
  assumes "prefix (p @ [connect_event]) (bridge_trace cfg r env)"
  shows "connect_event \<notin> set p" "disconnect_event \<notin> set p"
proof -
  from assms have "connect_event \<in> set (bridge_trace cfg r env)" by (auto dest: set_mono_prefix)
  then obtain a m b where tr: "bridge_trace cfg r env = a @ connect_event # m @ disconnect_event # b"
    "connect_event \<notin> set a \<union> set m \<union> set b" "disconnect_event \<notin> set a \<union> set m \<union> set b"
    "slot_events a = [ReserveSlot None]" "slot_events m = []"
    by (rule connected_trace [OF disjI1])
  have "p = a"
    by (rule prefix_only [where Q = "\<lambda>e. e = connect_event", OF assms [unfolded tr(1)], THEN conjunct1])
       (use tr(2) in auto)
  with tr(2,3) show "connect_event \<notin> set p" "disconnect_event \<notin> set p" by auto
qed

lemma disconnect_point:
  assumes "prefix (p @ [disconnect_event]) (bridge_trace cfg r env)"
  shows "in_session p"
proof -
  from assms have "disconnect_event \<in> set (bridge_trace cfg r env)" by (auto dest: set_mono_prefix)
  then obtain a m b where tr: "bridge_trace cfg r env = a @ connect_event # m @ disconnect_event # b"
    "connect_event \<notin> set a \<union> set m \<union> set b" "disconnect_event \<notin> set a \<union> set m \<union> set b"
    "slot_events a = [ReserveSlot None]" "slot_events m = []"
    by (rule connected_trace [OF disjI2])
  then have split: "bridge_trace cfg r env = (a @ connect_event # m) @ disconnect_event # b" by simp
  have "p = a @ connect_event # m"
    by (rule prefix_only [where Q = "\<lambda>e. e = disconnect_event", OF assms [unfolded split], THEN conjunct1])
       (use tr(3) in auto)
  with tr(3) show ?thesis by (auto simp: in_session_def)
qed

lemma count_list_Some: "count_list (map Some xs) (Some x) = count_list xs x"
  by (induction xs) auto

lemma handler_run_prefix:
  "handlers_run reserve release trace req g0 g log \<Longrightarrow> \<exists>env. prefix (events_of i log) (trace (req i) env)"
proof (induction rule: handlers_run.induct)
  case (run_step g log j e env g')
  then show ?case by (cases "i = j") auto
qed (simp add: events_of_def)

text \<open>The handlers in a session, and what the log says of their number.\<close>

lemma open_sessions:
  "handlers_run reserve release (bridge_trace cfg) req g0 g log \<Longrightarrow>
   \<exists>ids. distinct ids \<and> (\<forall>i. i \<in> set ids \<longleftrightarrow> in_session (events_of i log)) \<and>
     count_list (logged log) connect_line = count_list (logged log) disconnect_line + length ids"
proof (induction rule: handlers_run.induct)
  case run_start
  then show ?case by (intro exI [of _ "[]"]) (simp add: in_session_def events_of_def)
next
  case (run_step g log i e env g')
  then obtain ids where ids: "distinct ids" "\<And>j. j \<in> set ids \<longleftrightarrow> in_session (events_of j log)"
    "count_list (logged log) connect_line = count_list (logged log) disconnect_line + length ids" by blast
  consider "e = connect_event" | "e = disconnect_event" | "e \<noteq> connect_event" "e \<noteq> disconnect_event" by blast
  then show ?case
  proof cases
    case 1
    with connect_point run_step.hyps(2) have "connect_event \<notin> set (events_of i log)" "disconnect_event \<notin> set (events_of i log)"
      by auto
    with ids 1 show ?thesis
      by (intro exI [of _ "i # ids"]) (auto simp: in_session_def connect_line_def disconnect_line_def)
  next
    case 2
    with disconnect_point run_step.hyps(2) ids(2) have i: "i \<in> set ids" by auto
    from length_pos_if_in_set [OF i] i have "length ids = Suc (length (remove1 i ids))"
      by (simp add: length_remove1)
    with ids 2 show ?thesis
      by (intro exI [of _ "remove1 i ids"]) (auto simp: in_session_def connect_line_def disconnect_line_def)
  next
    case 3
    then have "logged [(i, e)] = [] \<or> (\<exists>l ev. logged [(i, e)] = [(l, ev)] \<and> (l, ev) \<noteq> connect_line \<and> (l, ev) \<noteq> disconnect_line)"
      by (auto simp: connect_line_def disconnect_line_def split: h_event.split)
    with ids 3 show ?thesis
      by (intro exI [of _ ids]) (auto simp: in_session_def simp del: logged_simps(2))
  qed
qed

text \<open>
  C15. The log of a tunnel server tells the truth. In every interleaving of any number of upgrade
  handlers, whatever headers, addresses, paths and error texts the clients cause, the output splits
  into one line per log event, and reading the lines back yields the level and event of each, in
  order; the tunnels opened and not closed by the log are as many as there are handlers between
  \<open>OnConnect\<close> and \<open>OnDisconnect\<close>, and never more than the configured cap.
\<close>

theorem server_log_reads_back:
  fixes printable lw
  assumes run: "handlers_run reserveBridgeConnection clearBridgeConnection (bridge_trace cfg) req
      (buildBridgeAbuseGuard cfg) g log"
    and stamp: "\<And>n. length (stamp n) = 20 \<and> CHR 0x0A \<notin> set (stamp n)"
  defines "read \<equiv> map read_event (split_lines [] (server_output printable stamp cfg lw req [] log))"
  shows "read = map Some (logged log) \<and>
    (\<exists>ids. distinct ids \<and> (\<forall>i. i \<in> set ids \<longleftrightarrow> in_session (events_of i log)) \<and>
       count_list read (Some connect_line) = count_list read (Some disconnect_line) + length ids \<and>
       (if 0 < MaxActiveConnections cfg then int (length ids) \<le> MaxActiveConnections cfg else True))"
proof -
  have reads: "read = map Some (logged log)"
    unfolding read_def by (rule server_output_read [OF stamp run_loggable [OF run]])
  then have counts: "count_list read (Some x) = count_list (logged log) x" for x
    by (simp add: count_list_Some)
  from open_sessions [OF run] obtain ids where ids: "distinct ids" "\<forall>i. i \<in> set ids \<longleftrightarrow> in_session (events_of i log)"
    "count_list (logged log) connect_line = count_list (logged log) disconnect_line + length ids" by blast
  have "set ids \<subseteq> set (slot_holders log [])"
    using ids(2) handler_run_prefix [OF run] in_session_holds bridge_server.holders_hold [OF run] by blast
  from length_subset [OF this ids(1)] bridge_run_caps(3) [OF run]
  have "0 < MaxActiveConnections cfg \<Longrightarrow> int (length ids) \<le> MaxActiveConnections cfg" by linarith
  with reads counts ids show ?thesis by (intro conjI exI [of _ ids]) simp_all
qed

lemma run_quiet:
  "handlers_run reserve release trace req g0 g log \<Longrightarrow> prefix (events_of i log @ es) (trace (req i) env) \<Longrightarrow>
   list_all (\<lambda>e. \<not> slot_event e) es \<Longrightarrow>
   handlers_run reserve release trace req g0 g (log @ map (Pair i) es)"
proof (induction es rule: rev_induct)
  case (snoc e es)
  have own: "events_of i (log @ map (Pair i) es) = events_of i log @ es"
    by (simp add: events_of_def filter_map comp_def)
  have "prefix (events_of i log @ es) (trace (req i) env)"
    using snoc.prems(2) append_prefixD [of "events_of i log @ es" "[e]"] by simp
  with snoc have "handlers_run reserve release trace req g0 g (log @ map (Pair i) es)" by simp
  from run_step [where i = i and e = e and env = env, OF this] snoc.prems(2,3) own show ?case
    by (simp add: effect_none)
qed simp

definition token_cfg :: BridgeConfig where
  "token_cfg = (capped_config 1 0 0)\<lparr>Authorize := Some (\<lambda>r. Some ''no token'')\<rparr>"

definition token_events :: "(nat \<times> h_event) list" where
  "token_events = map (Pair 0)
     [RequestSpanStart, AuthorizeCalled, MetricFailure, LogEvent ''WARN'' ''ws_upgrade_rejected_unauthorized'']"

theorem server_log_reads_back_witness:
  "map read_event (split_lines [] (server_output (\<lambda>_. False) (\<lambda>n. replicate 20 (CHR ''-'')) token_cfg
       (\<lambda>i. \<lparr>lw_request_span = None, lw_session_span = None, lw_upgrade_error = [], lw_setup_error = []\<rparr>)
       (\<lambda>i. client_a) [] token_events)) =
   [Some (''WARN'', ''ws_upgrade_rejected_unauthorized'')]"
proof -
  have "bridge_trace token_cfg client_a ok_env = map snd token_events @ [WriteStatus StatusForbidden, RequestSpanEnd]"
    by (simp add: bridge_trace_def bridgeHandler_def token_cfg_def token_events_def deferring_def)
  then have "handlers_run reserveBridgeConnection clearBridgeConnection (bridge_trace token_cfg) (\<lambda>i. client_a)
      (buildBridgeAbuseGuard token_cfg) (buildBridgeAbuseGuard token_cfg) token_events"
    using run_quiet [OF run_start, of 0 "map snd token_events" "bridge_trace token_cfg" "\<lambda>i. client_a" ok_env]
    by (simp add: events_of_def token_events_def)
  note reads = server_log_reads_back [OF this, of "\<lambda>n. replicate 20 (CHR ''-'')", THEN conjunct1]
  have "logged token_events = [(''WARN'', ''ws_upgrade_rejected_unauthorized'')]"
    by (simp add: token_events_def)
  with reads show ?thesis by simp
qed

section \<open>The proxy's log\<close>

lemma refusal_texts_same: "parseAbuseRefusal_Error = abuseRefusal_Error"
  by (simp add: parseAbuseRefusal_Error_def abuseRefusal_Error_def fun_eq_iff)

text \<open>
  A log event of the proxy is one line of its log with the default and with the example's logger,
  whatever request and error it is about, and nothing without a logger.
\<close>

theorem proxy_event_is_one_line:
  fixes printable level event r err msg
  defines "line \<equiv> buildBridgeLogLine printable level event r err msg"
  assumes "CHR 0x0A \<notin> set stamp"
  shows "split_lines [] (logBridgeEvent printable (Some (defaultLogger stamp)) level event r err msg) = [stamp @ line] \<and>
    split_lines [] (logBridgeEvent printable (Some (customLogger stamp)) level event r err msg) =
      [stamp @ ''[Bridge] '' @ line] \<and>
    logBridgeEvent printable None level event r err msg = []"
proof -
  have clean: "clean line" unfolding line_def using bridge_log_line_unforgeable [of printable level event r err msg] by force
  then have "CHR 0x0A \<notin> set (stamp @ line)" "CHR 0x0A \<notin> set (stamp @ ''[Bridge] '' @ line)" "clean (''[Bridge] '' @ line)"
    using assms(2) clean_no_newline by auto
  from split_line [OF this(1), of "[]" "[]"] split_line [OF this(2), of "[]" "[]"] log_Printf_clean [OF clean]
    log_Printf_clean [OF this(3)]
  show ?thesis by (simp add: logBridgeEvent_def defaultLogger_def customLogger_def line_def)
qed

theorem proxy_event_is_one_line_witness:
  "split_lines [] (logBridgeEvent (\<lambda>_. False) (Some (defaultLogger ''2026/01/01 00:00:00 '')) ''INFO'' ''tunnel_connect''
     None None ''Tunnel connected'') =
   [''2026/01/01 00:00:00 '' @ buildBridgeLogLine (\<lambda>_. False) ''INFO'' ''tunnel_connect'' None None ''Tunnel connected'']"
  by (rule proxy_event_is_one_line [THEN conjunct1]) simp

end
