(* ===== verification/Client_Pools.thy ===== *)
theory Client_Pools
  imports Client_Dial Bridge_Instance
begin

text \<open>
  The write buffer pools of the dialers (\<open>buildTunnelDialer\<close> in \<open>pkg/grpctunnel/client.go\<close> and
  \<open>DialOptionWithConfig\<close> in \<open>pkg/bridge/client.go\<close>), which come from the cache that the handlers of
  the same package use. A dialer is that of \<open>Client_Dial\<close> with its pool.
\<close>

definition buildTunnelDialer_pooled ::
    "pool_cache \<Rightarrow> TunnelConfig \<Rightarrow> pool_cache \<times> (url_error + ws_dialer \<times> nat)" where
  "buildTunnelDialer_pooled pools cfg =
     (case buildTunnelDialer cfg of
        Inl err \<Rightarrow> (pools, Inl err)
      | Inr dialer \<Rightarrow>
          (case tunnel_buildWebSocketWriteBufferPool pools defaultWebSocketBufferSize of
             (pools, pool) \<Rightarrow> (pools, Inr (dialer, pool))))"

definition DialOptionWithConfig_pooled ::
    "pool_cache \<Rightarrow> string \<Rightarrow> ClientConfig \<Rightarrow> pool_cache \<times> dialer dial_option \<times> nat" where
  "DialOptionWithConfig_pooled pools websocketURL cfg =
     (case buildWebSocketWriteBufferPool pools parseDefaultWebSocketBufferSize of
        (pools, pool) \<Rightarrow> (pools, DialOptionWithConfig websocketURL cfg, pool))"

text \<open>A process builds handlers and dialers, in any order; these are the pools they get.\<close>

datatype pool_user = Builds_Handler bool BridgeConfig | Builds_Dialer TunnelConfig

fun user_pools :: "pool_cache \<Rightarrow> pool_user list \<Rightarrow> pool_cache \<times> nat list" where
  "user_pools pools [] = (pools, [])"
| "user_pools pools (Builds_Handler grpcServer_nil cfg # us) =
     (case buildBridgeInstance pools grpcServer_nil cfg of
        (pools, Inl e) \<Rightarrow> user_pools pools us
      | (pools, Inr inst) \<Rightarrow> (case user_pools pools us of (pools, ps) \<Rightarrow> (pools, bi_writeBufferPool inst # ps)))"
| "user_pools pools (Builds_Dialer cfg # us) =
     (case buildTunnelDialer_pooled pools cfg of
        (pools, Inl e) \<Rightarrow> user_pools pools us
      | (pools, Inr (d, pool)) \<Rightarrow> (case user_pools pools us of (pools, ps) \<Rightarrow> (pools, pool # ps)))"

text \<open>The buffer sizes a user asks for: one if it is built, none if not.\<close>

fun asked_sizes :: "pool_user \<Rightarrow> int list" where
  "asked_sizes (Builds_Handler grpcServer_nil cfg) =
     (case BuildBridgeHandler grpcServer_nil cfg of
        Inl e \<Rightarrow> [] | Inr h \<Rightarrow> [up_WriteBufferSize (buildUpgrader (applyBridgeKeepaliveDefaults cfg))])"
| "asked_sizes (Builds_Dialer cfg) =
     (case buildTunnelDialer cfg of Inl e \<Rightarrow> [] | Inr d \<Rightarrow> [defaultWebSocketBufferSize])"

lemma user_pools_for: "user_pools pools us = pools_for pools (concat (map asked_sizes us))"
proof (induction us arbitrary: pools)
  case (Cons u us)
  then show ?case
    by (cases u)
       (auto simp: buildBridgeInstance_def BuildBridgeHandler_def buildTunnelDialer_pooled_def Let_def split_beta
         split: option.split sum.split)
qed simp

text \<open>
  A buffer never changes hands between sizes: of all handlers and dialers of a process, two share a
  pool exactly when they use the same cacheable buffer size; so all its dialers share one pool.
\<close>

theorem dialers_share_a_pool:
  fixes us :: "pool_user list"
  defines "ps \<equiv> snd (user_pools no_pools us)" and "ns \<equiv> concat (map asked_sizes us)"
  assumes "i < j" and "j < length ps"
  shows "(ps ! i = ps ! j \<longleftrightarrow>
      pool_size (ns ! i) = pool_size (ns ! j) \<and> tunnel_isCacheableWebSocketWriteBufferSize (pool_size (ns ! i))) \<and>
    (if ns ! i = defaultWebSocketBufferSize \<and> ns ! j = defaultWebSocketBufferSize then ps ! i = ps ! j else True)"
  using assms equal_sizes_share_pools [of i j ns]
  by (simp add: user_pools_for pool_size_def tunnel_isCacheableWebSocketWriteBufferSize_def
      defaultWebSocketBufferSize_def)

abbreviation plain_dialer :: pool_user where
  "plain_dialer \<equiv> Builds_Dialer \<lparr>tc_Target = ''ws://h'', tc_TLSConfig = None, tc_ShouldUseTLS = False,
     tc_Headers = None, tc_Subprotocols = [], tc_Proxy = None, tc_HandshakeTimeout = 0,
     tc_ShouldEnableCompression = False, tc_ReconnectConfig = None, tc_KeepaliveConfig = None,
     tc_GRPCOptions = []\<rparr>"

theorem dialers_share_a_pool_witness:
  "snd (user_pools no_pools [plain_dialer, plain_dialer]) ! 0 = snd (user_pools no_pools [plain_dialer, plain_dialer]) ! 1"
proof -
  have sizes: "concat (map asked_sizes [plain_dialer, plain_dialer]) = [defaultWebSocketBufferSize, defaultWebSocketBufferSize]"
    by (simp add: buildTunnelDialer_def url_eval Let_def)
  then have "length (snd (user_pools no_pools [plain_dialer, plain_dialer])) = 2"
    by (simp only: user_pools_for length_pools_for) simp
  with sizes dialers_share_a_pool [of 0 1 "[plain_dialer, plain_dialer]"] show ?thesis
    by (simp del: user_pools.simps asked_sizes.simps)
qed

end
