(* ===== verification/Program_Mains.thy ===== *)
theory Program_Mains
  imports Example_Programs Runner_Main Api_Guard
begin

text \<open>
  The \<open>main\<close> functions: of the repository's tools (\<open>tools/runner.go\<close>,
  \<open>tools/api_compat_guard/main.go\<close>) with their exit status, and of the example gRPC server and the
  example browser client (\<open>examples/grpc-server\<close>, \<open>examples/wasm-client\<close>).
\<close>

section \<open>The end of a program\<close>

text \<open>
  A \<open>main\<close> returns, exits with a status, or blocks for ever; only a return runs its deferred calls.
  \<open>log.Fatalf\<close> is a line and the status 1.
\<close>

datatype ending = Returns | Exits int | Blocks

definition with_deferred :: "'e list \<Rightarrow> 'e list \<times> ending \<Rightarrow> 'e list \<times> ending" where
  "with_deferred d body = (fst body @ (if snd body = Returns then d else []), snd body)"

fun exit_status :: "ending \<Rightarrow> int option" where
  "exit_status Returns = Some 0"
| "exit_status (Exits n) = Some n"
| "exit_status Blocks = None"

section \<open>The tools\<close>

text \<open>What the machine was asked to do, the error written to standard error, and the end.\<close>

definition runner_main ::
    "runner_libs \<Rightarrow> shell \<Rightarrow> path option \<Rightarrow> string list \<Rightarrow> history \<times> run_error option \<times> ending" where
  "runner_main lib sh caller args =
     (case run_state (handleRunnerMain lib sh caller args) [] of
        (Inl err, h) \<Rightarrow> (h, Some err, Exits 1)
      | (Inr _, h) \<Rightarrow> (h, None, Returns))"

text \<open>The outcomes that are an error of the guard.\<close>

fun guard_fails :: "guard_outcome \<Rightarrow> bool" where
  "guard_fails (GuardPassed n) = False"
| "guard_fails (BaselineStored symbols) = False"
| "guard_fails _ = True"

definition api_guard_main ::
    "(string \<Rightarrow> bool) \<Rightarrow> (string \<Rightarrow> go_file list) \<Rightarrow> (string \<Rightarrow> string option) \<Rightarrow>
     (string \<times> string list) list option \<Rightarrow> string list \<Rightarrow> guard_outcome option \<times> ending" where
  "api_guard_main exported dir docs baseline args =
     (let outcome = handleAPIGuardMain exported dir docs baseline args
      in if guard_fails outcome then (Some outcome, Exits 1) else (None, Returns))"

section \<open>The examples\<close>

datatype server_event = ServerLog string | ListensOn string string | ServesTodos

definition grpc_server_main ::
    "load_error + todo option list \<Rightarrow> bool \<Rightarrow> bool \<Rightarrow> server_event list \<times> ending" where
  "grpc_server_main loaded listen_ok serve_ok =
     (case newTodoServer loaded of
        Inl err \<Rightarrow> ([ServerLog ''Failed to create todoServer''], Exits 1)
      | Inr srv \<Rightarrow>
          if \<not> listen_ok then ([ListensOn ''tcp'' ''localhost:50051'', ServerLog ''Failed to listen''], Exits 1)
          else
            (let served = [ListensOn ''tcp'' ''localhost:50051'', ServerLog ''gRPC server listening on :50051'',
                           ServesTodos]
             in if serve_ok then (served, Returns)
                else (served @ [ServerLog ''gRPC server failed''], Exits 1)))"

datatype client_event =
    ClientLog string | DialContext duration | Dialed "dial_error + string \<times> dialer dial_option list"
  | ClosesConn | CallContext duration | CallsCreateTodo string | CancelsDial | CancelsCall

text \<open>\<open>call_ok\<close> says whether the server creates the to-do.\<close>

definition wasm_client_main ::
    "backoff_config \<Rightarrow> location \<Rightarrow> bool \<Rightarrow> client_event list \<times> ending" where
  "wasm_client_main default_backoff loc call_ok =
     (let conn = wasm_client_dial default_backoff loc;
          opened = [ClientLog ''WASM: Starting new gRPC client...'', DialContext (5 * second), Dialed conn]
      in with_deferred [CancelsDial]
           (case conn of
              Inl err \<Rightarrow> (opened @ [ClientLog ''WASM: Failed to connect to gRPC server via WebSocket''], Exits 1)
            | Inr _ \<Rightarrow>
                with_deferred [CancelsCall, ClosesConn]
                  (let called = opened @ [CallContext (10 * second), CallsCreateTodo ''Learn gRPC-over-WebSocket'']
                   in if call_ok then (called @ [ClientLog ''WASM: Created new todo''], Blocks)
                      else (called @ [ClientLog ''WASM: Failed to create todo''], Exits 1))))"

section \<open>What their ends say\<close>

text \<open>
  A tool succeeds exactly when its work did: the exit status is 0 if the command returned no error
  and 1 otherwise, and an error is always reported.
\<close>

theorem tools_exit_status:
  "exit_status (snd (snd (runner_main lib sh caller args))) =
     Some (if (\<exists>u. fst (run_state (handleRunnerMain lib sh caller args) []) = Inr u) then 0 else 1) \<and>
   (fst (snd (runner_main lib sh caller args)) = None \<longleftrightarrow>
      (\<exists>u. fst (run_state (handleRunnerMain lib sh caller args) []) = Inr u)) \<and>
   fst (runner_main lib sh caller args) = snd (run_state (handleRunnerMain lib sh caller args) []) \<and>
   exit_status (snd (api_guard_main exported dir docs baseline args)) =
     Some (if guard_fails (handleAPIGuardMain exported dir docs baseline args) then 1 else 0)"
  by (auto simp: runner_main_def api_guard_main_def Let_def split: prod.splits sum.splits)

text \<open>
  The example client never runs its deferred calls: on every path it ends in \<open>log.Fatalf\<close> or blocks,
  so its connection is never closed and its contexts are never cancelled.
\<close>

lemma wasm_client_never_closes:
  "snd (wasm_client_main default_backoff loc call_ok) \<noteq> Returns \<and>
   set (fst (wasm_client_main default_backoff loc call_ok)) \<inter> {ClosesConn, CancelsDial, CancelsCall} = {}"
  by (auto simp: wasm_client_main_def with_deferred_def Let_def split: sum.split)

text \<open>The example server listens where the example bridges look for it.\<close>

lemma example_bridge_meets_server:
  "newTodoServer loaded = Inr srv \<Longrightarrow>
   ListensOn ''tcp'' (hp_TargetAddress (minimal_config ''localhost:50051'')) \<in>
     set (fst (grpc_server_main loaded listen_ok serve_ok))"
  by (simp add: grpc_server_main_def minimal_config_def Let_def)

end
