(* ===== verification/Todo_Messages.thy ===== *)
theory Todo_Messages
  imports Todo_Store "HOL-Library.Word"
begin

text \<open>
  The messages of the to-do service (\<open>src/examples/_shared/proto/todos.pb.go\<close>): the fields of every
  message, its zero value and its getters, which may be called on a nil pointer (\<open>None\<close>). The
  bookkeeping of the protobuf runtime (message state, unknown fields, size cache, descriptors) has no
  part in what a program reads or writes and is left out. A to-do is the record of \<open>Todo_Store\<close>.
\<close>

section \<open>Messages\<close>

record CreateTodoRequest =
  ctq_Text :: string

record CreateTodoResponse =
  ctr_Todo :: "todo option"

datatype ListTodosRequest = ListTodosRequest

record ListTodosResponse =
  ltr_Todos :: "todo option list"

record UpdateTodoRequest =
  utq_Id :: string
  utq_Text :: string
  utq_Done :: bool

record UpdateTodoResponse =
  utr_Todo :: "todo option"

record DeleteTodoRequest =
  dtq_Id :: string

record DeleteTodoResponse =
  dtr_Success :: bool

datatype StreamTodosRequest = StreamTodosRequest

record StreamTodosResponse =
  str_Todo :: "todo option"

record BulkCreateRequest =
  bcq_Text :: string

record BulkCreateResponse =
  bcr_CreatedCount :: "32 word"

datatype SyncRequest_Action =
    SyncRequest_Create "CreateTodoRequest option"
  | SyncRequest_Update "UpdateTodoRequest option"
  | SyncRequest_Delete "DeleteTodoRequest option"

record SyncRequest =
  syq_Action :: "SyncRequest_Action option"

datatype SyncResponse_Result =
    SyncResponse_Todo "todo option"
  | SyncResponse_Error string

record SyncResponse =
  syr_Result :: "SyncResponse_Result option"

text \<open>What travels as \<open>interface{}\<close>: a pointer to one of the messages, by its type.\<close>

datatype message =
    M_CreateTodoRequest CreateTodoRequest | M_CreateTodoResponse CreateTodoResponse
  | M_ListTodosRequest ListTodosRequest | M_ListTodosResponse ListTodosResponse
  | M_UpdateTodoRequest UpdateTodoRequest | M_UpdateTodoResponse UpdateTodoResponse
  | M_DeleteTodoRequest DeleteTodoRequest | M_DeleteTodoResponse DeleteTodoResponse
  | M_StreamTodosRequest StreamTodosRequest | M_StreamTodosResponse StreamTodosResponse
  | M_BulkCreateRequest BulkCreateRequest | M_BulkCreateResponse BulkCreateResponse
  | M_SyncRequest SyncRequest | M_SyncResponse SyncResponse

text \<open>\<open>Reset\<close> stores the zero value of the message, which is also what \<open>new\<close> allocates.\<close>

fun message_Reset :: "message \<Rightarrow> message" where
  "message_Reset (M_CreateTodoRequest m) = M_CreateTodoRequest \<lparr>ctq_Text = []\<rparr>"
| "message_Reset (M_CreateTodoResponse m) = M_CreateTodoResponse \<lparr>ctr_Todo = None\<rparr>"
| "message_Reset (M_ListTodosRequest m) = M_ListTodosRequest ListTodosRequest"
| "message_Reset (M_ListTodosResponse m) = M_ListTodosResponse \<lparr>ltr_Todos = []\<rparr>"
| "message_Reset (M_UpdateTodoRequest m) =
     M_UpdateTodoRequest \<lparr>utq_Id = [], utq_Text = [], utq_Done = False\<rparr>"
| "message_Reset (M_UpdateTodoResponse m) = M_UpdateTodoResponse \<lparr>utr_Todo = None\<rparr>"
| "message_Reset (M_DeleteTodoRequest m) = M_DeleteTodoRequest \<lparr>dtq_Id = []\<rparr>"
| "message_Reset (M_DeleteTodoResponse m) = M_DeleteTodoResponse \<lparr>dtr_Success = False\<rparr>"
| "message_Reset (M_StreamTodosRequest m) = M_StreamTodosRequest StreamTodosRequest"
| "message_Reset (M_StreamTodosResponse m) = M_StreamTodosResponse \<lparr>str_Todo = None\<rparr>"
| "message_Reset (M_BulkCreateRequest m) = M_BulkCreateRequest \<lparr>bcq_Text = []\<rparr>"
| "message_Reset (M_BulkCreateResponse m) = M_BulkCreateResponse \<lparr>bcr_CreatedCount = 0\<rparr>"
| "message_Reset (M_SyncRequest m) = M_SyncRequest \<lparr>syq_Action = None\<rparr>"
| "message_Reset (M_SyncResponse m) = M_SyncResponse \<lparr>syr_Result = None\<rparr>"

section \<open>Getters\<close>

definition Todo_GetId :: "todo option \<Rightarrow> string" where
  "Todo_GetId x = (case x of Some m \<Rightarrow> td_Id m | None \<Rightarrow> [])"

definition Todo_GetText :: "todo option \<Rightarrow> string" where
  "Todo_GetText x = (case x of Some m \<Rightarrow> td_Text m | None \<Rightarrow> [])"

definition Todo_GetDone :: "todo option \<Rightarrow> bool" where
  "Todo_GetDone x = (case x of Some m \<Rightarrow> td_Done m | None \<Rightarrow> False)"

definition CreateTodoRequest_GetText :: "CreateTodoRequest option \<Rightarrow> string" where
  "CreateTodoRequest_GetText x = (case x of Some m \<Rightarrow> ctq_Text m | None \<Rightarrow> [])"

definition CreateTodoResponse_GetTodo :: "CreateTodoResponse option \<Rightarrow> todo option" where
  "CreateTodoResponse_GetTodo x = (case x of Some m \<Rightarrow> ctr_Todo m | None \<Rightarrow> None)"

definition ListTodosResponse_GetTodos :: "ListTodosResponse option \<Rightarrow> todo option list" where
  "ListTodosResponse_GetTodos x = (case x of Some m \<Rightarrow> ltr_Todos m | None \<Rightarrow> [])"

definition UpdateTodoRequest_GetId :: "UpdateTodoRequest option \<Rightarrow> string" where
  "UpdateTodoRequest_GetId x = (case x of Some m \<Rightarrow> utq_Id m | None \<Rightarrow> [])"

definition UpdateTodoRequest_GetText :: "UpdateTodoRequest option \<Rightarrow> string" where
  "UpdateTodoRequest_GetText x = (case x of Some m \<Rightarrow> utq_Text m | None \<Rightarrow> [])"

definition UpdateTodoRequest_GetDone :: "UpdateTodoRequest option \<Rightarrow> bool" where
  "UpdateTodoRequest_GetDone x = (case x of Some m \<Rightarrow> utq_Done m | None \<Rightarrow> False)"

definition UpdateTodoResponse_GetTodo :: "UpdateTodoResponse option \<Rightarrow> todo option" where
  "UpdateTodoResponse_GetTodo x = (case x of Some m \<Rightarrow> utr_Todo m | None \<Rightarrow> None)"

definition DeleteTodoRequest_GetId :: "DeleteTodoRequest option \<Rightarrow> string" where
  "DeleteTodoRequest_GetId x = (case x of Some m \<Rightarrow> dtq_Id m | None \<Rightarrow> [])"

definition DeleteTodoResponse_GetSuccess :: "DeleteTodoResponse option \<Rightarrow> bool" where
  "DeleteTodoResponse_GetSuccess x = (case x of Some m \<Rightarrow> dtr_Success m | None \<Rightarrow> False)"

definition StreamTodosResponse_GetTodo :: "StreamTodosResponse option \<Rightarrow> todo option" where
  "StreamTodosResponse_GetTodo x = (case x of Some m \<Rightarrow> str_Todo m | None \<Rightarrow> None)"

definition BulkCreateRequest_GetText :: "BulkCreateRequest option \<Rightarrow> string" where
  "BulkCreateRequest_GetText x = (case x of Some m \<Rightarrow> bcq_Text m | None \<Rightarrow> [])"

definition BulkCreateResponse_GetCreatedCount :: "BulkCreateResponse option \<Rightarrow> 32 word" where
  "BulkCreateResponse_GetCreatedCount x = (case x of Some m \<Rightarrow> bcr_CreatedCount m | None \<Rightarrow> 0)"

definition SyncRequest_GetAction :: "SyncRequest option \<Rightarrow> SyncRequest_Action option" where
  "SyncRequest_GetAction x = (case x of Some m \<Rightarrow> syq_Action m | None \<Rightarrow> None)"

definition SyncResponse_GetResult :: "SyncResponse option \<Rightarrow> SyncResponse_Result option" where
  "SyncResponse_GetResult x = (case x of Some m \<Rightarrow> syr_Result m | None \<Rightarrow> None)"

text \<open>The getters of a oneof answer for their own alternative only.\<close>

definition SyncRequest_GetCreate :: "SyncRequest option \<Rightarrow> CreateTodoRequest option" where
  "SyncRequest_GetCreate x =
     (case x of None \<Rightarrow> None
      | Some m \<Rightarrow> (case syq_Action m of Some (SyncRequest_Create v) \<Rightarrow> v | _ \<Rightarrow> None))"

definition SyncRequest_GetUpdate :: "SyncRequest option \<Rightarrow> UpdateTodoRequest option" where
  "SyncRequest_GetUpdate x =
     (case x of None \<Rightarrow> None
      | Some m \<Rightarrow> (case syq_Action m of Some (SyncRequest_Update v) \<Rightarrow> v | _ \<Rightarrow> None))"

definition SyncRequest_GetDelete :: "SyncRequest option \<Rightarrow> DeleteTodoRequest option" where
  "SyncRequest_GetDelete x =
     (case x of None \<Rightarrow> None
      | Some m \<Rightarrow> (case syq_Action m of Some (SyncRequest_Delete v) \<Rightarrow> v | _ \<Rightarrow> None))"

definition SyncResponse_GetTodo :: "SyncResponse option \<Rightarrow> todo option" where
  "SyncResponse_GetTodo x =
     (case x of None \<Rightarrow> None
      | Some m \<Rightarrow> (case syr_Result m of Some (SyncResponse_Todo v) \<Rightarrow> v | _ \<Rightarrow> None))"

definition SyncResponse_GetError :: "SyncResponse option \<Rightarrow> string" where
  "SyncResponse_GetError x =
     (case x of None \<Rightarrow> []
      | Some m \<Rightarrow> (case syr_Result m of Some (SyncResponse_Error v) \<Rightarrow> v | _ \<Rightarrow> []))"

text \<open>A request carries one action: at most one getter answers, the one of the action it carries.\<close>

lemmas sync_getters = SyncRequest_GetCreate_def SyncRequest_GetUpdate_def SyncRequest_GetDelete_def
  SyncRequest_GetAction_def

theorem sync_request_one_action:
  "(SyncRequest_GetCreate x \<noteq> None \<longrightarrow>
      SyncRequest_GetUpdate x = None \<and> SyncRequest_GetDelete x = None \<and>
      SyncRequest_GetAction x = Some (SyncRequest_Create (SyncRequest_GetCreate x))) \<and>
   (SyncRequest_GetUpdate x \<noteq> None \<longrightarrow>
      SyncRequest_GetDelete x = None \<and>
      SyncRequest_GetAction x = Some (SyncRequest_Update (SyncRequest_GetUpdate x))) \<and>
   (SyncRequest_GetDelete x \<noteq> None \<longrightarrow>
      SyncRequest_GetAction x = Some (SyncRequest_Delete (SyncRequest_GetDelete x)))"
  by (auto simp: sync_getters split: option.splits SyncRequest_Action.splits)

end
