(* ===== verification/Todo_Rpc.thy ===== *)
theory Todo_Rpc
  imports Todo_Messages
begin

text \<open>
  The generated client and server of the to-do service
  (\<open>src/examples/_shared/proto/todos_grpc.pb.go\<close>) and their ends: the server of
  \<open>src/examples/grpc-server/main.go\<close>, whose operations are those of \<open>Todo_Store\<close>. A connection, the
  interceptor, the decoder and the streams are gRPC's: fields and arguments. What gRPC promises of a
  call, that it runs the handler registered under the method's name, is the hypothesis \<open>serves\<close>.
\<close>

section \<open>Names and errors\<close>

definition TodoService_CreateTodo_FullMethodName :: string where
  "TodoService_CreateTodo_FullMethodName = ''/TodoService/CreateTodo''"

definition TodoService_ListTodos_FullMethodName :: string where
  "TodoService_ListTodos_FullMethodName = ''/TodoService/ListTodos''"

definition TodoService_UpdateTodo_FullMethodName :: string where
  "TodoService_UpdateTodo_FullMethodName = ''/TodoService/UpdateTodo''"

definition TodoService_DeleteTodo_FullMethodName :: string where
  "TodoService_DeleteTodo_FullMethodName = ''/TodoService/DeleteTodo''"

definition TodoService_StreamTodos_FullMethodName :: string where
  "TodoService_StreamTodos_FullMethodName = ''/TodoService/StreamTodos''"

definition TodoService_BulkCreateTodos_FullMethodName :: string where
  "TodoService_BulkCreateTodos_FullMethodName = ''/TodoService/BulkCreateTodos''"

definition TodoService_SyncTodos_FullMethodName :: string where
  "TodoService_SyncTodos_FullMethodName = ''/TodoService/SyncTodos''"

lemmas full_names = TodoService_CreateTodo_FullMethodName_def TodoService_ListTodos_FullMethodName_def
  TodoService_UpdateTodo_FullMethodName_def TodoService_DeleteTodo_FullMethodName_def
  TodoService_StreamTodos_FullMethodName_def TodoService_BulkCreateTodos_FullMethodName_def
  TodoService_SyncTodos_FullMethodName_def

text \<open>A status error of gRPC: \<open>codes.Unimplemented\<close> with its text, or any other.\<close>

datatype rpc_error = Status_Unimplemented string | Rpc_failed string

datatype rpc_outcome = Returned message | Failed rpc_error | Handler_panics

section \<open>The server interface\<close>

text \<open>
  The state \<open>'s\<close> of a server is passed through its methods; a streaming method also drives its
  stream, of state \<open>'m\<close>.
\<close>

record ('c, 's, 'm) TodoServiceServer =
  srv_CreateTodo :: "'c \<Rightarrow> CreateTodoRequest \<Rightarrow> 's \<Rightarrow> 's \<times> (rpc_error + CreateTodoResponse)"
  srv_ListTodos :: "'c \<Rightarrow> ListTodosRequest \<Rightarrow> 's \<Rightarrow> 's \<times> (rpc_error + ListTodosResponse)"
  srv_UpdateTodo :: "'c \<Rightarrow> UpdateTodoRequest \<Rightarrow> 's \<Rightarrow> 's \<times> (rpc_error + UpdateTodoResponse)"
  srv_DeleteTodo :: "'c \<Rightarrow> DeleteTodoRequest \<Rightarrow> 's \<Rightarrow> 's \<times> (rpc_error + DeleteTodoResponse)"
  srv_StreamTodos :: "StreamTodosRequest \<Rightarrow> 's \<times> 'm \<Rightarrow> ('s \<times> 'm) \<times> rpc_error option"
  srv_BulkCreateTodos :: "'s \<times> 'm \<Rightarrow> ('s \<times> 'm) \<times> rpc_error option"
  srv_SyncTodos :: "'s \<times> 'm \<Rightarrow> ('s \<times> 'm) \<times> rpc_error option"

definition UnimplementedTodoServiceServer :: "('c, 's, 'm) TodoServiceServer" where
  "UnimplementedTodoServiceServer =
     \<lparr>srv_CreateTodo = \<lambda>ctx q s. (s, Inl (Status_Unimplemented ''method CreateTodo not implemented'')),
      srv_ListTodos = \<lambda>ctx q s. (s, Inl (Status_Unimplemented ''method ListTodos not implemented'')),
      srv_UpdateTodo = \<lambda>ctx q s. (s, Inl (Status_Unimplemented ''method UpdateTodo not implemented'')),
      srv_DeleteTodo = \<lambda>ctx q s. (s, Inl (Status_Unimplemented ''method DeleteTodo not implemented'')),
      srv_StreamTodos = \<lambda>q s. (s, Some (Status_Unimplemented ''method StreamTodos not implemented'')),
      srv_BulkCreateTodos = \<lambda>s. (s, Some (Status_Unimplemented ''method BulkCreateTodos not implemented'')),
      srv_SyncTodos = \<lambda>s. (s, Some (Status_Unimplemented ''method SyncTodos not implemented''))\<rparr>"

section \<open>Server handlers\<close>

type_synonym ('c, 's) unary_handler = "'c \<Rightarrow> message \<Rightarrow> 's \<Rightarrow> 's \<times> rpc_outcome"

record ('c, 's, 'm) UnaryServerInfo =
  info_Server :: "('c, 's, 'm) TodoServiceServer"
  info_FullMethod :: string

type_synonym ('c, 's, 'm) interceptor =
  "'c \<Rightarrow> message \<Rightarrow> ('c, 's, 'm) UnaryServerInfo \<Rightarrow> ('c, 's) unary_handler \<Rightarrow> 's \<Rightarrow> 's \<times> rpc_outcome"

type_synonym decoder = "message \<Rightarrow> rpc_error + message"

definition outcome :: "('r \<Rightarrow> message) \<Rightarrow> 's \<times> (rpc_error + 'r) \<Rightarrow> 's \<times> rpc_outcome" where
  "outcome M r = map_prod id (case_sum Failed (Returned \<circ> M)) r"

text \<open>
  \<open>srv.(TodoServiceServer).CreateTodo(ctx, req.(*CreateTodoRequest))\<close> and its siblings: the type
  assertion panics on another message.
\<close>

fun call_CreateTodo :: "('c, 's, 'm) TodoServiceServer \<Rightarrow> ('c, 's) unary_handler" where
  "call_CreateTodo srv ctx (M_CreateTodoRequest q) s = outcome M_CreateTodoResponse (srv_CreateTodo srv ctx q s)"
| "call_CreateTodo srv ctx _ s = (s, Handler_panics)"

fun call_ListTodos :: "('c, 's, 'm) TodoServiceServer \<Rightarrow> ('c, 's) unary_handler" where
  "call_ListTodos srv ctx (M_ListTodosRequest q) s = outcome M_ListTodosResponse (srv_ListTodos srv ctx q s)"
| "call_ListTodos srv ctx _ s = (s, Handler_panics)"

fun call_UpdateTodo :: "('c, 's, 'm) TodoServiceServer \<Rightarrow> ('c, 's) unary_handler" where
  "call_UpdateTodo srv ctx (M_UpdateTodoRequest q) s = outcome M_UpdateTodoResponse (srv_UpdateTodo srv ctx q s)"
| "call_UpdateTodo srv ctx _ s = (s, Handler_panics)"

fun call_DeleteTodo :: "('c, 's, 'm) TodoServiceServer \<Rightarrow> ('c, 's) unary_handler" where
  "call_DeleteTodo srv ctx (M_DeleteTodoRequest q) s = outcome M_DeleteTodoResponse (srv_DeleteTodo srv ctx q s)"
| "call_DeleteTodo srv ctx _ s = (s, Handler_panics)"

text \<open>
  The common text of the four unary handlers: decode into a new request, then call the server
  directly or through the interceptor.
\<close>

definition unary :: "message \<Rightarrow> string \<Rightarrow> (('c, 's, 'm) TodoServiceServer \<Rightarrow> ('c, 's) unary_handler) \<Rightarrow>
    ('c, 's, 'm) TodoServiceServer \<Rightarrow> 'c \<Rightarrow> decoder \<Rightarrow> ('c, 's, 'm) interceptor option \<Rightarrow>
    's \<Rightarrow> 's \<times> rpc_outcome" where
  "unary new_in full call srv ctx dec interceptor s =
     (case dec new_in of
        Inl err \<Rightarrow> (s, Failed err)
      | Inr q \<Rightarrow>
          (case interceptor of
             None \<Rightarrow> call srv ctx q s
           | Some ic \<Rightarrow> ic ctx q \<lparr>info_Server = srv, info_FullMethod = full\<rparr> (call srv) s))"

definition TodoService_CreateTodo_Handler :: "('c, 's, 'm) TodoServiceServer \<Rightarrow> 'c \<Rightarrow> decoder \<Rightarrow>
    ('c, 's, 'm) interceptor option \<Rightarrow> 's \<Rightarrow> 's \<times> rpc_outcome" where
  "TodoService_CreateTodo_Handler =
     unary (M_CreateTodoRequest \<lparr>ctq_Text = []\<rparr>) TodoService_CreateTodo_FullMethodName call_CreateTodo"

definition TodoService_ListTodos_Handler :: "('c, 's, 'm) TodoServiceServer \<Rightarrow> 'c \<Rightarrow> decoder \<Rightarrow>
    ('c, 's, 'm) interceptor option \<Rightarrow> 's \<Rightarrow> 's \<times> rpc_outcome" where
  "TodoService_ListTodos_Handler =
     unary (M_ListTodosRequest ListTodosRequest) TodoService_ListTodos_FullMethodName call_ListTodos"

definition TodoService_UpdateTodo_Handler :: "('c, 's, 'm) TodoServiceServer \<Rightarrow> 'c \<Rightarrow> decoder \<Rightarrow>
    ('c, 's, 'm) interceptor option \<Rightarrow> 's \<Rightarrow> 's \<times> rpc_outcome" where
  "TodoService_UpdateTodo_Handler =
     unary (M_UpdateTodoRequest \<lparr>utq_Id = [], utq_Text = [], utq_Done = False\<rparr>)
       TodoService_UpdateTodo_FullMethodName call_UpdateTodo"

definition TodoService_DeleteTodo_Handler :: "('c, 's, 'm) TodoServiceServer \<Rightarrow> 'c \<Rightarrow> decoder \<Rightarrow>
    ('c, 's, 'm) interceptor option \<Rightarrow> 's \<Rightarrow> 's \<times> rpc_outcome" where
  "TodoService_DeleteTodo_Handler =
     unary (M_DeleteTodoRequest \<lparr>dtq_Id = []\<rparr>) TodoService_DeleteTodo_FullMethodName call_DeleteTodo"

text \<open>The streaming handlers; \<open>recv\<close> is \<open>RecvMsg\<close> of the server's stream.\<close>

type_synonym ('c, 's, 'm) stream_handler =
  "('c, 's, 'm) TodoServiceServer \<Rightarrow> 's \<times> 'm \<Rightarrow> ('s \<times> 'm) \<times> rpc_error option"

definition TodoService_StreamTodos_Handler ::
    "('m \<Rightarrow> 'm \<times> (rpc_error + StreamTodosRequest)) \<Rightarrow> ('c, 's, 'm) stream_handler" where
  "TodoService_StreamTodos_Handler recv srv st =
     (case recv (snd st) of
        (m, Inl err) \<Rightarrow> ((fst st, m), Some err)
      | (m, Inr q) \<Rightarrow> srv_StreamTodos srv q (fst st, m))"

definition TodoService_BulkCreateTodos_Handler :: "('c, 's, 'm) stream_handler" where
  "TodoService_BulkCreateTodos_Handler srv st = srv_BulkCreateTodos srv st"

definition TodoService_SyncTodos_Handler :: "('c, 's, 'm) stream_handler" where
  "TodoService_SyncTodos_Handler srv st = srv_SyncTodos srv st"

section \<open>The service descriptor\<close>

record ('c, 's, 'm) MethodDesc =
  md_MethodName :: string
  md_Handler :: "('c, 's, 'm) TodoServiceServer \<Rightarrow> 'c \<Rightarrow> decoder \<Rightarrow>
    ('c, 's, 'm) interceptor option \<Rightarrow> 's \<Rightarrow> 's \<times> rpc_outcome"

record ('c, 's, 'm) StreamDesc =
  sd_StreamName :: string
  sd_Handler :: "('c, 's, 'm) stream_handler"
  sd_ServerStreams :: bool
  sd_ClientStreams :: bool

record ('c, 's, 'm) ServiceDesc =
  desc_ServiceName :: string
  desc_Methods :: "('c, 's, 'm) MethodDesc list"
  desc_Streams :: "('c, 's, 'm) StreamDesc list"
  desc_Metadata :: string

definition TodoService_ServiceDesc ::
    "('m \<Rightarrow> 'm \<times> (rpc_error + StreamTodosRequest)) \<Rightarrow> ('c, 's, 'm) ServiceDesc" where
  "TodoService_ServiceDesc recv =
     \<lparr>desc_ServiceName = ''TodoService'',
      desc_Methods =
        [\<lparr>md_MethodName = ''CreateTodo'', md_Handler = TodoService_CreateTodo_Handler\<rparr>,
         \<lparr>md_MethodName = ''ListTodos'', md_Handler = TodoService_ListTodos_Handler\<rparr>,
         \<lparr>md_MethodName = ''UpdateTodo'', md_Handler = TodoService_UpdateTodo_Handler\<rparr>,
         \<lparr>md_MethodName = ''DeleteTodo'', md_Handler = TodoService_DeleteTodo_Handler\<rparr>],
      desc_Streams =
        [\<lparr>sd_StreamName = ''StreamTodos'', sd_Handler = TodoService_StreamTodos_Handler recv,
          sd_ServerStreams = True, sd_ClientStreams = False\<rparr>,
         \<lparr>sd_StreamName = ''BulkCreateTodos'', sd_Handler = TodoService_BulkCreateTodos_Handler,
          sd_ServerStreams = False, sd_ClientStreams = True\<rparr>,
         \<lparr>sd_StreamName = ''SyncTodos'', sd_Handler = TodoService_SyncTodos_Handler,
          sd_ServerStreams = True, sd_ClientStreams = True\<rparr>],
      desc_Metadata = ''todos.proto''\<rparr>"

text \<open>
  Registration: a server that embeds \<open>UnimplementedTodoServiceServer\<close> through a nil pointer panics
  here, at start-up. \<open>register\<close> is \<open>RegisterService\<close> of the registrar.
\<close>

definition RegisterTodoServiceServer ::
    "(('c, 's, 'm) ServiceDesc \<Rightarrow> ('c, 's, 'm) TodoServiceServer \<Rightarrow> 'r \<Rightarrow> 'r) \<Rightarrow> bool \<Rightarrow>
     ('m \<Rightarrow> 'm \<times> (rpc_error + StreamTodosRequest)) \<Rightarrow> ('c, 's, 'm) TodoServiceServer \<Rightarrow> 'r \<Rightarrow> 'r option" where
  "RegisterTodoServiceServer register embeds_nil recv srv r =
     (if embeds_nil then None else Some (register (TodoService_ServiceDesc recv) srv r))"

section \<open>The client\<close>

datatype 'o callOption = StaticMethod | CallOption 'o

text \<open>
  A \<open>grpc.ClientConnInterface\<close> over a world \<open>'w\<close>. \<open>Invoke\<close> fills the response it is given; \<open>'d\<close> is
  the stream descriptor that \<open>NewStream\<close> takes.
\<close>

record ('w, 'c, 'o, 'd, 'h) ClientConnInterface =
  cc_Invoke :: "'c \<Rightarrow> string \<Rightarrow> message \<Rightarrow> message \<Rightarrow> 'o callOption list \<Rightarrow> 'w \<Rightarrow> 'w \<times> message \<times> rpc_error option"
  cc_NewStream :: "'c \<Rightarrow> 'd \<Rightarrow> string \<Rightarrow> 'o callOption list \<Rightarrow> 'w \<Rightarrow> 'w \<times> (rpc_error + 'h)"
  cc_SendMsg :: "'h \<Rightarrow> message \<Rightarrow> 'w \<Rightarrow> 'w \<times> rpc_error option"
  cc_CloseSend :: "'h \<Rightarrow> 'w \<Rightarrow> 'w \<times> rpc_error option"

text \<open>The common text of the four unary stubs.\<close>

definition unary_stub :: "string \<Rightarrow> message \<Rightarrow> ('w, 'c, 'o, 'd, 'h) ClientConnInterface \<Rightarrow> 'c \<Rightarrow>
    message \<Rightarrow> 'o callOption list \<Rightarrow> 'w \<Rightarrow> 'w \<times> (rpc_error + message)" where
  "unary_stub full new_out cc ctx q opts w =
     (case cc_Invoke cc ctx full q new_out (StaticMethod # opts) w of
        (w', out, Some err) \<Rightarrow> (w', Inl err)
      | (w', out, None) \<Rightarrow> (w', Inr out))"

definition client_CreateTodo :: "('w, 'c, 'o, 'd, 'h) ClientConnInterface \<Rightarrow> 'c \<Rightarrow>
    CreateTodoRequest \<Rightarrow> 'o callOption list \<Rightarrow> 'w \<Rightarrow> 'w \<times> (rpc_error + message)" where
  "client_CreateTodo cc ctx q =
     unary_stub TodoService_CreateTodo_FullMethodName (M_CreateTodoResponse \<lparr>ctr_Todo = None\<rparr>)
       cc ctx (M_CreateTodoRequest q)"

definition client_ListTodos :: "('w, 'c, 'o, 'd, 'h) ClientConnInterface \<Rightarrow> 'c \<Rightarrow>
    ListTodosRequest \<Rightarrow> 'o callOption list \<Rightarrow> 'w \<Rightarrow> 'w \<times> (rpc_error + message)" where
  "client_ListTodos cc ctx q =
     unary_stub TodoService_ListTodos_FullMethodName (M_ListTodosResponse \<lparr>ltr_Todos = []\<rparr>)
       cc ctx (M_ListTodosRequest q)"

definition client_UpdateTodo :: "('w, 'c, 'o, 'd, 'h) ClientConnInterface \<Rightarrow> 'c \<Rightarrow>
    UpdateTodoRequest \<Rightarrow> 'o callOption list \<Rightarrow> 'w \<Rightarrow> 'w \<times> (rpc_error + message)" where
  "client_UpdateTodo cc ctx q =
     unary_stub TodoService_UpdateTodo_FullMethodName (M_UpdateTodoResponse \<lparr>utr_Todo = None\<rparr>)
       cc ctx (M_UpdateTodoRequest q)"

definition client_DeleteTodo :: "('w, 'c, 'o, 'd, 'h) ClientConnInterface \<Rightarrow> 'c \<Rightarrow>
    DeleteTodoRequest \<Rightarrow> 'o callOption list \<Rightarrow> 'w \<Rightarrow> 'w \<times> (rpc_error + message)" where
  "client_DeleteTodo cc ctx q =
     unary_stub TodoService_DeleteTodo_FullMethodName (M_DeleteTodoResponse \<lparr>dtr_Success = False\<rparr>)
       cc ctx (M_DeleteTodoRequest q)"

text \<open>The streaming stubs, over the streams of the descriptor.\<close>

definition client_StreamTodos :: "'d list \<Rightarrow> ('w, 'c, 'o, 'd, 'h) ClientConnInterface \<Rightarrow> 'c \<Rightarrow>
    StreamTodosRequest \<Rightarrow> 'o callOption list \<Rightarrow> 'w \<Rightarrow> 'w \<times> (rpc_error + 'h)" where
  "client_StreamTodos streams cc ctx q opts w =
     (case cc_NewStream cc ctx (streams ! 0) TodoService_StreamTodos_FullMethodName (StaticMethod # opts) w of
        (w1, Inl err) \<Rightarrow> (w1, Inl err)
      | (w1, Inr h) \<Rightarrow>
          (case cc_SendMsg cc h (M_StreamTodosRequest q) w1 of
             (w2, Some err) \<Rightarrow> (w2, Inl err)
           | (w2, None) \<Rightarrow>
               (case cc_CloseSend cc h w2 of
                  (w3, Some err) \<Rightarrow> (w3, Inl err)
                | (w3, None) \<Rightarrow> (w3, Inr h))))"

definition client_BulkCreateTodos :: "'d list \<Rightarrow> ('w, 'c, 'o, 'd, 'h) ClientConnInterface \<Rightarrow> 'c \<Rightarrow>
    'o callOption list \<Rightarrow> 'w \<Rightarrow> 'w \<times> (rpc_error + 'h)" where
  "client_BulkCreateTodos streams cc ctx opts w =
     cc_NewStream cc ctx (streams ! 1) TodoService_BulkCreateTodos_FullMethodName (StaticMethod # opts) w"

definition client_SyncTodos :: "'d list \<Rightarrow> ('w, 'c, 'o, 'd, 'h) ClientConnInterface \<Rightarrow> 'c \<Rightarrow>
    'o callOption list \<Rightarrow> 'w \<Rightarrow> 'w \<times> (rpc_error + 'h)" where
  "client_SyncTodos streams cc ctx opts w =
     cc_NewStream cc ctx (streams ! 2) TodoService_SyncTodos_FullMethodName (StaticMethod # opts) w"

end
