(* ===== verification/Todo_Service.thy ===== *)
theory Todo_Service
  imports Todo_Rpc
begin

text \<open>
  The to-do service from end to end: calls of the generated client, the service descriptor, the
  server of \<open>src/examples/grpc-server/main.go\<close> and its store.
\<close>

section \<open>The server of the example\<close>

text \<open>
  \<open>todoServer\<close> embeds \<open>UnimplementedTodoServiceServer\<close> and overrides the unary methods. \<open>newID\<close> is
  the UUID drawn for a creation.
\<close>

definition todoService :: "(todoServer \<Rightarrow> string) \<Rightarrow> ('c, todoServer, 'm) TodoServiceServer" where
  "todoService newID = UnimplementedTodoServiceServer
     \<lparr>srv_CreateTodo := \<lambda>ctx q s.
        map_prod id (\<lambda>t. Inr \<lparr>ctr_Todo = Some t\<rparr>) (CreateTodo (newID s) (ctq_Text q) s),
      srv_ListTodos := \<lambda>ctx q s. (s, Inr \<lparr>ltr_Todos = map Some (ListTodos s)\<rparr>),
      srv_UpdateTodo := \<lambda>ctx q s.
        map_prod id (\<lambda>t. Inr \<lparr>utr_Todo = t\<rparr>) (UpdateTodo (utq_Id q) (utq_Text q) (utq_Done q) s),
      srv_DeleteTodo := \<lambda>ctx q s.
        map_prod id (\<lambda>d. Inr \<lparr>dtr_Success = d\<rparr>) (DeleteTodo (dtq_Id q) s)\<rparr>"

section \<open>Names agree\<close>

text \<open>
  Client and server mean the same by a method: the name in a stub is the path of the method or stream
  in the descriptor, the index of a streaming stub finds its stream, its flags are those of the
  declared kind of streaming, and no two methods share a path.
\<close>

definition method_path :: "('c, 's, 'm) ServiceDesc \<Rightarrow> string \<Rightarrow> string" where
  "method_path d name = ''/'' @ desc_ServiceName d @ ''/'' @ name"

theorem stubs_match_descriptor:
  fixes recv :: "'m \<Rightarrow> 'm \<times> (rpc_error + StreamTodosRequest)"
  defines "d \<equiv> TodoService_ServiceDesc recv"
  shows "map (method_path d \<circ> md_MethodName) (desc_Methods d) =
      [TodoService_CreateTodo_FullMethodName, TodoService_ListTodos_FullMethodName,
       TodoService_UpdateTodo_FullMethodName, TodoService_DeleteTodo_FullMethodName]"
    and "map (method_path d \<circ> sd_StreamName) (desc_Streams d) =
      [TodoService_StreamTodos_FullMethodName, TodoService_BulkCreateTodos_FullMethodName,
       TodoService_SyncTodos_FullMethodName]"
    and "map (\<lambda>s. (sd_ServerStreams s, sd_ClientStreams s)) (desc_Streams d) =
      [(True, False), (False, True), (True, True)]"
    and "distinct (map (method_path d) (map md_MethodName (desc_Methods d) @ map sd_StreamName (desc_Streams d)))"
  by (simp_all add: d_def TodoService_ServiceDesc_def method_path_def full_names)

section \<open>Calls reach the store\<close>

text \<open>
  What gRPC promises for a service registered with descriptor \<open>d\<close>: a call of a method's path runs
  the handler of that method once, on the decoded request, and hands its response or its error to
  the caller. \<open>sendable\<close> are the messages that encode and decode to themselves (protobuf refuses
  strings that are not UTF-8), \<open>ctx_of\<close> gives the server's context for the client's.
\<close>

definition serves :: "('c, 's, 'm) ServiceDesc \<Rightarrow> ('c, 's, 'm) TodoServiceServer \<Rightarrow> (message \<Rightarrow> bool) \<Rightarrow>
    ('b \<Rightarrow> 'c) \<Rightarrow> ('s, 'b, 'o, 'd, 'h) ClientConnInterface \<Rightarrow> bool" where
  "serves d srv sendable ctx_of cc \<longleftrightarrow>
     (\<forall>md \<in> set (desc_Methods d). \<forall>ctx q out opts s. sendable q \<longrightarrow>
        (case md_Handler md srv (ctx_of ctx) (\<lambda>_. Inr q) None s of
           (s', Returned r) \<Rightarrow> sendable r \<longrightarrow>
             cc_Invoke cc ctx (method_path d (md_MethodName md)) q out opts s = (s', r, None)
         | (s', Failed err) \<Rightarrow>
             (\<exists>out'. cc_Invoke cc ctx (method_path d (md_MethodName md)) q out opts s = (s', out', Some err))
         | (s', Handler_panics) \<Rightarrow> True))"

text \<open>The calls of a client, by what they ask of the store.\<close>

fun rpc_request :: "todo_op \<Rightarrow> message" where
  "rpc_request (Create i txt) = M_CreateTodoRequest \<lparr>ctq_Text = txt\<rparr>"
| "rpc_request (Update i txt d) = M_UpdateTodoRequest \<lparr>utq_Id = i, utq_Text = txt, utq_Done = d\<rparr>"
| "rpc_request (Delete i) = M_DeleteTodoRequest \<lparr>dtq_Id = i\<rparr>"
| "rpc_request ListAll = M_ListTodosRequest ListTodosRequest"

fun rpc_response :: "todo_op \<Rightarrow> todo_reply \<Rightarrow> message" where
  "rpc_response (Update i txt d) (Todo t) = M_UpdateTodoResponse \<lparr>utr_Todo = t\<rparr>"
| "rpc_response op (Todo t) = M_CreateTodoResponse \<lparr>ctr_Todo = t\<rparr>"
| "rpc_response op (Deleted b) = M_DeleteTodoResponse \<lparr>dtr_Success = b\<rparr>"
| "rpc_response op (Todos ts) = M_ListTodosResponse \<lparr>ltr_Todos = map Some ts\<rparr>"

fun rpc_call :: "('w, 'c, 'o, 'd, 'h) ClientConnInterface \<Rightarrow> 'c \<Rightarrow> 'o callOption list \<Rightarrow> todo_op \<Rightarrow>
    'w \<Rightarrow> 'w \<times> (rpc_error + message)" where
  "rpc_call cc ctx opts (Create i txt) w = client_CreateTodo cc ctx \<lparr>ctq_Text = txt\<rparr> opts w"
| "rpc_call cc ctx opts (Update i txt d) w =
     client_UpdateTodo cc ctx \<lparr>utq_Id = i, utq_Text = txt, utq_Done = d\<rparr> opts w"
| "rpc_call cc ctx opts (Delete i) w = client_DeleteTodo cc ctx \<lparr>dtq_Id = i\<rparr> opts w"
| "rpc_call cc ctx opts ListAll w = client_ListTodos cc ctx ListTodosRequest opts w"

text \<open>A call goes through as it is meant to: its messages can be sent, and a new to-do gets the drawn id.\<close>

fun draws :: "(todoServer \<Rightarrow> string) \<Rightarrow> todo_op \<Rightarrow> todoServer \<Rightarrow> bool" where
  "draws newID (Create i txt) s \<longleftrightarrow> newID s = i"
| "draws newID op s \<longleftrightarrow> True"

definition call_ok :: "(message \<Rightarrow> bool) \<Rightarrow> (todoServer \<Rightarrow> string) \<Rightarrow> todo_op \<Rightarrow> todoServer \<Rightarrow> bool" where
  "call_ok sendable newID op s \<longleftrightarrow>
     sendable (rpc_request op) \<and> sendable (rpc_response op (snd (todo_apply op s))) \<and> draws newID op s"

lemmas unary_handlers = TodoService_CreateTodo_Handler_def TodoService_ListTodos_Handler_def
  TodoService_UpdateTodo_Handler_def TodoService_DeleteTodo_Handler_def unary_def outcome_def

lemmas unary_clients = client_CreateTodo_def client_ListTodos_def client_UpdateTodo_def
  client_DeleteTodo_def unary_stub_def

lemma serves_call:
  assumes "serves d srv sendable ctx_of cc" and "md \<in> set (desc_Methods d)"
    and "sendable q" and "sendable r"
    and "md_Handler md srv (ctx_of ctx) (\<lambda>_. Inr q) None s = (s', Returned r)"
  shows "unary_stub (method_path d (md_MethodName md)) out cc ctx q opts s = (s', Inr r)"
  using assms(1) [unfolded serves_def, THEN bspec, OF assms(2), THEN spec, of ctx, THEN spec, of q,
      THEN spec, of out, THEN spec, of "StaticMethod # opts", THEN spec, of s, THEN mp, OF assms(3)]
    assms(4,5)
  by (simp add: unary_stub_def)

text \<open>The handler of each method on a request of the store.\<close>

definition op_method :: "todo_op \<Rightarrow> nat" where
  "op_method op = (case op of Create i t \<Rightarrow> 0 | ListAll \<Rightarrow> 1 | Update i t d \<Rightarrow> 2 | Delete i \<Rightarrow> 3)"

lemma handler_runs_store:
  assumes "draws newID op s"
  shows "md_Handler (desc_Methods (TodoService_ServiceDesc recv) ! op_method op) (todoService newID) ctx
      (\<lambda>_. Inr (rpc_request op)) None s =
    (fst (todo_apply op s), Returned (rpc_response op (snd (todo_apply op s))))"
  using assms by (cases op) (auto simp: op_method_def TodoService_ServiceDesc_def unary_handlers
      todoService_def map_prod_def split: prod.splits)

lemma call_is_stub:
  "\<exists>out. rpc_call cc ctx opts op w = unary_stub
     (method_path (TodoService_ServiceDesc recv)
        (md_MethodName (desc_Methods (TodoService_ServiceDesc recv) ! op_method op)))
     out cc ctx (rpc_request op) opts w"
  by (cases op) (auto simp: op_method_def TodoService_ServiceDesc_def method_path_def full_names unary_clients)

theorem stub_reaches_store:
  assumes served: "serves (TodoService_ServiceDesc recv) (todoService newID) sendable ctx_of cc"
    and ok: "call_ok sendable newID op s"
  shows "rpc_call cc ctx opts op s =
    (fst (todo_apply op s), Inr (rpc_response op (snd (todo_apply op s))))"
proof -
  let ?md = "desc_Methods (TodoService_ServiceDesc recv) ! op_method op"
  have "?md \<in> set (desc_Methods (TodoService_ServiceDesc recv))"
    by (rule nth_mem) (auto simp: op_method_def TodoService_ServiceDesc_def split: todo_op.split)
  moreover from ok have "sendable (rpc_request op)" "sendable (rpc_response op (snd (todo_apply op s)))"
    "draws newID op s" by (simp_all add: call_ok_def)
  ultimately show ?thesis
    using serves_call [OF served _ _ _ handler_runs_store] call_is_stub by metis
qed

section \<open>A remote list\<close>

fun rpc_run :: "('w, 'c, 'o, 'd, 'h) ClientConnInterface \<Rightarrow> 'c \<Rightarrow> 'o callOption list \<Rightarrow> todo_op list \<Rightarrow>
    'w \<Rightarrow> 'w \<times> (rpc_error + message) list" where
  "rpc_run cc ctx opts [] w = (w, [])"
| "rpc_run cc ctx opts (op # ops) w =
     (let (w', r) = rpc_call cc ctx opts op w; (w'', rs) = rpc_run cc ctx opts ops w' in (w'', r # rs))"

fun run_ok :: "(message \<Rightarrow> bool) \<Rightarrow> (todoServer \<Rightarrow> string) \<Rightarrow> todo_op list \<Rightarrow> todoServer \<Rightarrow> bool" where
  "run_ok sendable newID [] s \<longleftrightarrow> True"
| "run_ok sendable newID (op # ops) s \<longleftrightarrow>
     call_ok sendable newID op s \<and> run_ok sendable newID ops (fst (todo_apply op s))"

lemma rpc_run_is_todo_run:
  assumes "serves (TodoService_ServiceDesc recv) (todoService newID) sendable ctx_of cc"
  shows "run_ok sendable newID ops s \<Longrightarrow>
    rpc_run cc ctx opts ops s =
      (fst (todo_run ops s), map2 (\<lambda>op r. Inr (rpc_response op r)) ops (snd (todo_run ops s)))"
  by (induction ops arbitrary: s)
    (auto simp: stub_reaches_store [OF assms] Let_def split: prod.splits)

text \<open>
  A client that calls the generated stubs over a connection to the example server uses a plain list
  of to-dos with one entry per id, however the calls follow each other.
\<close>

theorem remote_todos_refine_list:
  fixes items ops
  defines "s \<equiv> buildTodoStore items" and "ts \<equiv> first_by_id {} items"
  assumes "serves (TodoService_ServiceDesc recv) (todoService newID) sendable ctx_of cc"
    and "run_ok sendable newID ops s" and "fresh_run ops ts"
  shows "snd (rpc_run cc ctx opts ops s) = map2 (\<lambda>op r. Inr (rpc_response op r)) ops (snd (list_run ops ts)) \<and>
    ListTodos (fst (rpc_run cc ctx opts ops s)) = fst (list_run ops ts)"
proof -
  from assms have "map_prod buildTodosSnapshot id (todo_run ops s) = list_run ops ts"
    using run_refines [OF build_ok, of ops items] by (simp add: build_snapshot)
  then have "snd (list_run ops ts) = snd (todo_run ops s)"
    and "fst (list_run ops ts) = ListTodos (fst (todo_run ops s))"
    by (metis snd_map_prod id_apply, metis fst_map_prod ListTodos_def)
  with rpc_run_is_todo_run [OF assms(3,4)] show ?thesis by simp
qed

text \<open>
  A connection in one process, which looks the handler up and calls it, keeps the promise: \<open>serves\<close>
  can hold. Its streams are the state the streaming handlers drive.
\<close>

definition local_conn :: "('c, 's, 'm) ServiceDesc \<Rightarrow> ('c, 's, 'm) TodoServiceServer \<Rightarrow>
    ('s, 'c, 'o, ('c, 's, 'm) StreamDesc, unit) ClientConnInterface" where
  "local_conn d srv =
     \<lparr>cc_Invoke = \<lambda>ctx full q out opts s.
        (case find (\<lambda>md. method_path d (md_MethodName md) = full) (desc_Methods d) of
           None \<Rightarrow> (s, out, Some (Status_Unimplemented ''unknown method''))
         | Some md \<Rightarrow>
             (case md_Handler md srv ctx (\<lambda>_. Inr q) None s of
                (s', Returned r) \<Rightarrow> (s', r, None)
              | (s', Failed err) \<Rightarrow> (s', out, Some err)
              | (s', Handler_panics) \<Rightarrow> (s', out, Some (Rpc_failed ''panic'')))),
      cc_NewStream = \<lambda>ctx sd full opts s. (s, Inr ()),
      cc_SendMsg = \<lambda>h q s. (s, None),
      cc_CloseSend = \<lambda>h s. (s, None)\<rparr>"

lemma find_own: "distinct (map f xs) \<Longrightarrow> x \<in> set xs \<Longrightarrow> find (\<lambda>y. f y = f x) xs = Some x"
  by (induction xs) (auto simp: image_iff)

lemma local_conn_serves:
  "serves (TodoService_ServiceDesc recv) srv sendable id (local_conn (TodoService_ServiceDesc recv) srv)"
proof -
  have "distinct (map (\<lambda>md. method_path (TodoService_ServiceDesc recv) (md_MethodName md))
      (desc_Methods (TodoService_ServiceDesc recv)))"
    by (simp add: TodoService_ServiceDesc_def method_path_def)
  note found = find_own [OF this]
  show ?thesis
    by (auto simp: serves_def local_conn_def found split: rpc_outcome.split)
qed

theorem remote_todos_refine_list_witness:
  "snd (rpc_run (local_conn (TodoService_ServiceDesc recv) (todoService (\<lambda>s. ''b''))) ctx []
     [Create ''b'' ''two'', Delete ''a'', Delete ''a'', ListAll]
     (buildTodoStore [Some \<lparr>td_Id = ''a'', td_Text = ''one'', td_Done = True\<rparr>])) =
   [Inr (M_CreateTodoResponse \<lparr>ctr_Todo = Some \<lparr>td_Id = ''b'', td_Text = ''two'', td_Done = False\<rparr>\<rparr>),
    Inr (M_DeleteTodoResponse \<lparr>dtr_Success = True\<rparr>), Inr (M_DeleteTodoResponse \<lparr>dtr_Success = False\<rparr>),
    Inr (M_ListTodosResponse \<lparr>ltr_Todos = [Some \<lparr>td_Id = ''b'', td_Text = ''two'', td_Done = False\<rparr>]\<rparr>)]"
  (is "snd (rpc_run ?cc ctx [] ?ops (buildTodoStore ?items)) = ?replies")
proof -
  have ok: "run_ok (\<lambda>_. True) (\<lambda>s. ''b'') ?ops (buildTodoStore ?items)" by (simp add: call_ok_def)
  have fresh: "fresh_run ?ops (first_by_id {} ?items)" by simp
  have "snd (rpc_run ?cc ctx [] ?ops (buildTodoStore ?items)) =
      map2 (\<lambda>op r. Inr (rpc_response op r)) ?ops (snd (list_run ?ops (first_by_id {} ?items)))"
    by (rule conjunct1 [OF remote_todos_refine_list [OF local_conn_serves ok fresh]])
  also have "\<dots> = ?replies" by (auto simp: Let_def)
  finally show ?thesis .
qed

section \<open>Streaming\<close>

text \<open>
  The example server implements no streaming method: every stream of the descriptor ends with
  \<open>Unimplemented\<close>, or with the error of its first receive, and the store is untouched.
\<close>

theorem streams_unimplemented:
  assumes "sd \<in> set (desc_Streams (TodoService_ServiceDesc recv))"
  shows "\<exists>m' err. sd_Handler sd (todoService newID) (s, m) = ((s, m'), Some err) \<and>
    (err = Status_Unimplemented (''method '' @ sd_StreamName sd @ '' not implemented'') \<or>
     recv m = (m', Inl err))"
  using assms
  by (auto simp: TodoService_ServiceDesc_def TodoService_StreamTodos_Handler_def
      TodoService_BulkCreateTodos_Handler_def TodoService_SyncTodos_Handler_def todoService_def
      UnimplementedTodoServiceServer_def split: prod.split sum.split)

text \<open>
  \<open>StreamTodos\<close> hands out a stream only after its one request was sent and its sending side closed,
  and passes on the first error otherwise.
\<close>

theorem stream_stub_sends_once:
  "client_StreamTodos streams cc ctx q opts w = (w', Inr h) \<longleftrightarrow>
   (\<exists>w1 w2. cc_NewStream cc ctx (streams ! 0) TodoService_StreamTodos_FullMethodName (StaticMethod # opts) w = (w1, Inr h) \<and>
      cc_SendMsg cc h (M_StreamTodosRequest q) w1 = (w2, None) \<and> cc_CloseSend cc h w2 = (w', None))"
  by (auto simp: client_StreamTodos_def split: prod.splits sum.splits option.splits)

end
