(* ===== verification/Spec2Isabelle.thy ===== *)
theory Spec2Isabelle
  imports Proxy_Handler Origin_Policy Native_Listener Wasm_Dialer Client_Dial Tooling Observability
    Wasm_Queue_Spec Bridge_Instance Api_Guard_Store Tunnel_Link Example_Programs
    Runner_Main Native_Session Log_Output Client_Pools Program_Mains Todo_Service
begin

text \<open>
  A model of GoGRPCBridge: gRPC carried over websockets. A client dials a websocket and gives gRPC a
  connection that turns frames into a byte stream; a server upgrades HTTP requests, checks origin,
  authorization and abuse limits, and serves HTTP/2 on the socket; a proxy does the same and
  forwards to a backend. The packages are \<open>src/pkg/grpctunnel\<close> (client, server, tooling),
  \<open>src/pkg/bridge\<close> (the proxy and its client) and \<open>src/pkg/wasm/dialer\<close> (the browser). The model
  keeps the source's names; where two packages define the same name, the definition of the second
  carries a prefix (\<open>bridge_\<close>, \<open>wasm_\<close>, \<open>tunnel_\<close>) or the source's own longer name.

  Libraries of Go. \<open>Prelude\<close> holds lists, maps, results and the idea of a deferred call
  (\<open>deferring\<close>: what a function's deferred calls append to its trace, panics included).
  \<open>Go_Strings\<close>, \<open>Go_Net\<close>, \<open>Go_Url\<close> and \<open>Go_Http\<close> model what the code uses of \<open>strings\<close>, \<open>net\<close>
  (\<open>SplitHostPort\<close>, \<open>ParseIP\<close>), \<open>net/url\<close> and \<open>net/http\<close> (requests and headers). Parsing an IPv6
  address takes a turn of its loop per group, and \<open>parse_ipv6_loop\<close> is given nine turns, one more than
  the eight groups an address can have.

  The server, package \<open>grpctunnel\<close>.
  \<open>Origin_Policy\<close>: \<open>BuildOriginAllowlistCheck\<close> and \<open>splitOriginWildcard\<close> (api.go).
  \<open>Bridge_Config\<close>: \<open>BridgeConfig\<close>, its validation and defaults, the functional options (server.go).
  \<open>Abuse_Control\<close>: the guard of abuse_control.go: connection slots per server and per client, and
  rate windows. Its operations run under a mutex, so each is one step. \<open>Guard_Interface\<close> states as
  locales what a guard promises to the handlers that use it.
  \<open>Forward_Headers\<close>: the headers of the upgrade request forwarded to every call (server.go).
  \<open>Bridge_Keepalive\<close>: the settings of a connection and the keepalive goroutine, one event per step,
  of both packages.
  \<open>Handler_Trace\<close> holds the events of a handler, \<open>Bridge_Handler\<close> the handler of
  \<open>BuildBridgeHandler\<close> as a function from configuration, environment and request to the trace of its
  effects. The environment says what the libraries answer and which calls of user code panic.
  \<open>Bridge_Instance\<close>: what the construction of a handler allocates, the buffer pools a process shares,
  and the convenience servers.
  \<open>Observability\<close>: the metrics and spans behind the trace's events (observability.go).
  \<open>Native_Listener\<close>: the listener that feeds sessions to gRPC's own server, and the close
  notification (server_native.go). \<open>Native_Session\<close>: the native transport as a whole, a step relation
  whose steps are the events of any number of handlers, the closes by gRPC, the lifetime timers, a
  stop of the server and the end of its accept loop; a handler moves only where listener and session
  let it.
  \<open>Retry_After\<close> and \<open>Logging\<close>: the \<open>Retry-After\<close> header and the log lines, of both packages;
  \<open>Log_Output\<close>: the loggers, the error texts, and the log that a running server writes.
  \<open>Tooling\<close>: the debug server (tooling.go).

  The proxy, package \<open>bridge\<close>. \<open>Handler_Config\<close> and \<open>Handler_Abuse\<close>: configuration, buffer pools
  and guard. \<open>Bridge_Target\<close>: the backend address and the transport policy. \<open>Proxy_Handler\<close>:
  \<open>NewHandler\<close> and \<open>ServeHTTP\<close> (bridge.go).

  Connections. \<open>Stream_Interface\<close> states as locales what gRPC relies on when it reads: the bytes it
  gets are the bytes that arrived. \<open>Ws_Conn\<close>: the adapters of \<open>grpctunnel/conn.go\<close> and
  \<open>bridge/conn.go\<close> over gorilla's websocket, which is a parameter: functions for the next reader, a
  read and a write. Their read loop skips empty frames and could go on forever, so it is a
  \<open>partial_function (option)\<close>, and \<open>reads_return\<close> proves that it returns. \<open>Wasm_Conn\<close>: the browser's
  connection, a queue filled by callbacks (websocket_conn.go); \<open>Wasm_Queue_Spec\<close>: the bounded queue
  it refines. All three connections are interpretations of the locales. \<open>Tunnel_Link\<close> puts two of them
  face to face, of any kind, with the frames in flight between them: a step relation whose events are
  the calls, callbacks, arrivals and failures at the two ends, and a locale for a pipe of bytes that
  each direction of the link interprets.

  Clients. \<open>Tunnel_Target\<close>: completion of targets to websocket URLs. \<open>Dial_Policy\<close>: reconnect and
  keepalive policies (api.go). \<open>Client_Dial\<close>: options, validation and dialing of \<open>client.go\<close>, of the
  WebAssembly build \<open>client_wasm.go\<close> and of \<open>bridge/client.go\<close>, up to the call of gRPC.
  \<open>Wasm_Dialer\<close>: the browser's dial (dialer.go). \<open>Client_Pools\<close>: the write buffer pools of the
  dialers, from the cache they share with the handlers.

  Beside the packages. \<open>Todo_Store\<close> and \<open>Todo_Persist\<close>: the to-do service of the example servers, its
  store and the worker that writes it to a file. \<open>Example_Todo\<close>: saving, and the direct bridge, which
  repeats the service and serves it through the package's handler with an origin check of its own.
  \<open>Todo_Messages\<close> and \<open>Todo_Rpc\<close>: the generated messages, client stubs, handlers and service
  descriptor (\<open>todos.pb.go\<close>, \<open>todos_grpc.pb.go\<close>); \<open>Todo_Service\<close>: calls from a stub to the store.
  \<open>Example_Helpers\<close>: the proxy and server helpers of the examples; and a locale for the life of a
  websocket in an upgrade handler, interpreted for the four handlers of the repository.
  \<open>Example_Programs\<close>: what the programs of \<open>src/examples\<close> serve or dial. \<open>Program_Mains\<close>: the \<open>main\<close>
  functions of the tools, with their exit status, and of the example server and browser client.
  \<open>Api_Guard\<close>: the API compatibility guard of \<open>src/tools/api_compat_guard\<close>; \<open>Api_Guard_Store\<close>: its
  command with the file it reads or writes.

  The task runner, \<open>src/tools/runner.go\<close>. A command is a computation in the state monad whose state
  is the history of what was done (processes, files, output) and whose result is an error or a value;
  the operating system is an oracle that answers each action and may look at the whole history, so
  that nothing is assumed of it. \<open>Runner\<close>: this frame, the environment given to processes;
  \<open>Runner_Commands\<close>: the commands that run processes in sequence; \<open>Runner_Text\<close>: what is read out of
  text (\<open>go.mod\<close>, coverage, benchmark output, repository addresses), with the regular expressions as
  functions; \<open>Runner_Quality\<close>: the quality gates, baseline and trend; \<open>Runner_Publish\<close>: the
  publication check and its temporary directory; \<open>Runner_Main\<close>: the table of commands and the
  dispatch. The benchmark gate has two attempts, as in the code, so its loop is a recursion on the
  number left. \<open>Go_Float\<close> is the arithmetic of \<open>float64\<close> the gate uses: rationals rounded to nearest,
  ties to even, with infinities and NaN; it has one zero, which no comparison of the code tells from
  the negative one, and division by zero is guarded in the code.

  What the theorems show. Guards: counters are exact and the caps hold in any interleaving of
  handlers, whatever panics; the rate limit and its \<open>Retry-After\<close> are exact; the two guards agree.
  Handlers: resources are given back once and in order, refusals allocate nothing, refused origins
  are never served, a misconfigured proxy serves nothing and a strict one reaches only loopback.
  Connections: streams, wake-ups, limits, refinement of a queue, round trip of writes, exclusive use
  of gorilla's write path. Clients: targets, agreement of validation and dialing, precedence of
  options. Tooling: routes and exposure. Logs: a line cannot be forged by its fields, and the
  output of a server reads back as its log calls and tells the number of open tunnels. Native
  sessions: what gRPC serves stays within the caps, a handler lets go of slot, socket and hooks only
  after gRPC closed its session, and after a stop every handler can run to its end, at most 25
  events, and leaves an empty guard. The to-do
  service is a plain list to its clients, through the generated stubs too, and every change reaches
  its file; the API guard reports
  exactly the removed names. A tunnel: whatever happens at its two ends, a reader gets a prefix of
  what the other end wrote, nothing is missing while nothing was lost, and what was written can
  always be drained. The four upgrade handlers close every socket once and last; the proxy helper is
  the proxy without its limits; the direct bridge serves local origins only, and the example client
  dials the address on which it listens. The task runner: a passed quality run passed every gate in
  order, its benchmark gate is sound in the reals although it rounds, the publication check shows
  what it claims and removes its temporary directory on every path, a process sees the overrides
  first.

  Time is an integer in nanoseconds and does not wrap; counters are natural numbers: a Go \<open>int\<close>
  counter would need more than 2^63 live connections to differ. Strings are lists of bytes.

  Not modelled. Gorilla's websocket, grpc, http2, httputil and OpenTelemetry are not under src/: they
  are parameters or the environment. That gRPC closes the sessions it has when it is stopped, and
  that \<open>Serve\<close> returns once its listener is closed, are hypotheses of the theorem on the shutdown. Of
  the example programs, command lines are left out. Of
  the task runner, the texts of error messages are kept as far as they name the failure. Of the
  generated \<open>todos.pb.go\<close>, the descriptors and reflection hooks, which only hand data to the protobuf
  runtime, are left out; that gRPC runs the handler registered for a method is a hypothesis,
  \<open>serves\<close>, of the theorems on remote calls.
\<close>

end
